theory Spec2Isabelle
  imports Complex_Main "HOL-Library.AList" "HOL-Library.Multiset" "HOL-Library.Monad_Syntax"
begin

section \<open>Numbers\<close>

text \<open>
  The controller computes in C++ \<^verbatim>\<open>float\<close>. The model keeps the one non-numeric
  value the code tests for, NaN, and takes every other value as a real number:
  arithmetic on finite values is exact (no rounding, no overflow), NaN propagates
  through arithmetic, and every ordered comparison and \<^verbatim>\<open>==\<close> with NaN is false.
  A division by zero (an infinity in IEEE arithmetic) is outside the model: the
  operation yields \<open>None\<close> and the modelled call stops there.
\<close>

datatype float = NaN | Fin real

fun isnan :: "float \<Rightarrow> bool" where
  "isnan NaN = True"
| "isnan (Fin _) = False"

fun fadd :: "float \<Rightarrow> float \<Rightarrow> float" where
  "fadd (Fin a) (Fin b) = Fin (a + b)"
| "fadd _ _ = NaN"

fun fsub :: "float \<Rightarrow> float \<Rightarrow> float" where
  "fsub (Fin a) (Fin b) = Fin (a - b)"
| "fsub _ _ = NaN"

fun fmul :: "float \<Rightarrow> float \<Rightarrow> float" where
  "fmul (Fin a) (Fin b) = Fin (a * b)"
| "fmul _ _ = NaN"

fun fdiv :: "float \<Rightarrow> float \<Rightarrow> float option" where
  "fdiv (Fin a) (Fin b) = (if b = 0 then None else Some (Fin (a / b)))"
| "fdiv _ _ = Some NaN"

fun flt :: "float \<Rightarrow> float \<Rightarrow> bool" where
  "flt (Fin a) (Fin b) = (a < b)"
| "flt _ _ = False"

fun fle :: "float \<Rightarrow> float \<Rightarrow> bool" where
  "fle (Fin a) (Fin b) = (a \<le> b)"
| "fle _ _ = False"

definition fgt :: "float \<Rightarrow> float \<Rightarrow> bool" where
  "fgt a b = flt b a"

definition fge :: "float \<Rightarrow> float \<Rightarrow> bool" where
  "fge a b = fle b a"

fun feq :: "float \<Rightarrow> float \<Rightarrow> bool" where
  "feq (Fin a) (Fin b) = (a = b)"
| "feq _ _ = False"

fun fabsf :: "float \<Rightarrow> float" where
  "fabsf (Fin a) = Fin \<bar>a\<bar>"
| "fabsf NaN = NaN"

text \<open>\<^verbatim>\<open>std::min(a, b)\<close> is \<^verbatim>\<open>(b < a) ? b : a\<close>, \<^verbatim>\<open>std::max(a, b)\<close> is
  \<^verbatim>\<open>(a < b) ? b : a\<close> and \<^verbatim>\<open>std::clamp(v, lo, hi)\<close> is
  \<^verbatim>\<open>(v < lo) ? lo : (hi < v) ? hi : v\<close>.\<close>

definition fmin :: "float \<Rightarrow> float \<Rightarrow> float" where
  "fmin a b = (if flt b a then b else a)"

definition fmax :: "float \<Rightarrow> float \<Rightarrow> float" where
  "fmax a b = (if flt a b then b else a)"

definition fclamp :: "float \<Rightarrow> float \<Rightarrow> float \<Rightarrow> float" where
  "fclamp v lo hi = (if flt v lo then lo else if flt hi v then hi else v)"

definition of_int_f :: "int \<Rightarrow> float" where
  "of_int_f i = Fin (real_of_int i)"

definition INT_MAX :: int where
  "INT_MAX = 2147483647"

definition INT_MIN :: int where
  "INT_MIN = - 2147483648"

definition FLT_MAX :: float where
  "FLT_MAX = Fin 340282346638528859811704183484516925440"

text \<open>A \<^verbatim>\<open>float\<close> converted to \<^verbatim>\<open>int\<close> is truncated towards zero; the
  conversion of NaN or of a value that does not fit is undefined (\<open>None\<close>).\<close>

fun to_int :: "float \<Rightarrow> int option" where
  "to_int NaN = None"
| "to_int (Fin r) =
     (let t = (if 0 \<le> r then \<lfloor>r\<rfloor> else \<lceil>r\<rceil>)
      in if INT_MIN \<le> t \<and> t \<le> INT_MAX then Some t else None)"

section \<open>Configuration and state\<close>

datatype ThrottlingSeverity = NONE | LIGHT | MODERATE | SEVERE | CRITICAL | EMERGENCY | SHUTDOWN

text \<open>\<^verbatim>\<open>static_cast<size_t>(severity)\<close>.\<close>

fun size_t :: "ThrottlingSeverity \<Rightarrow> nat" where
  "size_t NONE = 0"
| "size_t LIGHT = 1"
| "size_t MODERATE = 2"
| "size_t SEVERE = 3"
| "size_t CRITICAL = 4"
| "size_t EMERGENCY = 5"
| "size_t SHUTDOWN = 6"

definition enum_range :: "ThrottlingSeverity list" where
  "enum_range = [NONE, LIGHT, MODERATE, SEVERE, CRITICAL, EMERGENCY, SHUTDOWN]"

datatype ReleaseLogic = INCREASE | DECREASE | STEPWISE | RELEASE_TO_FLOOR | RL_NONE

text \<open>
  The per-severity tables are \<^verbatim>\<open>std::array\<close>s of seven entries, read at a severity's
  ordinal; they are lists here, read with \<open>!\<close>. An \<^verbatim>\<open>unordered_map\<close> the code
  iterates over is an association list whose order is the iteration order; the
  \<^verbatim>\<open>std::vector\<close>s (\<open>state2power\<close>, the predictions) are lists whose reads are
  range-checked in the model, an out-of-range read being undefined in the source.
\<close>

record BindedCdevInfo =
  limit_info :: "int list"
  power_thresholds :: "float list"
  release_logic :: ReleaseLogic
  cdev_weight_for_pid :: "float list"
  cdev_ceiling :: "int list"
  cdev_floor_with_power_link :: "int list"
  power_rail :: string
  high_power_check :: bool
  throttling_with_power_link :: bool
  max_release_step :: int
  max_throttle_step :: int
  enabled :: bool

record ThrottlingInfo =
  k_po :: "float list"
  k_pu :: "float list"
  k_io :: "float list"
  k_iu :: "float list"
  k_d :: "float list"
  i_max :: "float list"
  max_alloc_power :: "float list"
  min_alloc_power :: "float list"
  s_power :: "float list"
  i_cutoff :: "float list"
  i_default :: float
  i_default_pct :: float
  cfg_tran_cycle :: int
  excluded_power_info_map :: "(string \<times> float list) list"
  binded_cdev_info_map :: "(string \<times> BindedCdevInfo) list"
  profile_map :: "(string \<times> (string \<times> BindedCdevInfo) list) list"

record PredictorInfo =
  support_pid_compensation :: bool
  prediction_weights :: "float list"
  k_p_compensate :: "float list"

record SensorInfo =
  hot_thresholds :: "float list"
  multiplier :: float
  predictor_info :: "PredictorInfo option"
  throttling_info :: "ThrottlingInfo option"

record CdevInfo =
  state2power :: "float list"
  max_state :: int

record PowerStatus =
  last_updated_avg_power :: float

record Temperature =
  temp_name :: string
  temp_value :: float

text \<open>
  \<^verbatim>\<open>ThermalThrottlingStatus\<close> is declared in \<^verbatim>\<open>thermal_throttling.h\<close>; its fields and
  their types are read off their uses in the source: the per-CDEV maps hold
  \<^verbatim>\<open>int\<close> (the power budgets are reset to \<^verbatim>\<open>std::numeric_limits<int>::max()\<close>),
  \<open>prev_target\<close> holds a \<^verbatim>\<open>size_t\<close> ordinal, and an entry made by \<^verbatim>\<open>operator[]\<close>
  is value-initialised.
\<close>

record ThermalThrottlingStatus =
  pid_power_budget_map :: "(string \<times> int) list"
  pid_cdev_request_map :: "(string \<times> int) list"
  hardlimit_cdev_request_map :: "(string \<times> int) list"
  throttling_release_map :: "(string \<times> int) list"
  cdev_status_map :: "(string \<times> int) list"
  prev_err :: float
  i_budget :: float
  prev_target :: nat
  prev_power_budget :: float
  budget_transient :: float
  tran_cycle :: int
  profile :: string

definition new_status :: ThermalThrottlingStatus where
  "new_status =
     \<lparr>pid_power_budget_map = [], pid_cdev_request_map = [], hardlimit_cdev_request_map = [],
      throttling_release_map = [], cdev_status_map = [], prev_err = Fin 0, i_budget = Fin 0,
      prev_target = 0, prev_power_budget = Fin 0, budget_transient = Fin 0, tran_cycle = 0,
      profile = []\<rparr>"

text \<open>
  The object: \<open>thermal_throttling_status_map_\<close> by sensor name and
  \<open>cdev_all_request_map_\<close> by cooling device name. The two mutexes are not modelled:
  every operation runs to its end alone.
\<close>

record ThermalThrottling =
  thermal_throttling_status_map :: "(string \<times> ThermalThrottlingStatus) list"
  cdev_all_request_map :: "string \<rightharpoonup> int list"

definition initial :: ThermalThrottling where
  "initial = \<lparr>thermal_throttling_status_map = [], cdev_all_request_map = Map.empty\<rparr>"

definition count_key :: "('k \<times> 'v) list \<Rightarrow> 'k \<Rightarrow> bool" where
  "count_key m k = (k \<in> fst ` set m)"

text \<open>\<^verbatim>\<open>m.at(k)\<close>: the value, or \<open>None\<close> where the source throws \<^verbatim>\<open>std::out_of_range\<close>.\<close>

definition map_at :: "('k \<times> 'v) list \<Rightarrow> 'k \<Rightarrow> 'v option" where
  "map_at m k = map_of m k"

text \<open>\<^verbatim>\<open>v[i]\<close> on a \<^verbatim>\<open>std::vector\<close> with an \<^verbatim>\<open>int\<close> index.\<close>

definition vec_at :: "'a list \<Rightarrow> int \<Rightarrow> 'a option" where
  "vec_at v i = (if 0 \<le> i \<and> nat i < length v then Some (v ! nat i) else None)"

section \<open>The vote registry\<close>

text \<open>
  Modelled from the spec: the entries of \<open>cdev_all_request_map_\<close> are ordered
  multisets of votes whose first element is the current maximum; the declaration
  (the comparator of the \<^verbatim>\<open>std::multiset\<close>) is in \<^verbatim>\<open>thermal_throttling.h\<close>. A
  multiset is the list of its elements in descending order; \<^verbatim>\<open>insert\<close> puts an
  element after its equals, \<^verbatim>\<open>erase(find(x))\<close> removes one element equal to
  \<open>x\<close> and is undefined when there is none, \<^verbatim>\<open>*begin()\<close> is undefined on an empty
  multiset.
\<close>

fun multiset_insert :: "int \<Rightarrow> int list \<Rightarrow> int list" where
  "multiset_insert x [] = [x]"
| "multiset_insert x (y # ys) = (if y < x then x # y # ys else y # multiset_insert x ys)"

definition multiset_erase_find :: "int \<Rightarrow> int list \<Rightarrow> int list option" where
  "multiset_erase_find x xs = (if x \<in> set xs then Some (remove1 x xs) else None)"

definition multiset_begin :: "int list \<Rightarrow> int option" where
  "multiset_begin xs = (case xs of [] \<Rightarrow> None | m # _ \<Rightarrow> Some m)"

text \<open>\<^verbatim>\<open>cdev_all_request_map_[cdev].insert(0)\<close>.\<close>

definition registry_insert0 :: "string \<Rightarrow> (string \<rightharpoonup> int list) \<Rightarrow> (string \<rightharpoonup> int list)" where
  "registry_insert0 cdev reg =
     reg(cdev \<mapsto> multiset_insert 0 (case reg cdev of None \<Rightarrow> [] | Some xs \<Rightarrow> xs))"

text \<open>
  \<open>getCdevMaxRequest\<close>: \<open>Some None\<close> is the return value \<^verbatim>\<open>false\<close>, \<open>Some (Some m)\<close>
  is \<^verbatim>\<open>true\<close> with \<open>m\<close> stored through \<open>max_state\<close>.
\<close>

definition getCdevMaxRequest :: "ThermalThrottling \<Rightarrow> string \<Rightarrow> int option option" where
  "getCdevMaxRequest tt cdev_name =
     (case cdev_all_request_map tt cdev_name of
        None \<Rightarrow> Some None
      | Some request_set \<Rightarrow> map_option Some (multiset_begin request_set))"

text \<open>\<open>updateCdevMaxRequestAndNotifyIfChange\<close>: the new registry and the returned flag.\<close>

definition updateCdevMaxRequestAndNotifyIfChange ::
  "(string \<rightharpoonup> int list) \<Rightarrow> string \<Rightarrow> int \<Rightarrow> int \<Rightarrow> ((string \<rightharpoonup> int list) \<times> bool) option" where
  "updateCdevMaxRequestAndNotifyIfChange reg cdev_name cur_request new_request =
     do {
       request_set \<leftarrow> reg cdev_name;
       cur_max_request \<leftarrow> multiset_begin request_set;
       erased \<leftarrow> multiset_erase_find cur_request request_set;
       let request_set' = multiset_insert new_request erased;
       new_max_request \<leftarrow> multiset_begin request_set';
       Some (reg(cdev_name \<mapsto> request_set'), new_max_request \<noteq> cur_max_request)
     }"

section \<open>The PID target state\<close>

text \<open>
  The loop of \<open>getTargetStateOfPID\<close> over the severities still to visit, with the
  current \<open>target_state\<close>: a NaN entry is skipped; any other state is recorded, and the
  loop ends after recording a state above \<open>curr_severity\<close>.
\<close>

fun target_loop :: "float list \<Rightarrow> ThrottlingSeverity \<Rightarrow> ThrottlingSeverity list \<Rightarrow> nat \<Rightarrow> nat" where
  "target_loop sp curr_severity [] target_state = target_state"
| "target_loop sp curr_severity (severity # rest) target_state =
     (let state = size_t severity in
      if isnan (sp ! state) then target_loop sp curr_severity rest target_state
      else if size_t severity > size_t curr_severity then state
      else target_loop sp curr_severity rest state)"

definition getTargetStateOfPID :: "SensorInfo \<Rightarrow> ThrottlingSeverity \<Rightarrow> nat option" where
  "getTargetStateOfPID sensor_info curr_severity =
     do {
       ti \<leftarrow> throttling_info sensor_info;
       Some (target_loop (s_power ti) curr_severity enum_range 0)
     }"


section \<open>The status store\<close>

text \<open>
  \<^verbatim>\<open>thermal_throttling_status_map_[name]\<close> reads the entry of \<open>name\<close> and makes a
  value-initialised one when there is none.
\<close>

definition status_of :: "ThermalThrottling \<Rightarrow> string \<Rightarrow> ThermalThrottlingStatus" where
  "status_of tt sensor_name =
     (case map_at (thermal_throttling_status_map tt) sensor_name of
        None \<Rightarrow> new_status | Some st \<Rightarrow> st)"

definition set_status :: "ThermalThrottling \<Rightarrow> string \<Rightarrow> ThermalThrottlingStatus \<Rightarrow> ThermalThrottling" where
  "set_status tt sensor_name st =
     tt\<lparr>thermal_throttling_status_map :=
          AList.update sensor_name st (thermal_throttling_status_map tt)\<rparr>"

definition active_bindings :: "ThrottlingInfo \<Rightarrow> string \<Rightarrow> (string \<times> BindedCdevInfo) list" where
  "active_bindings ti prof =
     (case map_at (profile_map ti) prof of
        Some bindings \<Rightarrow> bindings
      | None \<Rightarrow> binded_cdev_info_map ti)"

section \<open>parseProfileProperty, clearThrottlingData, registerThermalThrottling\<close>

text \<open>
  \<open>parseProfileProperty\<close>; \<open>prop\<close> is what \<^verbatim>\<open>GetProperty\<close> returns for the sensor's
  profile property.
\<close>

definition parseProfileProperty ::
  "ThermalThrottling \<Rightarrow> string \<Rightarrow> SensorInfo \<Rightarrow> string \<Rightarrow> ThermalThrottling" where
  "parseProfileProperty tt sensor_name sensor_info prop =
     (case throttling_info sensor_info of
        None \<Rightarrow> tt
      | Some ti \<Rightarrow>
          if prop = [] \<or> count_key (profile_map ti) prop
          then (if prop \<noteq> profile (status_of tt sensor_name)
                then set_status tt sensor_name ((status_of tt sensor_name)\<lparr>profile := prop\<rparr>)
                else set_status tt sensor_name (status_of tt sensor_name))
          else set_status tt sensor_name ((status_of tt sensor_name)\<lparr>profile := []\<rparr>))"

definition clearThrottlingData :: "ThermalThrottling \<Rightarrow> string \<Rightarrow> ThermalThrottling" where
  "clearThrottlingData tt sensor_name =
     (case map_at (thermal_throttling_status_map tt) sensor_name of
        None \<Rightarrow> tt
      | Some st \<Rightarrow>
          set_status tt sensor_name
            (st\<lparr>pid_power_budget_map := map (\<lambda>(cdev, _). (cdev, INT_MAX)) (pid_power_budget_map st),
                pid_cdev_request_map := map (\<lambda>(cdev, _). (cdev, 0)) (pid_cdev_request_map st),
                hardlimit_cdev_request_map :=
                  map (\<lambda>(cdev, _). (cdev, 0)) (hardlimit_cdev_request_map st),
                throttling_release_map := map (\<lambda>(cdev, _). (cdev, 0)) (throttling_release_map st),
                prev_err := NaN, i_budget := NaN, prev_target := size_t NONE,
                prev_power_budget := NaN, tran_cycle := 0\<rparr>))"

text \<open>
  The body of the registration loop for one bound CDEV, after the check that the CDEV is
  known. Each of the three inner loops of the source stops at the first entry that
  passes its test, so each runs its body once when some entry passes: \<open>list_ex\<close>.
\<close>

definition register_cdev ::
  "string \<Rightarrow> BindedCdevInfo \<Rightarrow> ThermalThrottlingStatus \<times> (string \<rightharpoonup> int list)
     \<Rightarrow> ThermalThrottlingStatus \<times> (string \<rightharpoonup> int list)" where
  "register_cdev cdev info s =
     (let (st, reg) = s;
          (st, reg) =
            (if list_ex (\<lambda>cdev_weight. \<not> isnan cdev_weight) (cdev_weight_for_pid info)
             then (st\<lparr>pid_power_budget_map := AList.update cdev INT_MAX (pid_power_budget_map st),
                      pid_cdev_request_map := AList.update cdev 0 (pid_cdev_request_map st),
                      cdev_status_map := AList.update cdev 0 (cdev_status_map st)\<rparr>,
                   registry_insert0 cdev reg)
             else (st, reg));
          (st, reg) =
            (if list_ex (\<lambda>limit. limit > 0) (limit_info info)
             then (st\<lparr>hardlimit_cdev_request_map :=
                        AList.update cdev 0 (hardlimit_cdev_request_map st),
                      cdev_status_map := AList.update cdev 0 (cdev_status_map st)\<rparr>,
                   registry_insert0 cdev reg)
             else (st, reg));
          st =
            (if power_rail info \<noteq> [] \<and>
                list_ex (\<lambda>power_threshold. \<not> isnan power_threshold) (power_thresholds info)
             then st\<lparr>throttling_release_map := AList.update cdev 0 (throttling_release_map st)\<rparr>
             else st)
      in (st, reg))"

fun register_loop ::
  "(string \<rightharpoonup> CdevInfo) \<Rightarrow> (string \<times> BindedCdevInfo) list
     \<Rightarrow> ThermalThrottlingStatus \<times> (string \<rightharpoonup> int list)
     \<Rightarrow> bool \<times> ThermalThrottlingStatus \<times> (string \<rightharpoonup> int list)" where
  "register_loop cooling_device_info_map [] s = (True, s)"
| "register_loop cooling_device_info_map ((cdev, info) # rest) s =
     (if cooling_device_info_map cdev = None then (False, s)
      else register_loop cooling_device_info_map rest (register_cdev cdev info s))"

definition registerThermalThrottling ::
  "ThermalThrottling \<Rightarrow> string \<Rightarrow> ThrottlingInfo option \<Rightarrow> (string \<rightharpoonup> CdevInfo)
     \<Rightarrow> bool \<times> ThermalThrottling" where
  "registerThermalThrottling tt sensor_name throttling_info_ptr cooling_device_info_map =
     (if count_key (thermal_throttling_status_map tt) sensor_name then (False, tt)
      else case throttling_info_ptr of
        None \<Rightarrow> (False, tt)
      | Some ti \<Rightarrow>
          (let st0 = new_status\<lparr>prev_err := NaN, i_budget := NaN, prev_target := size_t NONE,
                                prev_power_budget := NaN, tran_cycle := 0, profile := []\<rparr>;
               (ok, st, reg) =
                 register_loop cooling_device_info_map (binded_cdev_info_map ti)
                   (st0, cdev_all_request_map tt)
           in (ok, \<lparr>thermal_throttling_status_map =
                       AList.update sensor_name st (thermal_throttling_status_map tt),
                     cdev_all_request_map = reg\<rparr>)))"

section \<open>updatePowerBudget\<close>

text \<open>The first loop: the throttle status of the bound CDEVs,
  \<open>(is_fully_release, is_fully_throttle)\<close>.\<close>

fun throttle_status_loop ::
  "(string \<times> int) list \<Rightarrow> nat \<Rightarrow> (string \<times> BindedCdevInfo) list \<Rightarrow> bool \<times> bool
     \<Rightarrow> (bool \<times> bool) option" where
  "throttle_status_loop requests sev [] flags = Some flags"
| "throttle_status_loop requests sev ((cdev, info) # rest) flags =
     do {
       request \<leftarrow> map_at requests cdev;
       let (is_fully_release, is_fully_throttle) = flags;
       let is_fully_release = (if request > limit_info info ! sev then False else is_fully_release);
       let is_fully_throttle = (if request < cdev_ceiling info ! sev then False else is_fully_throttle);
       throttle_status_loop requests sev rest (is_fully_release, is_fully_throttle)
     }"

text \<open>
  The loop that computes \<open>default_i_budget\<close>. The source assigns the \<^verbatim>\<open>bool\<close> that
  \<open>getCdevMaxRequest\<close> returns to \<open>max_cdev_vote\<close>, after the call has stored the vote
  there: the index is 1 when the CDEV is in the registry and 0 when it is not.
\<close>

fun default_i_budget_loop ::
  "ThermalThrottling \<Rightarrow> (string \<rightharpoonup> CdevInfo) \<Rightarrow> (string \<times> BindedCdevInfo) list \<Rightarrow> float
     \<Rightarrow> float option" where
  "default_i_budget_loop tt cooling_device_info_map [] default_i_budget = Some default_i_budget"
| "default_i_budget_loop tt cooling_device_info_map ((cdev, info) # rest) default_i_budget =
     do {
       cdev_info \<leftarrow> cooling_device_info_map cdev;
       found \<leftarrow> getCdevMaxRequest tt cdev;
       let max_cdev_vote = (if found = None then 0 else 1);
       power \<leftarrow> vec_at (state2power cdev_info) max_cdev_vote;
       default_i_budget_loop tt cooling_device_info_map rest (fadd default_i_budget power)
     }"

text \<open>The initialisation of \<open>i_budget\<close> (the value it has after lines 233 to 248).\<close>

definition init_i_budget ::
  "ThermalThrottling \<Rightarrow> ThrottlingInfo \<Rightarrow> (string \<rightharpoonup> CdevInfo) \<Rightarrow> float \<Rightarrow> float option" where
  "init_i_budget tt ti cooling_device_info_map i_budget0 =
     (if isnan i_budget0 then
        (if isnan (i_default_pct ti) then Some (i_default ti)
         else do {
           default_i_budget \<leftarrow>
             default_i_budget_loop tt cooling_device_info_map (binded_cdev_info_map ti) (Fin 0);
           fdiv (fmul default_i_budget (i_default_pct ti)) (Fin 100)
         })
      else Some i_budget0)"

fun compensation_loop ::
  "float \<Rightarrow> float \<Rightarrow> float list \<Rightarrow> float list \<Rightarrow> int \<Rightarrow> float \<Rightarrow> float option" where
  "compensation_loop target multi weights [] i compensation = Some compensation"
| "compensation_loop target multi weights (prediction # rest) i compensation =
     do {
       weight \<leftarrow> vec_at weights i;
       let prediction_err = fsub target (fmul prediction multi);
       compensation_loop target multi weights rest (i + 1)
         (fadd compensation (fmul weight prediction_err))
     }"

text \<open>
  What \<open>updatePowerBudget\<close> hands back: the returned budget, the \<open>budget_transient\<close> it
  logs and traces (the amount the blending added, 0 on the two early returns), and the
  object after the call.
\<close>

record BudgetResult =
  power_budget :: float
  logged_transient :: float
  after :: ThermalThrottling

text \<open>
  Lines 220 to 297 for target state \<open>t\<close>, from the status after the target change was
  recorded: \<open>Inl\<close> is the early return under \<open>max_throttling\<close>, \<open>Inr\<close> the clamped
  budget with the status that holds the new \<open>prev_err\<close> and \<open>i_budget\<close>.
\<close>

definition pid_budget ::
  "ThermalThrottling \<Rightarrow> ThermalThrottlingStatus \<Rightarrow> Temperature \<Rightarrow> SensorInfo \<Rightarrow> ThrottlingInfo
     \<Rightarrow> (string \<rightharpoonup> CdevInfo) \<Rightarrow> int \<Rightarrow> bool \<Rightarrow> float list \<Rightarrow> bool \<Rightarrow> bool \<Rightarrow> nat
     \<Rightarrow> (float + float \<times> ThermalThrottlingStatus) option" where
  "pid_budget tt st temp sensor_info ti cooling_device_info_map time_elapsed_ms max_throttling
       sensor_predictions is_fully_release is_fully_throttle t =
     (let target = hot_thresholds sensor_info ! t;
          err = fsub target (temp_value temp)
      in if max_throttling \<and> fle err (Fin 0) then Some (Inl (min_alloc_power ti ! t))
         else do {
           let p = fmul err (if flt err (Fin 0) then k_po ti ! t else k_pu ti ! t);
           i0 \<leftarrow> init_i_budget tt ti cooling_device_info_map (i_budget st);
           let i1 =
             (if flt err (i_cutoff ti ! t) then
                (if flt err (Fin 0) \<and> fgt (prev_power_budget st) (min_alloc_power ti ! t) \<and>
                    \<not> is_fully_throttle
                 then fadd i0 (fmul err (k_io ti ! t))
                 else if fgt err (Fin 0) \<and> flt (prev_power_budget st) (max_alloc_power ti ! t) \<and>
                    \<not> is_fully_release
                 then fadd i0 (fmul err (k_iu ti ! t))
                 else i0)
              else i0);
           let i2 =
             (if fgt (fabsf i1) (i_max ti ! t)
              then fmul (i_max ti ! t) (if fgt i1 (Fin 0) then Fin 1 else Fin (- 1))
              else i1);
           d \<leftarrow>
             (if \<not> isnan (prev_err st) \<and> time_elapsed_ms \<noteq> 0
              then fdiv (fmul (k_d ti ! t) (fsub err (prev_err st))) (of_int_f time_elapsed_ms)
              else Some (Fin 0));
           compensation \<leftarrow>
             (case predictor_info sensor_info of
                None \<Rightarrow> Some (Fin 0)
              | Some pinfo \<Rightarrow>
                  if support_pid_compensation pinfo then do {
                    c \<leftarrow> compensation_loop target (multiplier sensor_info)
                           (prediction_weights pinfo) sensor_predictions 0 (Fin 0);
                    Some (fmul c (k_p_compensate pinfo ! t))
                  } else Some (Fin 0));
           let raw = fadd (fadd (fadd (fadd (s_power ti ! t) p) i2) d) compensation;
           Some (Inr (fclamp raw (min_alloc_power ti ! t) (max_alloc_power ti ! t),
                      st\<lparr>i_budget := i2, prev_err := err\<rparr>))
         })"

text \<open>
  Lines 299 to 309 and 340: the transient blending of the clamped budget
  \<open>clamped\<close>, giving the final budget, the amount added and the status.
\<close>

definition blend_transient ::
  "ThrottlingInfo \<Rightarrow> bool \<Rightarrow> float \<Rightarrow> ThermalThrottlingStatus
     \<Rightarrow> (float \<times> float \<times> ThermalThrottlingStatus) option" where
  "blend_transient ti target_changed clamped st =
     (let st = (if target_changed
                then st\<lparr>budget_transient := fsub (prev_power_budget st) clamped\<rparr> else st)
      in if tran_cycle st \<noteq> 0 then do {
           fraction \<leftarrow> fdiv (of_int_f (tran_cycle st)) (of_int_f (cfg_tran_cycle ti));
           let added = fmul (budget_transient st) fraction;
           let final = fadd clamped added;
           Some (final, added, st\<lparr>tran_cycle := tran_cycle st - 1, prev_power_budget := final\<rparr>)
         }
         else Some (clamped, Fin 0, st\<lparr>prev_power_budget := clamped\<rparr>))"

definition updatePowerBudget ::
  "ThermalThrottling \<Rightarrow> Temperature \<Rightarrow> SensorInfo \<Rightarrow> (string \<rightharpoonup> CdevInfo) \<Rightarrow> int
     \<Rightarrow> ThrottlingSeverity \<Rightarrow> bool \<Rightarrow> float list \<Rightarrow> BudgetResult option" where
  "updatePowerBudget tt temp sensor_info cooling_device_info_map time_elapsed_ms curr_severity
       max_throttling sensor_predictions =
     do {
       st \<leftarrow> map_at (thermal_throttling_status_map tt) (temp_name temp);
       if curr_severity = NONE
       then Some \<lparr>power_budget = FLT_MAX, logged_transient = Fin 0, after = tt\<rparr>
       else do {
         ti \<leftarrow> throttling_info sensor_info;
         (is_fully_release, is_fully_throttle) \<leftarrow>
           throttle_status_loop (pid_cdev_request_map st) (size_t curr_severity)
             (if profile_map ti = [] \<or> \<not> count_key (profile_map ti) (profile st)
              then binded_cdev_info_map ti else active_bindings ti (profile st))
             (True, True);
         target_state \<leftarrow> getTargetStateOfPID sensor_info curr_severity;
         let target_changed =
           (prev_target st \<noteq> size_t NONE \<and> target_state \<noteq> prev_target st \<and>
            cfg_tran_cycle ti > 0);
         let st = (if target_changed then st\<lparr>tran_cycle := cfg_tran_cycle ti - 1\<rparr> else st);
         let st = st\<lparr>prev_target := target_state\<rparr>;
         r \<leftarrow> pid_budget tt st temp sensor_info ti cooling_device_info_map time_elapsed_ms
                max_throttling sensor_predictions is_fully_release is_fully_throttle target_state;
         case r of
           Inl early \<Rightarrow>
             Some \<lparr>power_budget = early, logged_transient = Fin 0,
                   after = set_status tt (temp_name temp) st\<rparr>
         | Inr (clamped, st) \<Rightarrow> do {
             (final, added, st) \<leftarrow> blend_transient ti target_changed clamped st;
             Some \<lparr>power_budget = final, logged_transient = added,
                   after = set_status tt (temp_name temp) st\<rparr>
           }
       }
     }"

section \<open>allocatePowerToCdev\<close>

fun computeExcludedPower_loop ::
  "(string \<rightharpoonup> PowerStatus) \<Rightarrow> nat \<Rightarrow> (string \<times> float list) list \<Rightarrow> float \<Rightarrow> float option" where
  "computeExcludedPower_loop power_status_map sev [] excluded_power = Some excluded_power"
| "computeExcludedPower_loop power_status_map sev ((rail, weights) # rest) excluded_power =
     do {
       status \<leftarrow> power_status_map rail;
       let avg = last_updated_avg_power status;
       computeExcludedPower_loop power_status_map sev rest
         (if \<not> isnan avg then fadd excluded_power (fmul avg (weights ! sev)) else excluded_power)
     }"

definition computeExcludedPower ::
  "SensorInfo \<Rightarrow> ThrottlingSeverity \<Rightarrow> (string \<rightharpoonup> PowerStatus) \<Rightarrow> float option" where
  "computeExcludedPower sensor_info curr_severity power_status_map =
     do {
       ti \<leftarrow> throttling_info sensor_info;
       computeExcludedPower_loop power_status_map (size_t curr_severity)
         (excluded_power_info_map ti) (Fin 0)
     }"

text \<open>The loop that adds up the weights, \<open>(total_weight, allocated_cdev)\<close>.\<close>

fun total_weight_loop ::
  "nat \<Rightarrow> (string \<times> BindedCdevInfo) list \<Rightarrow> float \<times> string set \<Rightarrow> float \<times> string set" where
  "total_weight_loop sev [] acc = acc"
| "total_weight_loop sev ((cdev, info) # rest) (total_weight, allocated_cdev) =
     (let cdev_weight = cdev_weight_for_pid info ! sev in
      if \<not> enabled info then total_weight_loop sev rest (total_weight, allocated_cdev)
      else if isnan cdev_weight \<or> feq cdev_weight (Fin 0)
      then total_weight_loop sev rest (total_weight, insert cdev allocated_cdev)
      else total_weight_loop sev rest (fadd total_weight cdev_weight, allocated_cdev))"

text \<open>The two slew walks of the second pass: the final \<open>target_release_step\<close> and
  \<open>target_throttle_step\<close>.\<close>

function release_walk :: "float list \<Rightarrow> int \<Rightarrow> int \<Rightarrow> int \<Rightarrow> int option" where
  "release_walk s2p curr_cdev_vote limit step =
     (if curr_cdev_vote - step > limit then
        (case (vec_at s2p (curr_cdev_vote - step), vec_at s2p curr_cdev_vote) of
           (Some a, Some b) \<Rightarrow>
             if feq a b then release_walk s2p curr_cdev_vote limit (step + 1) else Some step
         | _ \<Rightarrow> None)
      else Some step)"
  by pat_completeness auto
termination
  by (relation "measure (\<lambda>(s2p, curr_cdev_vote, limit, step). nat (curr_cdev_vote - step - limit))")
    auto

function throttle_walk :: "float list \<Rightarrow> int \<Rightarrow> int \<Rightarrow> int \<Rightarrow> int option" where
  "throttle_walk s2p curr_cdev_vote ceil step =
     (if curr_cdev_vote + step < ceil then
        (case (vec_at s2p (curr_cdev_vote + step), vec_at s2p curr_cdev_vote) of
           (Some a, Some b) \<Rightarrow>
             if feq a b then throttle_walk s2p curr_cdev_vote ceil (step + 1) else Some step
         | _ \<Rightarrow> None)
      else Some step)"
  by pat_completeness auto
termination
  by (relation "measure (\<lambda>(s2p, curr_cdev_vote, ceil, step). nat (ceil - curr_cdev_vote - step))")
    auto

declare release_walk.simps [simp del] throttle_walk.simps [simp del]

text \<open>
  The variables the allocation loops share. \<open>budgets\<close> is the sensor's
  \<open>pid_power_budget_map\<close>, the only part of the status the loops write.
\<close>

record AllocVars =
  avg_power :: float
  allocated_power :: float
  allocated_weight :: float
  allocated_cdev :: "string set"
  power_data_invalid :: bool
  budgets :: "(string \<times> int) list"

text \<open>How one run of a loop body ends: at its end or by \<^verbatim>\<open>continue\<close>, by \<^verbatim>\<open>break\<close>, or by
  \<^verbatim>\<open>return false\<close>.\<close>

datatype 'a loop_exit = Continue 'a | Break 'a | ReturnFalse 'a

text \<open>Lines 438 to 461: reading the power data of one CDEV.\<close>

definition get_power_data ::
  "(string \<rightharpoonup> PowerStatus) \<Rightarrow> BindedCdevInfo \<Rightarrow> AllocVars \<Rightarrow> AllocVars loop_exit option" where
  "get_power_data power_status_map info v =
     (if \<not> power_data_invalid v then
        (if power_rail info \<noteq> [] then do {
           status \<leftarrow> power_status_map (power_rail info);
           let v = v\<lparr>avg_power := last_updated_avg_power status\<rparr>;
           if isnan (avg_power v) then Some (Break (v\<lparr>power_data_invalid := True\<rparr>))
           else if throttling_with_power_link info then Some (ReturnFalse v)
           else Some (Continue v)
         }
         else Some (Break (v\<lparr>power_data_invalid := True\<rparr>)))
      else Some (Continue v))"

text \<open>Lines 466 to 481: the body of the first pass (\<open>low_power_device_check\<close>).\<close>

definition low_power_pass ::
  "(string \<times> int) list \<Rightarrow> string \<Rightarrow> float \<Rightarrow> float \<Rightarrow> AllocVars \<Rightarrow> AllocVars option" where
  "low_power_pass requests cdev cdev_weight cdev_power_adjustment v =
     (if fgt cdev_power_adjustment (Fin 0) then do {
        request \<leftarrow> map_at requests cdev;
        Some (if request = 0
              then v\<lparr>allocated_power := fadd (allocated_power v) (avg_power v),
                      allocated_weight := fadd (allocated_weight v) cdev_weight,
                      allocated_cdev := insert cdev (allocated_cdev v)\<rparr>
              else v)
      }
      else Some v)"

text \<open>Lines 532 to 577: the slew limits on the budget of one CDEV.\<close>

definition slew_limits ::
  "BindedCdevInfo \<Rightarrow> CdevInfo \<Rightarrow> nat \<Rightarrow> bool \<Rightarrow> float \<Rightarrow> int \<Rightarrow> int \<Rightarrow> float \<Rightarrow> float option" where
  "slew_limits info cdev_info sev invalid cdev_power_adjustment curr_cdev_vote max_cdev_vote
       cdev_power_budget =
     do {
       released \<leftarrow>
         (if max_release_step info \<noteq> INT_MAX \<and> (invalid \<or> fgt cdev_power_adjustment (Fin 0))
          then
            (if \<not> invalid \<and> curr_cdev_vote < max_cdev_vote
             then vec_at (state2power cdev_info) curr_cdev_vote
             else do {
               target_release_step \<leftarrow>
                 release_walk (state2power cdev_info) curr_cdev_vote (limit_info info ! sev)
                   (max_release_step info);
               let target_state = max (curr_cdev_vote - target_release_step) 0;
               power \<leftarrow> vec_at (state2power cdev_info) target_state;
               Some (fmin cdev_power_budget power)
             })
          else Some cdev_power_budget);
       (if max_throttle_step info \<noteq> INT_MAX \<and> (invalid \<or> flt cdev_power_adjustment (Fin 0))
        then do {
          target_throttle_step \<leftarrow>
            throttle_walk (state2power cdev_info) curr_cdev_vote (cdev_ceiling info ! sev)
              (max_throttle_step info);
          let target_state = min (curr_cdev_vote + target_throttle_step) (cdev_ceiling info ! sev);
          power \<leftarrow> vec_at (state2power cdev_info) target_state;
          Some (fmax released power)
        }
        else Some released)
     }"

text \<open>
  Lines 483 to 585: the body of the second pass. The budget read from
  \<open>pid_power_budget_map\<close> is an \<^verbatim>\<open>int\<close>, so the two compound assignments of lines
  506 and 510 compute in \<^verbatim>\<open>float\<close> and truncate, as does the final store.
\<close>

definition allocation_pass ::
  "ThermalThrottling \<Rightarrow> (string \<times> int) list \<Rightarrow> (string \<rightharpoonup> CdevInfo) \<Rightarrow> nat \<Rightarrow> bool
     \<Rightarrow> float \<Rightarrow> float \<Rightarrow> string \<Rightarrow> BindedCdevInfo \<Rightarrow> float \<Rightarrow> float \<Rightarrow> AllocVars
     \<Rightarrow> AllocVars loop_exit option" where
  "allocation_pass tt requests cooling_device_info_map sev max_throttling total_power_budget
       total_weight cdev info cdev_weight cdev_power_adjustment v =
     do {
       cdev_info \<leftarrow> cooling_device_info_map cdev;
       at_max \<leftarrow>
         (if flt cdev_power_adjustment (Fin 0)
          then map_option (\<lambda>request. request = max_state cdev_info) (map_at requests cdev)
          else Some False);
       if at_max then Some (Continue v)
       else do {
         cdev_power_budget \<leftarrow>
           (if \<not> enabled info then vec_at (state2power cdev_info) 0
            else if \<not> power_data_invalid v \<and> power_rail info \<noteq> [] then do {
              cdev_curr_power_budget \<leftarrow> map_at (budgets v) cdev;
              updated \<leftarrow>
                (if fgt (avg_power v) (of_int_f cdev_curr_power_budget) then do {
                   share \<leftarrow> fdiv (of_int_f cdev_curr_power_budget) (avg_power v);
                   to_int (fadd (of_int_f cdev_curr_power_budget)
                                (fmul cdev_power_adjustment share))
                 }
                 else to_int (fadd (of_int_f cdev_curr_power_budget) cdev_power_adjustment));
              Some (of_int_f updated)
            }
            else do {
              share \<leftarrow> fdiv cdev_weight total_weight;
              Some (fmul total_power_budget share)
            });
         power0 \<leftarrow> vec_at (state2power cdev_info) 0;
         let cdev_power_budget =
           (if \<not> isnan power0 \<and> fgt cdev_power_budget power0 then power0
            else if flt cdev_power_budget (Fin 0) then Fin 0
            else cdev_power_budget);
         found \<leftarrow> getCdevMaxRequest tt cdev;
         case found of
           None \<Rightarrow> Some (ReturnFalse v)
         | Some max_cdev_vote \<Rightarrow> do {
             curr_cdev_vote \<leftarrow> map_at requests cdev;
             cdev_power_budget \<leftarrow>
               (if \<not> max_throttling
                then slew_limits info cdev_info sev (power_data_invalid v) cdev_power_adjustment
                       curr_cdev_vote max_cdev_vote cdev_power_budget
                else Some cdev_power_budget);
             _ \<leftarrow> map_at (budgets v) cdev;
             stored \<leftarrow> to_int cdev_power_budget;
             Some (Continue (v\<lparr>budgets := AList.update cdev stored (budgets v)\<rparr>))
           }
       }
     }"

text \<open>One run of the body of the inner \<^verbatim>\<open>for\<close> loop (lines 429 to 586).\<close>

definition allocate_body ::
  "ThermalThrottling \<Rightarrow> (string \<times> int) list \<Rightarrow> (string \<rightharpoonup> PowerStatus)
     \<Rightarrow> (string \<rightharpoonup> CdevInfo) \<Rightarrow> nat \<Rightarrow> bool \<Rightarrow> bool \<Rightarrow> float \<Rightarrow> float
     \<Rightarrow> string \<times> BindedCdevInfo \<Rightarrow> AllocVars \<Rightarrow> AllocVars loop_exit option" where
  "allocate_body tt requests power_status_map cooling_device_info_map sev max_throttling
       low_power_device_check total_power_budget total_weight binding v =
     (let (cdev, info) = binding;
          cdev_weight = cdev_weight_for_pid info ! sev
      in if cdev \<in> allocated_cdev v then Some (Continue v)
         else do {
           got \<leftarrow> get_power_data power_status_map info v;
           case got of
             Break v \<Rightarrow> Some (Break v)
           | ReturnFalse v \<Rightarrow> Some (ReturnFalse v)
           | Continue v \<Rightarrow> do {
               share \<leftarrow> fdiv cdev_weight total_weight;
               let cdev_power_budget = fmul total_power_budget share;
               let cdev_power_adjustment = fsub cdev_power_budget (avg_power v);
               if low_power_device_check
               then map_option Continue
                      (low_power_pass requests cdev cdev_weight cdev_power_adjustment v)
               else allocation_pass tt requests cooling_device_info_map sev max_throttling
                      total_power_budget total_weight cdev info cdev_weight
                      cdev_power_adjustment v
             }
         })"

text \<open>The inner \<^verbatim>\<open>for\<close> loop; the flag is false when the loop left the function by
  \<^verbatim>\<open>return false\<close>.\<close>

fun allocate_for ::
  "(string \<times> BindedCdevInfo \<Rightarrow> AllocVars \<Rightarrow> AllocVars loop_exit option)
     \<Rightarrow> (string \<times> BindedCdevInfo) list \<Rightarrow> AllocVars \<Rightarrow> (bool \<times> AllocVars) option" where
  "allocate_for body [] v = Some (True, v)"
| "allocate_for body (binding # rest) v =
     do {
       r \<leftarrow> body binding v;
       case r of
         Continue v \<Rightarrow> allocate_for body rest v
       | Break v \<Rightarrow> Some (True, v)
       | ReturnFalse v \<Rightarrow> Some (False, v)
     }"

text \<open>Lines 589 to 594, at the end of each pass: the new \<open>total_power_budget\<close>,
  \<open>total_weight\<close> and variables.\<close>

definition end_of_pass :: "float \<Rightarrow> float \<Rightarrow> AllocVars \<Rightarrow> float \<times> float \<times> AllocVars" where
  "end_of_pass total_power_budget total_weight v =
     ((if \<not> power_data_invalid v
       then fsub total_power_budget (allocated_power v) else total_power_budget),
      (if \<not> power_data_invalid v
       then fsub total_weight (allocated_weight v) else total_weight),
      v\<lparr>allocated_power := Fin 0, allocated_weight := Fin 0\<rparr>)"

text \<open>
  The \<^verbatim>\<open>while\<close> loop of lines 424 to 601 runs its body twice, first with
  \<open>low_power_device_check\<close> set and then without. The result is the flag
  \<open>allocatePowerToCdev\<close> returns and the budgets.
\<close>

definition allocate_while ::
  "ThermalThrottling \<Rightarrow> (string \<times> int) list \<Rightarrow> (string \<rightharpoonup> PowerStatus)
     \<Rightarrow> (string \<rightharpoonup> CdevInfo) \<Rightarrow> nat \<Rightarrow> bool \<Rightarrow> (string \<times> BindedCdevInfo) list
     \<Rightarrow> float \<Rightarrow> float \<Rightarrow> AllocVars \<Rightarrow> (bool \<times> (string \<times> int) list) option" where
  "allocate_while tt requests power_status_map cooling_device_info_map sev max_throttling
       bindings total_power_budget total_weight v =
     do {
       (completed, v) \<leftarrow>
         allocate_for
           (allocate_body tt requests power_status_map cooling_device_info_map sev
              max_throttling True total_power_budget total_weight)
           bindings v;
       if \<not> completed then Some (False, budgets v)
       else do {
         let (total_power_budget, total_weight, v) = end_of_pass total_power_budget total_weight v;
         (completed, v) \<leftarrow>
           allocate_for
             (allocate_body tt requests power_status_map cooling_device_info_map sev
                max_throttling False total_power_budget total_weight)
             bindings v;
         Some (completed, budgets v)
       }
     }"

definition allocatePowerToCdev ::
  "ThermalThrottling \<Rightarrow> Temperature \<Rightarrow> SensorInfo \<Rightarrow> ThrottlingSeverity \<Rightarrow> int
     \<Rightarrow> (string \<rightharpoonup> PowerStatus) \<Rightarrow> (string \<rightharpoonup> CdevInfo) \<Rightarrow> bool \<Rightarrow> float list
     \<Rightarrow> (bool \<times> ThermalThrottling) option" where
  "allocatePowerToCdev tt temp sensor_info curr_severity time_elapsed_ms power_status_map
       cooling_device_info_map max_throttling sensor_predictions =
     do {
       budget \<leftarrow> updatePowerBudget tt temp sensor_info cooling_device_info_map time_elapsed_ms
                   curr_severity max_throttling sensor_predictions;
       let tt = after budget;
       let st = status_of tt (temp_name temp);
       ti \<leftarrow> throttling_info sensor_info;
       total_power_budget \<leftarrow>
         (if excluded_power_info_map ti \<noteq> [] then do {
            excluded \<leftarrow> computeExcludedPower sensor_info curr_severity power_status_map;
            Some (fmax (fsub (power_budget budget) excluded) (Fin 0))
          }
          else Some (power_budget budget));
       let bindings = active_bindings ti (profile st);
       let (total_weight, allocated) =
         total_weight_loop (size_t curr_severity) bindings (Fin 0, {});
       (ok, budgets') \<leftarrow>
         allocate_while tt (pid_cdev_request_map st) power_status_map cooling_device_info_map
           (size_t curr_severity) max_throttling bindings total_power_budget total_weight
           \<lparr>avg_power = NaN, allocated_power = Fin 0, allocated_weight = Fin 0,
            allocated_cdev = allocated, power_data_invalid = False,
            budgets = pid_power_budget_map st\<rparr>;
       Some (ok, set_status tt (temp_name temp) (st\<lparr>pid_power_budget_map := budgets'\<rparr>))
     }"

section \<open>The requests of one tick\<close>

text \<open>
  The inner loop of \<open>updateCdevRequestByPower\<close>, over the states still to try: the
  index, counted from the first of them, at which the loop stops (the last state when no
  state's power is at or below the budget).
\<close>

fun power_to_state :: "int \<Rightarrow> float list \<Rightarrow> nat" where
  "power_to_state budget [] = 0"
| "power_to_state budget [pw] = 0"
| "power_to_state budget (pw # rest) =
     (if fge (of_int_f budget) pw then 0 else Suc (power_to_state budget rest))"

fun request_by_power_loop ::
  "(string \<rightharpoonup> CdevInfo) \<Rightarrow> (string \<times> int) list \<Rightarrow> (string \<times> int) list
     \<Rightarrow> (string \<times> int) list option" where
  "request_by_power_loop cooling_device_info_map [] requests = Some requests"
| "request_by_power_loop cooling_device_info_map ((cdev, budget) # rest) requests =
     do {
       cdev_info \<leftarrow> cooling_device_info_map cdev;
       if state2power cdev_info = [] then None
       else do {
         _ \<leftarrow> map_at requests cdev;
         request_by_power_loop cooling_device_info_map rest
           (AList.update cdev (int (power_to_state budget (state2power cdev_info))) requests)
       }
     }"

definition updateCdevRequestByPower ::
  "ThermalThrottling \<Rightarrow> string \<Rightarrow> (string \<rightharpoonup> CdevInfo) \<Rightarrow> ThermalThrottling option" where
  "updateCdevRequestByPower tt sensor_name cooling_device_info_map =
     do {
       let st = status_of tt sensor_name;
       requests \<leftarrow> request_by_power_loop cooling_device_info_map (pid_power_budget_map st)
                     (pid_cdev_request_map st);
       Some (set_status tt sensor_name (st\<lparr>pid_cdev_request_map := requests\<rparr>))
     }"

fun request_by_severity_loop ::
  "nat \<Rightarrow> (string \<times> BindedCdevInfo) list \<Rightarrow> (string \<times> int) list \<Rightarrow> (string \<times> int) list" where
  "request_by_severity_loop sev [] hardlimits = hardlimits"
| "request_by_severity_loop sev ((cdev, info) # rest) hardlimits =
     (if \<not> count_key hardlimits cdev then request_by_severity_loop sev rest hardlimits
      else request_by_severity_loop sev rest
             (AList.update cdev (if enabled info then limit_info info ! sev else 0) hardlimits))"

definition updateCdevRequestBySeverity ::
  "ThermalThrottling \<Rightarrow> string \<Rightarrow> SensorInfo \<Rightarrow> ThrottlingSeverity \<Rightarrow> ThermalThrottling option" where
  "updateCdevRequestBySeverity tt sensor_name sensor_info curr_severity =
     do {
       let st = status_of tt sensor_name;
       ti \<leftarrow> throttling_info sensor_info;
       Some (set_status tt sensor_name
               (st\<lparr>hardlimit_cdev_request_map :=
                     request_by_severity_loop (size_t curr_severity)
                       (active_bindings ti (profile st)) (hardlimit_cdev_request_map st)\<rparr>))
     }"

section \<open>throttlingReleaseUpdate\<close>

text \<open>The \<^verbatim>\<open>switch\<close> on the release logic: the new \<open>release_step\<close>.\<close>

definition release_step_update :: "ReleaseLogic \<Rightarrow> bool \<Rightarrow> int \<Rightarrow> int \<Rightarrow> int" where
  "release_step_update logic is_over_budget max_st release_step =
     (case logic of
        INCREASE \<Rightarrow>
          (if \<not> is_over_budget
           then (if \<bar>release_step\<bar> < max_st then release_step - 1 else release_step)
           else 0)
      | DECREASE \<Rightarrow>
          (if \<not> is_over_budget
           then (if release_step < max_st then release_step + 1 else release_step)
           else 0)
      | STEPWISE \<Rightarrow>
          (if \<not> is_over_budget
           then (if release_step < max_st then release_step + 1 else release_step)
           else (if \<bar>release_step\<bar> < max_st then release_step - 1 else release_step))
      | RELEASE_TO_FLOOR \<Rightarrow> (if is_over_budget then 0 else max_st)
      | RL_NONE \<Rightarrow> release_step)"

text \<open>The loop over the bound CDEVs: the returned flag and the sensor's
  \<open>throttling_release_map\<close>.\<close>

fun release_loop ::
  "(string \<rightharpoonup> CdevInfo) \<Rightarrow> (string \<rightharpoonup> PowerStatus) \<Rightarrow> nat \<Rightarrow> (string \<times> BindedCdevInfo) list
     \<Rightarrow> (string \<times> int) list \<Rightarrow> (bool \<times> (string \<times> int) list) option" where
  "release_loop cooling_device_info_map power_status_map sev [] releases = Some (True, releases)"
| "release_loop cooling_device_info_map power_status_map sev ((cdev, info) # rest) releases =
     (if \<not> count_key releases cdev \<or> power_status_map (power_rail info) = None
      then Some (False, releases)
      else do {
        cdev_info \<leftarrow> cooling_device_info_map cdev;
        release_step \<leftarrow> map_at releases cdev;
        status \<leftarrow> power_status_map (power_rail info);
        let avg = last_updated_avg_power status;
        if isnan avg \<or> flt avg (Fin 0)
        then release_loop cooling_device_info_map power_status_map sev rest
               (AList.update cdev
                  (if throttling_with_power_link info then max_state cdev_info else 0) releases)
        else do {
          let is_over_budget =
            (if \<not> high_power_check info
             then \<not> flt avg (power_thresholds info ! sev)
             else \<not> fgt avg (power_thresholds info ! sev));
          release_loop cooling_device_info_map power_status_map sev rest
            (AList.update cdev
               (release_step_update (release_logic info) is_over_budget (max_state cdev_info)
                  release_step)
               releases)
        }
      })"

definition throttlingReleaseUpdate ::
  "ThermalThrottling \<Rightarrow> string \<Rightarrow> (string \<rightharpoonup> CdevInfo) \<Rightarrow> (string \<rightharpoonup> PowerStatus)
     \<Rightarrow> ThrottlingSeverity \<Rightarrow> SensorInfo \<Rightarrow> (bool \<times> ThermalThrottling) option" where
  "throttlingReleaseUpdate tt sensor_name cooling_device_info_map power_status_map severity
       sensor_info =
     (case map_at (thermal_throttling_status_map tt) sensor_name of
        None \<Rightarrow> Some (False, tt)
      | Some st \<Rightarrow> do {
          ti \<leftarrow> throttling_info sensor_info;
          (ok, releases) \<leftarrow>
            release_loop cooling_device_info_map power_status_map (size_t severity)
              (binded_cdev_info_map ti) (throttling_release_map st);
          Some (ok, set_status tt sensor_name (st\<lparr>throttling_release_map := releases\<rparr>))
        })"

section \<open>thermalThrottlingUpdate\<close>

text \<open>The control tick. \<open>prop\<close> is the value of the sensor's profile property at the tick.\<close>

definition thermalThrottlingUpdate ::
  "ThermalThrottling \<Rightarrow> string \<Rightarrow> Temperature \<Rightarrow> SensorInfo \<Rightarrow> ThrottlingSeverity \<Rightarrow> int
     \<Rightarrow> (string \<rightharpoonup> PowerStatus) \<Rightarrow> (string \<rightharpoonup> CdevInfo) \<Rightarrow> bool \<Rightarrow> float list
     \<Rightarrow> ThermalThrottling option" where
  "thermalThrottlingUpdate tt prop temp sensor_info curr_severity time_elapsed_ms power_status_map
       cooling_device_info_map max_throttling sensor_predictions =
     (if \<not> count_key (thermal_throttling_status_map tt) (temp_name temp) then Some tt
      else do {
        ti \<leftarrow> throttling_info sensor_info;
        let tt = (if profile_map ti \<noteq> []
                  then parseProfileProperty tt (temp_name temp) sensor_info prop else tt);
        tt \<leftarrow>
          (if pid_power_budget_map (status_of tt (temp_name temp)) \<noteq> [] then do {
             (ok, tt) \<leftarrow> allocatePowerToCdev tt temp sensor_info curr_severity time_elapsed_ms
                           power_status_map cooling_device_info_map max_throttling
                           sensor_predictions;
             let tt =
               (if \<not> ok
                then set_status tt (temp_name temp)
                       ((status_of tt (temp_name temp))
                          \<lparr>pid_cdev_request_map :=
                             map (\<lambda>(cdev, _). (cdev, 0))
                               (pid_cdev_request_map (status_of tt (temp_name temp)))\<rparr>)
                else tt);
             updateCdevRequestByPower tt (temp_name temp) cooling_device_info_map
           }
           else Some tt);
        tt \<leftarrow>
          (if hardlimit_cdev_request_map (status_of tt (temp_name temp)) \<noteq> []
           then updateCdevRequestBySeverity tt (temp_name temp) sensor_info curr_severity
           else Some tt);
        (if throttling_release_map (status_of tt (temp_name temp)) \<noteq> []
         then map_option snd
                (throttlingReleaseUpdate tt (temp_name temp) cooling_device_info_map
                   power_status_map curr_severity sensor_info)
         else Some tt)
      })"

section \<open>computeCoolingDevicesRequest\<close>

text \<open>Lines 850 to 860: the final request of one CDEV.\<close>

definition final_request :: "int \<Rightarrow> int \<Rightarrow> int \<Rightarrow> int \<Rightarrow> int \<Rightarrow> int" where
  "final_request pid_cdev_request hardlimit_cdev_request release_step cdev_floor ceil =
     (let request_state = max pid_cdev_request hardlimit_cdev_request;
          request_state =
            (if release_step \<noteq> 0
             then max (if release_step \<ge> request_state then 0 else request_state - release_step)
                      cdev_floor
             else request_state)
      in min request_state ceil)"

text \<open>
  The loop over the sensor's \<open>cdev_status_map\<close>, which it updates in place: the entries
  already visited (in reverse), those still to visit, the registry and the names
  collected in \<open>cooling_devices_to_update\<close>.
\<close>

fun compute_loop ::
  "ThermalThrottlingStatus \<Rightarrow> (string \<times> BindedCdevInfo) list \<Rightarrow> nat \<Rightarrow> (string \<times> int) list
     \<Rightarrow> (string \<times> int) list \<times> (string \<rightharpoonup> int list) \<times> string list
     \<Rightarrow> ((string \<times> int) list \<times> (string \<rightharpoonup> int list) \<times> string list) option" where
  "compute_loop st bindings sev [] acc = Some acc"
| "compute_loop st bindings sev ((cdev_name, cur_request) # rest) (done, reg, to_update) =
     do {
       binded_cdev_info \<leftarrow> map_at bindings cdev_name;
       let ceil = cdev_ceiling binded_cdev_info ! sev;
       let cdev_floor = cdev_floor_with_power_link binded_cdev_info ! sev;
       let pid_cdev_request =
         (case map_at (pid_cdev_request_map st) cdev_name of None \<Rightarrow> 0 | Some r \<Rightarrow> r);
       let hardlimit_cdev_request =
         (case map_at (hardlimit_cdev_request_map st) cdev_name of None \<Rightarrow> 0 | Some r \<Rightarrow> r);
       let release_step =
         (case map_at (throttling_release_map st) cdev_name of None \<Rightarrow> 0 | Some r \<Rightarrow> r);
       let request_state =
         final_request pid_cdev_request hardlimit_cdev_request release_step cdev_floor ceil;
       if cur_request \<noteq> request_state then do {
         (reg, changed) \<leftarrow>
           updateCdevMaxRequestAndNotifyIfChange reg cdev_name cur_request request_state;
         compute_loop st bindings sev rest
           ((cdev_name, request_state) # done, reg,
            if changed then to_update @ [cdev_name] else to_update)
       }
       else compute_loop st bindings sev rest ((cdev_name, cur_request) # done, reg, to_update)
     }"

definition computeCoolingDevicesRequest ::
  "ThermalThrottling \<Rightarrow> string \<Rightarrow> SensorInfo \<Rightarrow> ThrottlingSeverity \<Rightarrow> string list
     \<Rightarrow> (ThermalThrottling \<times> string list) option" where
  "computeCoolingDevicesRequest tt sensor_name sensor_info curr_severity
       cooling_devices_to_update =
     (case map_at (thermal_throttling_status_map tt) sensor_name of
        None \<Rightarrow> Some (tt, cooling_devices_to_update)
      | Some st \<Rightarrow> do {
          ti \<leftarrow> throttling_info sensor_info;
          (done, reg, to_update) \<leftarrow>
            compute_loop st (active_bindings ti (profile st)) (size_t curr_severity)
              (cdev_status_map st) ([], cdev_all_request_map tt, cooling_devices_to_update);
          Some (\<lparr>thermal_throttling_status_map =
                    AList.update sensor_name (st\<lparr>cdev_status_map := rev done\<rparr>)
                      (thermal_throttling_status_map tt),
                  cdev_all_request_map = reg\<rparr>,
                to_update)
        })"

section \<open>Example configurations\<close>

definition seven :: "'a \<Rightarrow> 'a list" where
  "seven x = [x, x, x, x, x, x, x]"

definition ex_binding :: BindedCdevInfo where
  "ex_binding =
     \<lparr>limit_info = seven 0, power_thresholds = seven NaN, release_logic = RL_NONE,
      cdev_weight_for_pid = seven NaN, cdev_ceiling = seven 10,
      cdev_floor_with_power_link = seven 0, power_rail = [], high_power_check = False,
      throttling_with_power_link = False, max_release_step = INT_MAX,
      max_throttle_step = INT_MAX, enabled = True\<rparr>"

definition ex_info :: ThrottlingInfo where
  "ex_info =
     \<lparr>k_po = seven (Fin 0), k_pu = seven (Fin 0), k_io = seven (Fin 0), k_iu = seven (Fin 0),
      k_d = seven (Fin 0), i_max = seven (Fin 1000), max_alloc_power = seven (Fin 4000),
      min_alloc_power = seven (Fin 0), s_power = seven (Fin 1000), i_cutoff = seven (Fin 0),
      i_default = Fin 0, i_default_pct = NaN, cfg_tran_cycle = 0,
      excluded_power_info_map = [], binded_cdev_info_map = [],
      profile_map = []\<rparr>"

definition ex_sensor :: "ThrottlingInfo \<Rightarrow> SensorInfo" where
  "ex_sensor ti =
     \<lparr>hot_thresholds = [NaN, Fin 40, Fin 45, Fin 50, Fin 55, Fin 60, Fin 65],
      multiplier = Fin 1, predictor_info = None, throttling_info = Some ti\<rparr>"

definition pid_binding :: BindedCdevInfo where
  "pid_binding = ex_binding\<lparr>cdev_weight_for_pid := seven (Fin 1)\<rparr>"

definition limit_binding :: BindedCdevInfo where
  "limit_binding = ex_binding\<lparr>limit_info := [0, 1, 2, 3, 4, 5, 6]\<rparr>"

definition release_binding :: BindedCdevInfo where
  "release_binding = ex_binding\<lparr>power_rail := ''rail'', power_thresholds := seven (Fin 100)\<rparr>"

definition ex_cdev :: CdevInfo where
  "ex_cdev = \<lparr>state2power = [Fin 2000, Fin 1500, Fin 1000, Fin 500, Fin 0], max_state = 4\<rparr>"

definition ex_cdevs :: "string \<rightharpoonup> CdevInfo" where
  "ex_cdevs = [''cpu'' \<mapsto> ex_cdev]"

text \<open>A sensor whose one bound CDEV has a power rail and power thresholds, and neither a
  PID weight nor a hard limit; and one whose CDEV has a PID weight.\<close>

definition registered_release_only :: "bool \<times> ThermalThrottling" where
  "registered_release_only =
     registerThermalThrottling initial ''skin''
       (Some (ex_info\<lparr>binded_cdev_info_map := [(''cpu'', release_binding)]\<rparr>)) ex_cdevs"

definition registered_pid :: "bool \<times> ThermalThrottling" where
  "registered_pid =
     registerThermalThrottling initial ''skin''
       (Some (ex_info\<lparr>binded_cdev_info_map := [(''cpu'', pid_binding)]\<rparr>)) ex_cdevs"

text \<open>A sensor whose CDEV has a hard limit at every severity but NONE; the same binding
  with a second CDEV that the cooling-device map does not know.\<close>

definition limit_sensor :: SensorInfo where
  "limit_sensor = ex_sensor (ex_info\<lparr>binded_cdev_info_map := [(''cpu'', limit_binding)]\<rparr>)"

definition skin_temp :: Temperature where
  "skin_temp = \<lparr>temp_name = ''skin'', temp_value = Fin 52\<rparr>"

definition registered_limit :: "bool \<times> ThermalThrottling" where
  "registered_limit =
     registerThermalThrottling initial ''skin'' (throttling_info limit_sensor) ex_cdevs"

definition unknown_info :: ThrottlingInfo where
  "unknown_info = ex_info\<lparr>binded_cdev_info_map := [(''cpu'', limit_binding), (''gpu'', limit_binding)]\<rparr>"

definition registered_unknown :: "bool \<times> ThermalThrottling" where
  "registered_unknown =
     registerThermalThrottling initial ''skin''
       (Some unknown_info) ex_cdevs"

definition limit_status :: "int \<Rightarrow> int \<Rightarrow> ThermalThrottlingStatus" where
  "limit_status hard voted =
     \<lparr>pid_power_budget_map = [], pid_cdev_request_map = [],
      hardlimit_cdev_request_map = [(''cpu'', hard)],
      throttling_release_map = [], cdev_status_map = [(''cpu'', voted)], prev_err = NaN, i_budget = NaN,
      prev_target = 0, prev_power_budget = NaN, budget_transient = Fin 0, tran_cycle = 0,
      profile = []\<rparr>"

text \<open>The state after the sensor with the hard limit has been registered, ticked at SEVERE
  and combined: its vote for \<open>cpu\<close> is 3.\<close>

definition limit_voted :: ThermalThrottling where
  "limit_voted = \<lparr>thermal_throttling_status_map = [(''skin'', limit_status 3 3)],
                   cdev_all_request_map = [''cpu'' \<mapsto> [3]]\<rparr>"




definition two_cdevs :: "string \<rightharpoonup> CdevInfo" where
  "two_cdevs = [''cpu'' \<mapsto> ex_cdev, ''gpu'' \<mapsto> ex_cdev]"




text \<open>
  A sensor with a PID binding to \<open>cpu\<close>, a transient of four cycles and a maximum of 500 at
  CRITICAL, the PID target state at SEVERE. \<open>pid_status\<close> is its status with the given PID
  memory (\<open>prev_err\<close>, \<open>i_budget\<close>, \<open>prev_target\<close>, \<open>prev_power_budget\<close>,
  \<open>budget_transient\<close>, \<open>tran_cycle\<close>), all else as registered.
\<close>

definition tran_info :: ThrottlingInfo where
  "tran_info =
     ex_info\<lparr>binded_cdev_info_map := [(''cpu'', pid_binding)], cfg_tran_cycle := 4,
       max_alloc_power := [Fin 4000, Fin 4000, Fin 4000, Fin 4000, Fin 500, Fin 4000, Fin 4000]\<rparr>"

definition pid_status ::
  "float \<Rightarrow> float \<Rightarrow> nat \<Rightarrow> float \<Rightarrow> float \<Rightarrow> int \<Rightarrow> ThermalThrottlingStatus" where
  "pid_status e i t b bt n =
     \<lparr>pid_power_budget_map = [(''cpu'', INT_MAX)], pid_cdev_request_map = [(''cpu'', 0)],
      hardlimit_cdev_request_map = [], throttling_release_map = [],
      cdev_status_map = [(''cpu'', 0)], prev_err = e, i_budget = i, prev_target = t,
      prev_power_budget = b, budget_transient = bt, tran_cycle = n, profile = []\<rparr>"

definition pid_state :: "ThermalThrottlingStatus \<Rightarrow> ThermalThrottling" where
  "pid_state st = \<lparr>thermal_throttling_status_map = [(''skin'', st)],
                    cdev_all_request_map = [''cpu'' \<mapsto> [0]]\<rparr>"

text \<open>A temperature of \<open>skin\<close> above its threshold at CRITICAL.\<close>

definition hot_temp :: Temperature where
  "hot_temp = \<lparr>temp_name = ''skin'', temp_value = Fin 60\<rparr>"

text \<open>
  A second sensor, \<open>soc\<close>, with a PID binding to \<open>cpu\<close> and \<open>i_default_pct\<close> set,
  registered after the first sensor has voted 3 for \<open>cpu\<close>.
\<close>

definition pct_info :: ThrottlingInfo where
  "pct_info =
     ex_info\<lparr>binded_cdev_info_map := [(''cpu'', pid_binding)], i_default_pct := Fin 100,
       i_max := seven (Fin 10000)\<rparr>"

definition soc_temp :: Temperature where
  "soc_temp = \<lparr>temp_name = ''soc'', temp_value = Fin 52\<rparr>"

definition two_sensors :: ThermalThrottling where
  "two_sensors =
     \<lparr>thermal_throttling_status_map =
        [(''skin'', limit_status 3 3), (''soc'', pid_status NaN NaN 0 NaN (Fin 0) 0)],
      cdev_all_request_map = [''cpu'' \<mapsto> [3, 0]]\<rparr>"

text \<open>
  A sensor whose one CDEV, \<open>cpu\<close>, has a PID weight, a power rail and
  \<open>throttling_with_power_link\<close>; the power status with the rail's average; the sensor's
  status after its first budget, with the given power budget and PID request of \<open>cpu\<close>.
\<close>

definition link_binding :: BindedCdevInfo where
  "link_binding = pid_binding\<lparr>power_rail := ''rail'', throttling_with_power_link := True\<rparr>"

definition link_info :: ThrottlingInfo where
  "link_info = ex_info\<lparr>binded_cdev_info_map := [(''cpu'', link_binding)]\<rparr>"

definition rail_status :: "float \<Rightarrow> (string \<rightharpoonup> PowerStatus)" where
  "rail_status avg = [''rail'' \<mapsto> \<lparr>last_updated_avg_power = avg\<rparr>]"

definition link_status :: "int \<Rightarrow> int \<Rightarrow> ThermalThrottlingStatus" where
  "link_status budget request = 
     (pid_status (Fin (- 7)) (Fin 0) 2 (Fin 1000) (Fin 0) 0)
       \<lparr>pid_power_budget_map := [(''cpu'', budget)], pid_cdev_request_map := [(''cpu'', request)]\<rparr>"

text \<open>A CDEV the weight loop puts into \<open>allocated_cdev\<close> (lines 415 to 420): enabled, with a
  weight that is NaN or 0.\<close>

definition no_pid_weight :: "nat \<Rightarrow> BindedCdevInfo \<Rightarrow> bool" where
  "no_pid_weight sev info =
     (enabled info \<and> (isnan (cdev_weight_for_pid info ! sev) \<or>
                       feq (cdev_weight_for_pid info ! sev) (Fin 0)))"

text \<open>The rail data of a CDEV as lines 439 to 457 read it: available (a power rail whose
  average is not NaN) or not (no power rail, or an average that is NaN).\<close>

definition rail_available :: "(string \<rightharpoonup> PowerStatus) \<Rightarrow> BindedCdevInfo \<Rightarrow> bool" where
  "rail_available power_status_map info =
     (power_rail info \<noteq> [] \<and>
      (case power_status_map (power_rail info) of
         None \<Rightarrow> False
       | Some status \<Rightarrow> \<not> isnan (last_updated_avg_power status)))"

definition rail_unavailable :: "(string \<rightharpoonup> PowerStatus) \<Rightarrow> BindedCdevInfo \<Rightarrow> bool" where
  "rail_unavailable power_status_map info =
     (power_rail info = [] \<or>
      (case power_status_map (power_rail info) of
         None \<Rightarrow> False
       | Some status \<Rightarrow> isnan (last_updated_avg_power status)))"

text \<open>
  A binding after which the first pass goes on to the next one: the CDEV is in
  \<open>allocated_cdev\<close> from the start, or its rail data is available, it has no
  \<open>throttling_with_power_link\<close>, and lines 463 to 481 can be carried out (the division by
  \<open>total_weight\<close> is defined in the model and the CDEV has a \<open>pid_cdev_request_map\<close> entry, or its
  weight is NaN and neither matters).
\<close>

definition first_pass_continues ::
  "(string \<times> int) list \<Rightarrow> (string \<rightharpoonup> PowerStatus) \<Rightarrow> nat \<Rightarrow> float
     \<Rightarrow> string \<times> BindedCdevInfo \<Rightarrow> bool" where
  "first_pass_continues requests power_status_map sev total_weight binding =
     (no_pid_weight sev (snd binding) \<or>
      (rail_available power_status_map (snd binding) \<and>
       \<not> throttling_with_power_link (snd binding) \<and>
       (total_weight \<noteq> Fin 0 \<or> isnan (cdev_weight_for_pid (snd binding) ! sev)) \<and>
       (count_key requests (fst binding) \<or> isnan (cdev_weight_for_pid (snd binding) ! sev))))"

text \<open>
  A sensor with two PID CDEVs on the same rail, \<open>cpu\<close> and then \<open>gpu\<close>, of which \<open>gpu\<close> has
  \<open>throttling_with_power_link\<close>; the state with that sensor registered and the given PID
  memory.
\<close>

definition two_link_info :: ThrottlingInfo where
  "two_link_info =
     ex_info\<lparr>binded_cdev_info_map :=
       [(''cpu'', pid_binding\<lparr>power_rail := ''rail''\<rparr>), (''gpu'', link_binding)]\<rparr>"

definition two_cdev_state :: "ThermalThrottlingStatus \<Rightarrow> ThermalThrottling" where
  "two_cdev_state st =
     \<lparr>thermal_throttling_status_map =
        [(''skin'', st\<lparr>pid_power_budget_map := [(''cpu'', INT_MAX), (''gpu'', INT_MAX)],
                      pid_cdev_request_map := [(''cpu'', 0), (''gpu'', 0)],
                      cdev_status_map := [(''cpu'', 0), (''gpu'', 0)]\<rparr>)],
      cdev_all_request_map = [''cpu'' \<mapsto> [0], ''gpu'' \<mapsto> [0]]\<rparr>"

section \<open>Votes and reachable states\<close>

text \<open>
  The requests a state records for a CDEV: the values under that CDEV in the
  \<open>cdev_status_map\<close> of every sensor. \<open>request_list\<close> is the CDEV's multiset in the
  registry, empty when the registry has none.
\<close>

definition vals_of :: "string \<Rightarrow> (string \<times> int) list \<Rightarrow> int list" where
  "vals_of cdev entries = map snd (filter (\<lambda>(k, v). k = cdev) entries)"

definition votes :: "ThermalThrottling \<Rightarrow> string \<Rightarrow> int list" where
  "votes tt cdev =
     concat (map (\<lambda>(sensor, st). vals_of cdev (cdev_status_map st))
               (thermal_throttling_status_map tt))"

definition request_list :: "(string \<rightharpoonup> int list) \<Rightarrow> string \<Rightarrow> int list" where
  "request_list reg cdev = (case reg cdev of None \<Rightarrow> [] | Some xs \<Rightarrow> xs)"

text \<open>
  The registry agrees with the recorded requests: sensor names are distinct, as are the
  CDEVs of each \<open>cdev_status_map\<close>, and each multiset of the registry is in descending
  order and holds the recorded requests for its CDEV and, besides them, only zeros.
\<close>

definition consistent :: "ThermalThrottling \<Rightarrow> bool" where
  "consistent tt \<longleftrightarrow>
     distinct (map fst (thermal_throttling_status_map tt)) \<and>
     (\<forall>(sensor, st) \<in> set (thermal_throttling_status_map tt).
        distinct (map fst (cdev_status_map st))) \<and>
     (\<forall>cdev. sorted (rev (request_list (cdev_all_request_map tt) cdev)) \<and>
        (\<exists>k. mset (request_list (cdev_all_request_map tt) cdev)
               = mset (votes tt cdev) + replicate_mset k 0))"

text \<open>The states the class can be in: from the empty object, by calls of its public
  operations that return.\<close>

inductive reachable :: "ThermalThrottling \<Rightarrow> bool" where
  init: "reachable initial"
| register:
    "reachable tt \<Longrightarrow>
     reachable (snd (registerThermalThrottling tt sensor_name info_ptr cooling_device_info_map))"
| clear: "reachable tt \<Longrightarrow> reachable (clearThrottlingData tt sensor_name)"
| tick:
    "reachable tt \<Longrightarrow>
     thermalThrottlingUpdate tt prop temp sensor_info curr_severity time_elapsed_ms
       power_status_map cooling_device_info_map max_throttling sensor_predictions = Some tt' \<Longrightarrow>
     reachable tt'"
| compute:
    "reachable tt \<Longrightarrow>
     computeCoolingDevicesRequest tt sensor_name sensor_info curr_severity to_update
       = Some (tt', to_update') \<Longrightarrow>
     reachable tt'"

text \<open>A status as registration builds it: distinct CDEVs in \<open>cdev_status_map\<close>, every
  request 0.\<close>

definition zero_status :: "ThermalThrottlingStatus \<Rightarrow> bool" where
  "zero_status st \<longleftrightarrow>
     distinct (map fst (cdev_status_map st)) \<and> (\<forall>(c, v) \<in> set (cdev_status_map st). v = 0)"

text \<open>The multiset of \<open>c\<close> in \<open>reg'\<close> is that in \<open>reg\<close> with \<open>j\<close> more zeros, in order if
  it was.\<close>

definition grows :: "(string \<rightharpoonup> int list) \<Rightarrow> (string \<rightharpoonup> int list) \<Rightarrow> string \<Rightarrow> nat \<Rightarrow> bool" where
  "grows reg reg' c j \<longleftrightarrow>
     mset (request_list reg' c) = mset (request_list reg c) + replicate_mset j 0 \<and>
     (sorted (rev (request_list reg c)) \<longrightarrow> sorted (rev (request_list reg' c)))"

text \<open>What a state records: each sensor's \<open>cdev_status_map\<close>.\<close>

definition recorded :: "ThermalThrottling \<Rightarrow> (string \<times> (string \<times> int) list) list" where
  "recorded tt = map (\<lambda>(sensor, st). (sensor, cdev_status_map st)) (thermal_throttling_status_map tt)"

text \<open>Two states with the same recorded requests and the same registry.\<close>

definition same_votes :: "ThermalThrottling \<Rightarrow> ThermalThrottling \<Rightarrow> bool" where
  "same_votes tt tt' \<longleftrightarrow>
     recorded tt' = recorded tt \<and> cdev_all_request_map tt' = cdev_all_request_map tt"

text \<open>What \<open>getCdevMaxRequest\<close> reads off a registry.\<close>

definition registry_max :: "(string \<rightharpoonup> int list) \<Rightarrow> string \<Rightarrow> int option option" where
  "registry_max reg cdev =
     (case reg cdev of None \<Rightarrow> Some None | Some xs \<Rightarrow> map_option Some (multiset_begin xs))"

text \<open>The state after the sensor with the hard limit has been registered and ticked at
  SEVERE, before its requests are combined.\<close>

definition limit_ticked :: ThermalThrottling where
  "limit_ticked = \<lparr>thermal_throttling_status_map = [(''skin'', limit_status 3 0)],
                    cdev_all_request_map = [''cpu'' \<mapsto> [0]]\<rparr>"

text \<open>
  A sensor whose CDEV \<open>cpu\<close> has both a PID weight and a hard limit, and a ceiling of -1;
  the state with that sensor registered, the given recorded request for \<open>cpu\<close> and the given
  multiset of \<open>cpu\<close> in the registry.
\<close>

definition both_info :: ThrottlingInfo where
  "both_info =
     ex_info\<lparr>binded_cdev_info_map :=
       [(''cpu'', limit_binding\<lparr>cdev_weight_for_pid := seven (Fin 1),
                                 cdev_ceiling := seven (- 1)\<rparr>)]\<rparr>"

definition both_state :: "int \<Rightarrow> int list \<Rightarrow> ThermalThrottling" where
  "both_state voted requests =
     \<lparr>thermal_throttling_status_map =
        [(''skin'', (pid_status NaN NaN 0 NaN (Fin 0) 0)
                     \<lparr>hardlimit_cdev_request_map := [(''cpu'', 0)],
                      cdev_status_map := [(''cpu'', voted)]\<rparr>)],
      cdev_all_request_map = [''cpu'' \<mapsto> requests]\<rparr>"

section \<open>The PID target state: properties\<close>


lemma size_t_le6: "size_t x \<le> 6"
  by (cases x) auto

lemma size_t_surj: "s \<le> 6 \<Longrightarrow> \<exists>x. size_t x = s"
proof -
  assume "s \<le> 6"
  then have "s = 0 \<or> s = 1 \<or> s = 2 \<or> s = 3 \<or> s = 4 \<or> s = 5 \<or> s = 6" by arith
  then show ?thesis
    by (metis size_t.simps)
qed

lemma set_enum_range: "x \<in> set enum_range"
  by (cases x) (auto simp: enum_range_def)

lemma sorted_enum_range: "sorted (map size_t enum_range)"
  by (simp add: enum_range_def)

lemma target_loop_none_valid:
  "\<forall>x \<in> set sevs. isnan (sp ! size_t x) \<Longrightarrow> target_loop sp c sevs acc = acc"
  by (induction sevs arbitrary: acc) (auto simp: Let_def)

lemma target_loop_above:
  assumes "sorted (map size_t sevs)"
    and "x \<in> set sevs" "\<not> isnan (sp ! size_t x)" "size_t c < size_t x"
  shows "\<exists>y \<in> set sevs. target_loop sp c sevs acc = size_t y \<and> \<not> isnan (sp ! size_t y)
           \<and> size_t c < size_t y \<and> size_t y \<le> size_t x"
  using assms
proof (induction sevs arbitrary: acc)
  case Nil
  then show ?case by simp
next
  case (Cons sev rest)
  show ?case
  proof (cases "isnan (sp ! size_t sev)")
    case True
    with Cons.prems have "x \<in> set rest" by auto
    with Cons True show ?thesis by (auto simp: Let_def)
  next
    case valid: False
    show ?thesis
    proof (cases "size_t c < size_t sev")
      case True
      with valid Cons.prems show ?thesis by (auto simp: Let_def)
    next
      case False
      with Cons.prems have "x \<in> set rest" by auto
      with Cons valid False show ?thesis by (auto simp: Let_def)
    qed
  qed
qed

lemma target_loop_below:
  assumes "sorted (map size_t sevs)"
    and "\<forall>x \<in> set sevs. \<not> isnan (sp ! size_t x) \<longrightarrow> size_t x \<le> size_t c"
    and "\<exists>x \<in> set sevs. \<not> isnan (sp ! size_t x)"
  shows "\<exists>y \<in> set sevs. target_loop sp c sevs acc = size_t y \<and> \<not> isnan (sp ! size_t y)
           \<and> (\<forall>x \<in> set sevs. \<not> isnan (sp ! size_t x) \<longrightarrow> size_t x \<le> size_t y)"
  using assms
proof (induction sevs arbitrary: acc)
  case Nil
  then show ?case by simp
next
  case (Cons sev rest)
  show ?case
  proof (cases "isnan (sp ! size_t sev)")
    case True
    with Cons show ?thesis by (auto simp: Let_def)
  next
    case valid: False
    with Cons.prems have le: "\<not> size_t c < size_t sev" by auto
    show ?thesis
    proof (cases "\<exists>x \<in> set rest. \<not> isnan (sp ! size_t x)")
      case True
      with Cons.prems Cons.IH [of "size_t sev"]
      obtain y where y: "y \<in> set rest" "target_loop sp c rest (size_t sev) = size_t y"
        "\<not> isnan (sp ! size_t y)"
        "\<forall>x \<in> set rest. \<not> isnan (sp ! size_t x) \<longrightarrow> size_t x \<le> size_t y"
        by auto
      from Cons.prems(1) y(1) have "size_t sev \<le> size_t y" by auto
      with y valid le show ?thesis by (auto simp: Let_def)
    next
      case False
      then have "target_loop sp c rest (size_t sev) = size_t sev"
        by (simp add: target_loop_none_valid)
      with valid le False show ?thesis by (auto simp: Let_def)
    qed
  qed
qed


text \<open>
  C1 (as amended). With \<open>throttling_info\<close> present, \<open>getTargetStateOfPID\<close> returns the
  lowest severity strictly above the current one whose \<open>s_power\<close> is not NaN whenever
  there is one; only when there is none does it return the highest severity at or
  below the current one whose \<open>s_power\<close> is not NaN; it returns 0 when every
  \<open>s_power\<close> is NaN.
\<close>

theorem getTargetStateOfPID_next_valid:
  assumes "throttling_info sensor_info = Some ti"
  shows "\<exists>r. getTargetStateOfPID sensor_info curr_severity = Some r \<and>
     (if \<exists>s. size_t curr_severity < s \<and> s \<le> 6 \<and> \<not> isnan (s_power ti ! s)
      then size_t curr_severity < r \<and> r \<le> 6 \<and> \<not> isnan (s_power ti ! r) \<and>
           (\<forall>s. size_t curr_severity < s \<and> s < r \<longrightarrow> isnan (s_power ti ! s))
      else if \<exists>s \<le> size_t curr_severity. \<not> isnan (s_power ti ! s)
      then r \<le> size_t curr_severity \<and> \<not> isnan (s_power ti ! r) \<and>
           (\<forall>s. r < s \<and> s \<le> size_t curr_severity \<longrightarrow> isnan (s_power ti ! s))
      else r = 0)"
proof -
  define sp where "sp = s_power ti"
  define r where "r = target_loop sp curr_severity enum_range 0"
  have r: "getTargetStateOfPID sensor_info curr_severity = Some r"
    using assms by (simp add: getTargetStateOfPID_def r_def sp_def)
  have "(if \<exists>s. size_t curr_severity < s \<and> s \<le> 6 \<and> \<not> isnan (sp ! s)
      then size_t curr_severity < r \<and> r \<le> 6 \<and> \<not> isnan (sp ! r) \<and>
           (\<forall>s. size_t curr_severity < s \<and> s < r \<longrightarrow> isnan (sp ! s))
      else if \<exists>s \<le> size_t curr_severity. \<not> isnan (sp ! s)
      then r \<le> size_t curr_severity \<and> \<not> isnan (sp ! r) \<and>
           (\<forall>s. r < s \<and> s \<le> size_t curr_severity \<longrightarrow> isnan (sp ! s))
      else r = 0)"
  proof (cases "\<exists>s. size_t curr_severity < s \<and> s \<le> 6 \<and> \<not> isnan (sp ! s)")
    case True
    have "size_t curr_severity < r \<and> r \<le> 6 \<and> \<not> isnan (sp ! r) \<and>
           (\<forall>s. size_t curr_severity < s \<and> s < r \<longrightarrow> isnan (sp ! s))"
    proof (intro conjI allI impI)
      from True obtain s where s: "size_t curr_severity < s" "s \<le> 6" "\<not> isnan (sp ! s)" by blast
      then obtain x where x: "size_t x = s" using size_t_surj by blast
      from target_loop_above [OF sorted_enum_range set_enum_range, of sp x curr_severity 0] s x
      obtain y where y: "r = size_t y" "\<not> isnan (sp ! size_t y)" "size_t curr_severity < size_t y"
        by (auto simp: r_def)
      show "size_t curr_severity < r" using y by simp
      show "r \<le> 6" using y size_t_le6 by simp
      show "\<not> isnan (sp ! r)" using y by simp
    next
      fix s assume s: "size_t curr_severity < s \<and> s < r"
      show "isnan (sp ! s)"
      proof (rule ccontr)
        assume v: "\<not> isnan (sp ! s)"
        have "r \<le> 6" using target_loop_above [OF sorted_enum_range set_enum_range, of sp _ curr_severity 0] True
          size_t_surj size_t_le6 unfolding r_def by metis
        with s have "s \<le> 6" by simp
        then obtain x where x: "size_t x = s" using size_t_surj by blast
        from target_loop_above [OF sorted_enum_range set_enum_range, of sp x curr_severity 0] s v x
        have "r \<le> s" by (auto simp: r_def)
        with s show False by simp
      qed
    qed
    with True show ?thesis by simp
  next
    case none_above: False
    then have below: "\<forall>x \<in> set enum_range. \<not> isnan (sp ! size_t x) \<longrightarrow> size_t x \<le> size_t curr_severity"
      using size_t_le6 by (meson not_le_imp_less)
    show ?thesis
    proof (cases "\<exists>s \<le> size_t curr_severity. \<not> isnan (sp ! s)")
      case True
      then obtain s where s: "s \<le> size_t curr_severity" "\<not> isnan (sp ! s)" by blast
      with size_t_le6 [of curr_severity] have "s \<le> 6" by simp
      then obtain x where x: "size_t x = s" using size_t_surj by blast
      with s have "\<exists>x \<in> set enum_range. \<not> isnan (sp ! size_t x)"
        using set_enum_range by blast
      from target_loop_below [OF sorted_enum_range below this, of 0]
      obtain y where y: "r = size_t y" "\<not> isnan (sp ! size_t y)"
        "\<forall>x. \<not> isnan (sp ! size_t x) \<longrightarrow> size_t x \<le> size_t y"
        using set_enum_range by (auto simp: r_def)
      have "r \<le> size_t curr_severity" using y below set_enum_range by auto
      moreover have "\<forall>s. r < s \<and> s \<le> size_t curr_severity \<longrightarrow> isnan (sp ! s)"
      proof (intro allI impI, rule ccontr)
        fix s assume a: "r < s \<and> s \<le> size_t curr_severity" and v: "\<not> isnan (sp ! s)"
        with size_t_le6 [of curr_severity] have "s \<le> 6" by simp
        then obtain x where "size_t x = s" using size_t_surj by blast
        with y v have "s \<le> r" by auto
        with a show False by simp
      qed
      ultimately show ?thesis using none_above True y by simp
    next
      case False
      with none_above have "\<forall>x \<in> set enum_range. isnan (sp ! size_t x)"
        using size_t_le6 by (meson not_le_imp_less)
      then have "r = 0" by (simp add: r_def target_loop_none_valid)
      with none_above False show ?thesis by simp
    qed
  qed
  from this [unfolded sp_def] r show ?thesis by blast
qed


theorem getTargetStateOfPID_next_valid_witness:
  "throttling_info (ex_sensor ex_info) = Some ex_info \<and>
   (\<exists>s. size_t LIGHT < s \<and> s \<le> 6 \<and> \<not> isnan (s_power ex_info ! s)) \<and>
   (\<exists>r. getTargetStateOfPID (ex_sensor ex_info) LIGHT = Some r \<and> size_t LIGHT < r \<and> r \<le> 6 \<and>
        \<not> isnan (s_power ex_info ! r) \<and>
        (\<forall>s. size_t LIGHT < s \<and> s < r \<longrightarrow> isnan (s_power ex_info ! s)))"
proof -
  have h: "throttling_info (ex_sensor ex_info) = Some ex_info"
    by (simp add: ex_sensor_def)
  have e: "\<exists>s. size_t LIGHT < s \<and> s \<le> 6 \<and> \<not> isnan (s_power ex_info ! s)"
    by (rule exI [of _ 2]) (simp add: ex_info_def seven_def)
  from getTargetStateOfPID_next_valid [OF h, of LIGHT] e h show ?thesis
    by (simp only: if_True simp_thms)
qed

text \<open>
  C1 as stated fails: every severity has a table and the current severity is LIGHT
  (ordinal 1), so a valid level at or below the current one exists, and the target
  state is 2.
\<close>

theorem getTargetStateOfPID_exceeds_curr:
  "\<not> isnan (s_power ex_info ! size_t LIGHT) \<and>
   getTargetStateOfPID (ex_sensor ex_info) LIGHT = Some 2 \<and> size_t LIGHT < 2"
  by (simp add: getTargetStateOfPID_def ex_sensor_def ex_info_def seven_def enum_range_def)

section \<open>Registration: properties\<close>

lemma count_key_update: "count_key (AList.update k v al) k' \<longleftrightarrow> k' = k \<or> count_key al k'"
  by (auto simp: count_key_def dom_update)

lemma map_at_update_same: "map_at (AList.update k v al) k = Some v"
  by (simp add: map_at_def update_conv')


lemma cdev_status_register_cdev:
  "count_key (cdev_status_map (fst (register_cdev cdev info (st, reg)))) c \<longleftrightarrow>
     count_key (cdev_status_map st) c \<or>
     (c = cdev \<and> ((\<exists>w \<in> set (cdev_weight_for_pid info). \<not> isnan w) \<or>
                  (\<exists>l \<in> set (limit_info info). l > 0)))"
  by (auto simp: register_cdev_def Let_def count_key_update list_ex_iff)

lemma cdev_status_register_loop:
  "register_loop cm bs (st, reg) = (True, st', reg') \<Longrightarrow>
   count_key (cdev_status_map st') c \<longleftrightarrow>
     count_key (cdev_status_map st) c \<or>
     (\<exists>info. (c, info) \<in> set bs \<and> ((\<exists>w \<in> set (cdev_weight_for_pid info). \<not> isnan w) \<or>
                  (\<exists>l \<in> set (limit_info info). l > 0)))"
proof (induction bs arbitrary: st reg)
  case Nil
  then show ?case by simp
next
  case (Cons b bs)
  obtain cdev info where b: "b = (cdev, info)" by (cases b)
  obtain st1 reg1 where r: "register_cdev cdev info (st, reg) = (st1, reg1)"
    by (cases "register_cdev cdev info (st, reg)")
  from Cons.prems b r have loop: "register_loop cm bs (st1, reg1) = (True, st', reg')"
    by (simp split: if_splits)
  have "count_key (cdev_status_map st1) c \<longleftrightarrow>
     count_key (cdev_status_map st) c \<or>
     (c = cdev \<and> ((\<exists>w \<in> set (cdev_weight_for_pid info). \<not> isnan w) \<or>
                  (\<exists>l \<in> set (limit_info info). l > 0)))"
    using cdev_status_register_cdev [of cdev info st reg c] r by simp
  with Cons.IH [OF loop] b show ?case by auto
qed

text \<open>
  C9 (as amended). After a registration that succeeds, a CDEV is in the sensor's
  \<open>cdev_status_map\<close> if and only if its default binding has, at some severity, a PID
  weight that is not NaN or a hard-limit state above 0. A power threshold alone puts the
  CDEV in \<open>throttling_release_map\<close> only.
\<close>

theorem register_cdev_status_map:
  assumes "registerThermalThrottling tt sensor_name (Some ti) cooling_device_info_map = (True, tt')"
  shows "count_key (cdev_status_map (status_of tt' sensor_name)) cdev \<longleftrightarrow>
     (\<exists>info. (cdev, info) \<in> set (binded_cdev_info_map ti) \<and>
        ((\<exists>cdev_weight \<in> set (cdev_weight_for_pid info). \<not> isnan cdev_weight) \<or>
         (\<exists>limit \<in> set (limit_info info). limit > 0)))"
proof -
  define st0 where "st0 = new_status\<lparr>prev_err := NaN, i_budget := NaN, prev_target := size_t NONE,
                                prev_power_budget := NaN, tran_cycle := 0, profile := []\<rparr>"
  obtain ok st reg where loop:
    "register_loop cooling_device_info_map (binded_cdev_info_map ti) (st0, cdev_all_request_map tt)
       = (ok, st, reg)"
    using prod_cases3 by blast
  from assms loop have ok: "ok = True"
    and tt': "tt' = \<lparr>thermal_throttling_status_map =
                       AList.update sensor_name st (thermal_throttling_status_map tt),
                     cdev_all_request_map = reg\<rparr>"
    by (auto simp: registerThermalThrottling_def st0_def Let_def split: if_splits)
  have st: "status_of tt' sensor_name = st"
    by (simp add: tt' status_of_def map_at_update_same)
  have "\<not> count_key (cdev_status_map st0) cdev"
    by (simp add: st0_def new_status_def count_key_def)
  with cdev_status_register_loop [OF loop [unfolded ok], of cdev] st show ?thesis by simp
qed

lemma registered_pid_eval:
  "fst registered_pid = True"
  "cdev_status_map (status_of (snd registered_pid) ''skin'') = [(''cpu'', 0)]"
  by (simp_all add: registered_pid_def registerThermalThrottling_def initial_def count_key_def
      ex_info_def pid_binding_def ex_binding_def seven_def ex_cdevs_def register_cdev_def
      new_status_def status_of_def map_at_def)

theorem register_cdev_status_map_witness:
  "registered_pid = (True, snd registered_pid) \<and>
   count_key (cdev_status_map (status_of (snd registered_pid) ''skin'')) ''cpu'' \<and>
   (\<exists>info. (''cpu'', info) \<in> set (binded_cdev_info_map
                 (ex_info\<lparr>binded_cdev_info_map := [(''cpu'', pid_binding)]\<rparr>)) \<and>
        ((\<exists>cdev_weight \<in> set (cdev_weight_for_pid info). \<not> isnan cdev_weight) \<or>
         (\<exists>limit \<in> set (limit_info info). limit > 0)))"
proof -
  have r: "registered_pid = (True, snd registered_pid)"
    using registered_pid_eval(1) by (simp add: prod_eq_iff)
  have c: "count_key (cdev_status_map (status_of (snd registered_pid) ''skin'')) ''cpu''"
    by (simp add: registered_pid_eval count_key_def)
  note t = register_cdev_status_map [OF r [unfolded registered_pid_def], folded registered_pid_def]
  from t [of "''cpu''"] c r show ?thesis by blast
qed

text \<open>
  C9 as stated fails: the CDEV has a power rail and a power threshold at every severity,
  the registration succeeds, and the CDEV is in \<open>throttling_release_map\<close> but not in
  \<open>cdev_status_map\<close>.
\<close>

theorem register_threshold_only_not_in_cdev_status_map:
  "fst registered_release_only = True \<and>
   \<not> isnan (power_thresholds release_binding ! size_t LIGHT) \<and>
   \<not> count_key (cdev_status_map (status_of (snd registered_release_only) ''skin'')) ''cpu'' \<and>
   count_key (throttling_release_map (status_of (snd registered_release_only) ''skin'')) ''cpu''"
  by (simp add: registered_release_only_def registerThermalThrottling_def initial_def count_key_def
     ex_info_def release_binding_def ex_binding_def seven_def ex_cdevs_def register_cdev_def
     new_status_def status_of_def map_at_def)

section \<open>Failed registrations\<close>

lemma registered_limit_eval:
  "registered_limit = (True, \<lparr>thermal_throttling_status_map = [(''skin'', limit_status 0 0)],
       cdev_all_request_map = [''cpu'' \<mapsto> [0]]\<rparr>)"
  by (simp add: registered_limit_def limit_sensor_def ex_sensor_def registerThermalThrottling_def
      initial_def count_key_def
      ex_info_def limit_binding_def ex_binding_def seven_def ex_cdevs_def register_cdev_def
      new_status_def limit_status_def registry_insert0_def)

lemma registered_unknown_eval:
  "registered_unknown = (False, \<lparr>thermal_throttling_status_map = [(''skin'', limit_status 0 0)],
       cdev_all_request_map = [''cpu'' \<mapsto> [0]]\<rparr>)"
  by (simp add: registered_unknown_def unknown_info_def registerThermalThrottling_def
      initial_def count_key_def
      ex_info_def limit_binding_def ex_binding_def seven_def ex_cdevs_def register_cdev_def
      new_status_def limit_status_def registry_insert0_def)

lemma tick_limit:
  "thermalThrottlingUpdate \<lparr>thermal_throttling_status_map = [(''skin'', limit_status 0 0)],
       cdev_all_request_map = [''cpu'' \<mapsto> [0]]\<rparr> [] skin_temp limit_sensor SEVERE 100 Map.empty ex_cdevs False []
   = Some \<lparr>thermal_throttling_status_map = [(''skin'', limit_status 3 0)],
       cdev_all_request_map = [''cpu'' \<mapsto> [0]]\<rparr>"
  by (simp add: thermalThrottlingUpdate_def skin_temp_def limit_sensor_def ex_sensor_def count_key_def
      ex_info_def limit_status_def status_of_def map_at_def updateCdevRequestBySeverity_def
      active_bindings_def set_status_def limit_binding_def ex_binding_def seven_def)

lemma compute_limit:
  "computeCoolingDevicesRequest \<lparr>thermal_throttling_status_map = [(''skin'', limit_status 3 0)],
       cdev_all_request_map = [''cpu'' \<mapsto> [0]]\<rparr> ''skin'' limit_sensor SEVERE []
   = Some (\<lparr>thermal_throttling_status_map = [(''skin'', limit_status 3 3)],
       cdev_all_request_map = [''cpu'' \<mapsto> [3]]\<rparr>, [''cpu''])"
  by (simp add: computeCoolingDevicesRequest_def limit_sensor_def ex_sensor_def count_key_def
      ex_info_def limit_status_def status_of_def map_at_def updateCdevMaxRequestAndNotifyIfChange_def
      active_bindings_def limit_binding_def ex_binding_def seven_def final_request_def
      multiset_begin_def multiset_erase_find_def)

lemma register_loop_unknown_elem:
  "(cdev, info) \<in> set bs \<Longrightarrow> cm cdev = None \<Longrightarrow> fst (register_loop cm bs s) = False"
proof (induction bs arbitrary: s)
  case Nil
  then show ?case by simp
next
  case (Cons b bs)
  obtain c i where b: "b = (c, i)" by (cases b)
  show ?case
  proof (cases "cm c = None")
    case True
    then show ?thesis by (simp add: b)
  next
    case False
    with Cons.prems b have "(cdev, info) \<in> set bs" by auto
    from Cons.IH [OF this Cons.prems(2)] False show ?thesis by (simp add: b)
  qed
qed

lemma register_loop_unknown:
  assumes "\<exists>(cdev, info) \<in> set bs. cm cdev = None"
  shows "fst (register_loop cm bs s) = False"
proof -
  from assms obtain cdev info where "(cdev, info) \<in> set bs" "cm cdev = None" by blast
  then show ?thesis by (rule register_loop_unknown_elem)
qed

text \<open>
  C8 (as amended). \<open>registerThermalThrottling\<close> returns false, and changes nothing, when
  the sensor is already registered; it returns false when a CDEV of
  \<open>binded_cdev_info_map\<close> is absent from the cooling-device map, and the sensor then has
  a status entry all the same. \<open>thermalThrottlingUpdate\<close> changes nothing for a sensor
  that has no status entry.
\<close>

theorem register_failure:
  "(count_key (thermal_throttling_status_map tt) sensor_name \<longrightarrow>
      registerThermalThrottling tt sensor_name info_ptr cooling_device_info_map = (False, tt)) \<and>
   (\<not> count_key (thermal_throttling_status_map tt) sensor_name \<and>
    (\<exists>(cdev, info) \<in> set (binded_cdev_info_map ti). cooling_device_info_map cdev = None) \<longrightarrow>
      fst (registerThermalThrottling tt sensor_name (Some ti) cooling_device_info_map) = False \<and>
      count_key (thermal_throttling_status_map
                   (snd (registerThermalThrottling tt sensor_name (Some ti) cooling_device_info_map)))
        sensor_name) \<and>
   (\<not> count_key (thermal_throttling_status_map tt) (temp_name temp) \<longrightarrow>
      thermalThrottlingUpdate tt prop temp sensor_info curr_severity time_elapsed_ms
        power_status_map cooling_device_info_map max_throttling sensor_predictions = Some tt)"
proof (intro conjI impI)
  assume "count_key (thermal_throttling_status_map tt) sensor_name"
  then show "registerThermalThrottling tt sensor_name info_ptr cooling_device_info_map = (False, tt)"
    by (simp add: registerThermalThrottling_def)
next
  assume a: "\<not> count_key (thermal_throttling_status_map tt) sensor_name \<and>
    (\<exists>(cdev, info) \<in> set (binded_cdev_info_map ti). cooling_device_info_map cdev = None)"
  let ?st0 = "new_status\<lparr>prev_err := NaN, i_budget := NaN, prev_target := size_t NONE,
                                prev_power_budget := NaN, tran_cycle := 0, profile := []\<rparr>"
  obtain ok st reg where loop:
    "register_loop cooling_device_info_map (binded_cdev_info_map ti) (?st0, cdev_all_request_map tt)
       = (ok, st, reg)"
    using prod_cases3 by blast
  from a register_loop_unknown [of "binded_cdev_info_map ti" cooling_device_info_map] loop
  have "ok = False" by (metis fst_conv)
  with a loop show "fst (registerThermalThrottling tt sensor_name (Some ti) cooling_device_info_map) = False"
    by (simp add: registerThermalThrottling_def Let_def)
  from a loop show "count_key (thermal_throttling_status_map
                   (snd (registerThermalThrottling tt sensor_name (Some ti) cooling_device_info_map)))
        sensor_name"
    by (simp add: registerThermalThrottling_def Let_def count_key_update)
next
  assume "\<not> count_key (thermal_throttling_status_map tt) (temp_name temp)"
  then show "thermalThrottlingUpdate tt prop temp sensor_info curr_severity time_elapsed_ms
        power_status_map cooling_device_info_map max_throttling sensor_predictions = Some tt"
    by (simp add: thermalThrottlingUpdate_def)
qed

theorem register_failure_witness:
  "count_key (thermal_throttling_status_map (snd registered_limit)) ''skin'' \<and>
   registerThermalThrottling (snd registered_limit) ''skin'' (Some unknown_info) ex_cdevs
     = (False, snd registered_limit) \<and>
   \<not> count_key (thermal_throttling_status_map initial) ''skin'' \<and>
   ex_cdevs ''gpu'' = None \<and>
   fst (registerThermalThrottling initial ''skin'' (Some unknown_info) ex_cdevs) = False \<and>
   count_key (thermal_throttling_status_map
                (snd (registerThermalThrottling initial ''skin'' (Some unknown_info) ex_cdevs)))
     ''skin'' \<and>
   thermalThrottlingUpdate initial [] skin_temp limit_sensor SEVERE 100 Map.empty ex_cdevs False []
     = Some initial"
proof -
  have 1: "count_key (thermal_throttling_status_map (snd registered_limit)) ''skin''"
    by (simp add: registered_limit_eval count_key_def)
  have 2: "\<not> count_key (thermal_throttling_status_map initial) ''skin''"
    by (simp add: initial_def count_key_def)
  have 3: "ex_cdevs ''gpu'' = None"
    by (simp add: ex_cdevs_def)
  have 4: "\<exists>(cdev, info) \<in> set (binded_cdev_info_map unknown_info). ex_cdevs cdev = None"
    using 3 by (simp add: unknown_info_def)
  have 5: "\<not> count_key (thermal_throttling_status_map initial) (temp_name skin_temp)"
    using 2 by (simp add: skin_temp_def)
  from register_failure [of "snd registered_limit" "''skin''" "Some unknown_info" ex_cdevs unknown_info skin_temp]
    register_failure [of initial "''skin''" "Some unknown_info" ex_cdevs unknown_info skin_temp
       "[]" limit_sensor SEVERE 100 Map.empty False "[]"]
    1 2 3 4 5
  show ?thesis by blast
qed

text \<open>
  C8 as stated fails: the registration fails on the unknown CDEV \<open>gpu\<close> after it has
  entered \<open>cpu\<close>, and the next tick at SEVERE moves the hard-limit request of \<open>cpu\<close>
  from 0 to 3.
\<close>

theorem failed_registration_tick_changes_state:
  "fst registered_unknown = False \<and>
   hardlimit_cdev_request_map (status_of (snd registered_unknown) ''skin'') = [(''cpu'', 0)] \<and>
   map_option (\<lambda>tt. hardlimit_cdev_request_map (status_of tt ''skin''))
     (thermalThrottlingUpdate (snd registered_unknown) [] skin_temp (ex_sensor unknown_info) SEVERE 100
        Map.empty ex_cdevs False [])
     = Some [(''cpu'', 3)]"
  by (simp add: registered_unknown_eval thermalThrottlingUpdate_def skin_temp_def unknown_info_def ex_sensor_def count_key_def
      ex_info_def limit_status_def status_of_def map_at_def updateCdevRequestBySeverity_def
      active_bindings_def set_status_def limit_binding_def ex_binding_def seven_def)

section \<open>clearThrottlingData and throttlingReleaseUpdate: properties\<close>

lemma limit_voted_reached:
  "registered_limit = (True, \<lparr>thermal_throttling_status_map = [(''skin'', limit_status 0 0)],
       cdev_all_request_map = [''cpu'' \<mapsto> [0]]\<rparr>) \<and>
   thermalThrottlingUpdate \<lparr>thermal_throttling_status_map = [(''skin'', limit_status 0 0)],
       cdev_all_request_map = [''cpu'' \<mapsto> [0]]\<rparr> [] skin_temp limit_sensor SEVERE 100 Map.empty ex_cdevs False []
   = Some \<lparr>thermal_throttling_status_map = [(''skin'', limit_status 3 0)],
       cdev_all_request_map = [''cpu'' \<mapsto> [0]]\<rparr> \<and>
   computeCoolingDevicesRequest \<lparr>thermal_throttling_status_map = [(''skin'', limit_status 3 0)],
       cdev_all_request_map = [''cpu'' \<mapsto> [0]]\<rparr> ''skin'' limit_sensor SEVERE []
   = Some (limit_voted, [''cpu''])"
  using registered_limit_eval tick_limit compute_limit by (simp add: limit_voted_def)

lemma set_status_at: "map_at (thermal_throttling_status_map (set_status tt n st)) n = Some st"
  by (simp add: set_status_def map_at_update_same)

text \<open>
  C3 (as amended). After \<open>clearThrottlingData\<close> on a registered sensor, \<open>prev_err\<close>,
  \<open>i_budget\<close> and \<open>prev_power_budget\<close> are NaN, \<open>prev_target\<close> is NONE, \<open>tran_cycle\<close>
  is 0, every PID power budget is \<^verbatim>\<open>INT_MAX\<close> and every PID request, hard-limit request and
  release step is 0, for the same CDEVs as before. The sensor's \<open>cdev_status_map\<close>,
  \<open>budget_transient\<close> and \<open>profile\<close> and the vote registry are as they were.
\<close>

theorem clearThrottlingData_resets:
  assumes "map_at (thermal_throttling_status_map tt) sensor_name = Some st"
  shows "\<exists>st'. map_at (thermal_throttling_status_map (clearThrottlingData tt sensor_name)) sensor_name
             = Some st' \<and>
     prev_err st' = NaN \<and> i_budget st' = NaN \<and> prev_power_budget st' = NaN \<and>
     prev_target st' = size_t NONE \<and> tran_cycle st' = 0 \<and>
     map fst (pid_power_budget_map st') = map fst (pid_power_budget_map st) \<and>
     (\<forall>budget \<in> snd ` set (pid_power_budget_map st'). budget = INT_MAX) \<and>
     map fst (pid_cdev_request_map st') = map fst (pid_cdev_request_map st) \<and>
     (\<forall>request \<in> snd ` set (pid_cdev_request_map st'). request = 0) \<and>
     map fst (hardlimit_cdev_request_map st') = map fst (hardlimit_cdev_request_map st) \<and>
     (\<forall>request \<in> snd ` set (hardlimit_cdev_request_map st'). request = 0) \<and>
     map fst (throttling_release_map st') = map fst (throttling_release_map st) \<and>
     (\<forall>release_step \<in> snd ` set (throttling_release_map st'). release_step = 0) \<and>
     cdev_status_map st' = cdev_status_map st \<and>
     budget_transient st' = budget_transient st \<and> profile st' = profile st \<and>
     cdev_all_request_map (clearThrottlingData tt sensor_name) = cdev_all_request_map tt"
proof -
  let ?st' = "st\<lparr>pid_power_budget_map := map (\<lambda>(cdev, _). (cdev, INT_MAX)) (pid_power_budget_map st),
                pid_cdev_request_map := map (\<lambda>(cdev, _). (cdev, 0)) (pid_cdev_request_map st),
                hardlimit_cdev_request_map :=
                  map (\<lambda>(cdev, _). (cdev, 0)) (hardlimit_cdev_request_map st),
                throttling_release_map := map (\<lambda>(cdev, _). (cdev, 0)) (throttling_release_map st),
                prev_err := NaN, i_budget := NaN, prev_target := size_t NONE,
                prev_power_budget := NaN, tran_cycle := 0\<rparr>"
  have 1: "clearThrottlingData tt sensor_name = set_status tt sensor_name ?st'"
    using assms by (simp add: clearThrottlingData_def)
  have 2: "map_at (thermal_throttling_status_map (clearThrottlingData tt sensor_name)) sensor_name
             = Some ?st'"
    unfolding 1 by (rule set_status_at)
  have 3: "cdev_all_request_map (clearThrottlingData tt sensor_name) = cdev_all_request_map tt"
    unfolding 1 by (simp add: set_status_def)
  show ?thesis
    unfolding 2 3 by (rule exI [of _ ?st']) (auto simp: comp_def case_prod_beta)
qed

theorem clearThrottlingData_resets_witness:
  "map_at (thermal_throttling_status_map limit_voted) ''skin'' = Some (limit_status 3 3) \<and>
   (\<exists>st'. map_at (thermal_throttling_status_map (clearThrottlingData limit_voted ''skin'')) ''skin''
             = Some st' \<and>
      prev_err st' = NaN \<and> i_budget st' = NaN \<and> prev_power_budget st' = NaN \<and>
      prev_target st' = size_t NONE \<and> tran_cycle st' = 0 \<and>
      map fst (hardlimit_cdev_request_map st') = [''cpu''] \<and>
      (\<forall>request \<in> snd ` set (hardlimit_cdev_request_map st'). request = 0) \<and>
      cdev_status_map st' = [(''cpu'', 3)]) \<and>
   cdev_all_request_map (clearThrottlingData limit_voted ''skin'') = cdev_all_request_map limit_voted"
proof -
  have h: "map_at (thermal_throttling_status_map limit_voted) ''skin'' = Some (limit_status 3 3)"
    by (simp add: limit_voted_def map_at_def)
  have "hardlimit_cdev_request_map (limit_status 3 3) = [(''cpu'', 3)]"
       "cdev_status_map (limit_status 3 3) = [(''cpu'', 3)]"
    by (simp_all add: limit_status_def)
  with clearThrottlingData_resets [OF h] h show ?thesis
    by auto
qed

text \<open>
  C3 as stated fails: the sensor's vote for \<open>cpu\<close> is 3 before the call and the registry
  still holds it after: the registry's maximum for \<open>cpu\<close> is 3, not 0.
\<close>

theorem clearThrottlingData_keeps_vote:
  "getCdevMaxRequest limit_voted ''cpu'' = Some (Some 3) \<and>
   getCdevMaxRequest (clearThrottlingData limit_voted ''skin'') ''cpu'' = Some (Some 3) \<and>
   cdev_status_map (status_of (clearThrottlingData limit_voted ''skin'') ''skin'') = [(''cpu'', 3)]"
  by (simp add: limit_voted_def clearThrottlingData_def getCdevMaxRequest_def multiset_begin_def
      map_at_def set_status_def status_of_def limit_status_def)









section \<open>updatePowerBudget: properties\<close>

lemma tran_registered:
  "registerThermalThrottling initial ''skin'' (Some tran_info) ex_cdevs
     = (True, pid_state (pid_status NaN NaN 0 NaN (Fin 0) 0))"
  by (simp add: tran_info_def registerThermalThrottling_def
      initial_def count_key_def ex_cdevs_def pid_state_def pid_status_def
      ex_info_def pid_binding_def ex_binding_def seven_def register_cdev_def
      new_status_def registry_insert0_def)

lemmas pid_eval_defs = updatePowerBudget_def pid_state_def pid_status_def tran_info_def ex_sensor_def
  skin_temp_def map_at_def count_key_def ex_info_def pid_binding_def ex_binding_def seven_def
  getTargetStateOfPID_def enum_range_def pid_budget_def init_i_budget_def blend_transient_def
  fclamp_def fgt_def set_status_def of_int_f_def Let_def

lemma tick1:
  "updatePowerBudget (pid_state (pid_status NaN NaN 0 NaN (Fin 0) 0)) skin_temp (ex_sensor tran_info)
     ex_cdevs 100 LIGHT False []
   = Some \<lparr>power_budget = Fin 1000, logged_transient = Fin 0,
            after = pid_state (pid_status (Fin (- 7)) (Fin 0) 2 (Fin 1000) (Fin 0) 0)\<rparr>"
  by (simp add: pid_eval_defs)

lemma tick2:
  "updatePowerBudget (pid_state (pid_status (Fin (- 7)) (Fin 0) 2 (Fin 1000) (Fin 0) 0)) skin_temp (ex_sensor tran_info)
     ex_cdevs 100 SEVERE False []
   = Some \<lparr>power_budget = Fin 875, logged_transient = Fin 375,
            after = pid_state (pid_status (Fin 3) (Fin 0) 4 (Fin 875) (Fin 500) 2)\<rparr>"
  by (simp add: pid_eval_defs)

lemma tick3:
  "updatePowerBudget (pid_state (pid_status (Fin 3) (Fin 0) 4 (Fin 875) (Fin 500) 2)) skin_temp (ex_sensor tran_info)
     ex_cdevs 100 SEVERE False []
   = Some \<lparr>power_budget = Fin 750, logged_transient = Fin 250,
            after = pid_state (pid_status (Fin 3) (Fin 0) 4 (Fin 750) (Fin 500) 1)\<rparr>"
  by (simp add: pid_eval_defs)

lemma tick4:
  "updatePowerBudget (pid_state (pid_status (Fin 3) (Fin 0) 4 (Fin 750) (Fin 500) 1)) skin_temp (ex_sensor tran_info)
     ex_cdevs 100 SEVERE False []
   = Some \<lparr>power_budget = Fin 625, logged_transient = Fin 125,
            after = pid_state (pid_status (Fin 3) (Fin 0) 4 (Fin 625) (Fin 500) 0)\<rparr>"
  by (simp add: pid_eval_defs)

lemma tick5:
  "updatePowerBudget (pid_state (pid_status (Fin 3) (Fin 0) 4 (Fin 625) (Fin 500) 0)) skin_temp (ex_sensor tran_info)
     ex_cdevs 100 SEVERE False []
   = Some \<lparr>power_budget = Fin 500, logged_transient = Fin 0,
            after = pid_state (pid_status (Fin 3) (Fin 0) 4 (Fin 500) (Fin 500) 0)\<rparr>"
  by (simp add: pid_eval_defs)

lemma pid_budget_cases:
  assumes "pid_budget tt st temp si ti cm time mt preds rel thr t = Some x"
  shows "(x = Inl (min_alloc_power ti ! t) \<and> mt \<and>
            fle (fsub (hot_thresholds si ! t) (temp_value temp)) (Fin 0)) \<or>
         (\<exists>raw i2. x = Inr (fclamp raw (min_alloc_power ti ! t) (max_alloc_power ti ! t),
                            st\<lparr>i_budget := i2,
                               prev_err := fsub (hot_thresholds si ! t) (temp_value temp)\<rparr>) \<and>
            \<not> (mt \<and> fle (fsub (hot_thresholds si ! t) (temp_value temp)) (Fin 0)))"
proof (cases "mt \<and> fle (fsub (hot_thresholds si ! t) (temp_value temp)) (Fin 0)")
  case True
  with assms show ?thesis by (simp add: pid_budget_def Let_def)
next
  case False
  with assms show ?thesis
    by (simp add: pid_budget_def Let_def bind_eq_Some_conv) blast
qed

lemma updatePowerBudget_Some:
  assumes "map_at (thermal_throttling_status_map tt) (temp_name temp) = Some st"
    and "curr_severity \<noteq> NONE"
    and "throttling_info si = Some ti"
    and "getTargetStateOfPID si curr_severity = Some s"
    and "updatePowerBudget tt temp si cm time curr_severity mt preds = Some r"
    and "changed = (prev_target st \<noteq> size_t NONE \<and> s \<noteq> prev_target st \<and> cfg_tran_cycle ti > 0)"
    and "st1 = (if changed then st\<lparr>tran_cycle := cfg_tran_cycle ti - 1\<rparr> else st)\<lparr>prev_target := s\<rparr>"
  shows "\<exists>rel thr x.
      pid_budget tt st1 temp si ti cm time mt preds rel thr s = Some x \<and>
      (\<forall>early. x = Inl early \<longrightarrow>
           r = \<lparr>power_budget = early, logged_transient = Fin 0,
                after = set_status tt (temp_name temp) st1\<rparr>) \<and>
      (\<forall>clamped st2. x = Inr (clamped, st2) \<longrightarrow>
           (\<exists>final added st3.
             blend_transient ti changed clamped st2 = Some (final, added, st3) \<and>
             r = \<lparr>power_budget = final, logged_transient = added,
                  after = set_status tt (temp_name temp) st3\<rparr>))"
proof -
  have eq: "updatePowerBudget tt temp si cm time curr_severity mt preds =
      throttle_status_loop (pid_cdev_request_map st) (size_t curr_severity)
        (if profile_map ti = [] \<or> \<not> count_key (profile_map ti) (profile st)
         then binded_cdev_info_map ti else active_bindings ti (profile st)) (True, True) \<bind>
      (\<lambda>(rel, thr).
         pid_budget tt st1 temp si ti cm time mt preds rel thr s \<bind>
         (\<lambda>x. case x of
           Inl early \<Rightarrow>
             Some \<lparr>power_budget = early, logged_transient = Fin 0,
                   after = set_status tt (temp_name temp) st1\<rparr>
         | Inr (clamped, st2) \<Rightarrow>
             blend_transient ti changed clamped st2 \<bind>
               (\<lambda>(final, added, st3).
                  Some \<lparr>power_budget = final, logged_transient = added,
                        after = set_status tt (temp_name temp) st3\<rparr>)))"
    unfolding assms(6,7) using assms(1-4)
    by (simp add: updatePowerBudget_def Let_def)
  from assms(5) obtain rel thr x where
    x: "pid_budget tt st1 temp si ti cm time mt preds rel thr s = Some x"
    and fin: "(case x of
           Inl early \<Rightarrow>
             Some \<lparr>power_budget = early, logged_transient = Fin 0,
                   after = set_status tt (temp_name temp) st1\<rparr>
         | Inr (clamped, st2) \<Rightarrow>
             blend_transient ti changed clamped st2 \<bind>
               (\<lambda>(final, added, st3).
                  Some \<lparr>power_budget = final, logged_transient = added,
                        after = set_status tt (temp_name temp) st3\<rparr>)) = Some r"
    unfolding eq by (auto simp: bind_eq_Some_conv)
  have A: "\<forall>early. x = Inl early \<longrightarrow>
           r = \<lparr>power_budget = early, logged_transient = Fin 0,
                after = set_status tt (temp_name temp) st1\<rparr>"
    using fin by auto
  have B: "\<forall>clamped st2. x = Inr (clamped, st2) \<longrightarrow>
           (\<exists>final added st3.
             blend_transient ti changed clamped st2 = Some (final, added, st3) \<and>
             r = \<lparr>power_budget = final, logged_transient = added,
                  after = set_status tt (temp_name temp) st3\<rparr>)"
    using fin by (auto simp: bind_eq_Some_conv)
  from x A B show ?thesis by blast
qed

lemma fclamp_range:
  "fle lo hi \<Longrightarrow> \<not> isnan (fclamp v lo hi) \<Longrightarrow> fle lo (fclamp v lo hi) \<and> fle (fclamp v lo hi) hi"
  by (cases v; cases lo; cases hi) (auto simp: fclamp_def)

lemma fle_refl_of: "fle lo hi \<Longrightarrow> fle lo lo"
  by (cases lo; cases hi) auto

text \<open>
  C4 (as amended). On a tick of a registered sensor at a severity other than NONE on which
  no transient is blended in (\<open>tran_cycle\<close> is 0 and the target state does not start a
  transient), with \<open>min_alloc_power[s] \<le> max_alloc_power[s]\<close> at the target state \<open>s\<close>, a
  returned budget that is not NaN lies between \<open>min_alloc_power[s]\<close> and
  \<open>max_alloc_power[s]\<close>; it is stored as \<open>prev_power_budget\<close> unless the tick returned
  early under \<open>max_throttling\<close>.
\<close>

theorem updatePowerBudget_within_alloc:
  assumes "map_at (thermal_throttling_status_map tt) (temp_name temp) = Some st"
    and "curr_severity \<noteq> NONE"
    and "throttling_info sensor_info = Some ti"
    and "getTargetStateOfPID sensor_info curr_severity = Some s"
    and "updatePowerBudget tt temp sensor_info cooling_device_info_map time_elapsed_ms
           curr_severity max_throttling sensor_predictions = Some r"
    and "tran_cycle st = 0"
    and "prev_target st = size_t NONE \<or> s = prev_target st \<or> cfg_tran_cycle ti \<le> 1"
    and "fle (min_alloc_power ti ! s) (max_alloc_power ti ! s)"
    and "\<not> isnan (power_budget r)"
  shows "fle (min_alloc_power ti ! s) (power_budget r) \<and>
         fle (power_budget r) (max_alloc_power ti ! s) \<and>
         (prev_power_budget (status_of (after r) (temp_name temp)) = power_budget r \<or>
          max_throttling \<and>
          fle (fsub (hot_thresholds sensor_info ! s) (temp_value temp)) (Fin 0))"
proof -
  define changed where
    "changed = (prev_target st \<noteq> size_t NONE \<and> s \<noteq> prev_target st \<and> cfg_tran_cycle ti > 0)"
  define st1 where
    "st1 = (if changed then st\<lparr>tran_cycle := cfg_tran_cycle ti - 1\<rparr> else st)\<lparr>prev_target := s\<rparr>"
  have tc: "tran_cycle st1 = 0"
    using assms(6,7) by (auto simp: st1_def changed_def)
  from updatePowerBudget_Some [OF assms(1-5) changed_def st1_def]
  obtain rel thr x where
    x: "pid_budget tt st1 temp sensor_info ti cooling_device_info_map time_elapsed_ms
          max_throttling sensor_predictions rel thr s = Some x"
    and A: "\<forall>early. x = Inl early \<longrightarrow>
           r = \<lparr>power_budget = early, logged_transient = Fin 0,
                after = set_status tt (temp_name temp) st1\<rparr>"
    and B: "\<forall>clamped st2. x = Inr (clamped, st2) \<longrightarrow>
           (\<exists>final added st3.
             blend_transient ti changed clamped st2 = Some (final, added, st3) \<and>
             r = \<lparr>power_budget = final, logged_transient = added,
                  after = set_status tt (temp_name temp) st3\<rparr>)"
    by blast
  from pid_budget_cases [OF x] show ?thesis
  proof
    assume e: "x = Inl (min_alloc_power ti ! s) \<and> max_throttling \<and>
            fle (fsub (hot_thresholds sensor_info ! s) (temp_value temp)) (Fin 0)"
    with A have "power_budget r = min_alloc_power ti ! s" by simp
    with e assms(8) fle_refl_of [OF assms(8)] show ?thesis by simp
  next
    assume "\<exists>raw i2. x = Inr (fclamp raw (min_alloc_power ti ! s) (max_alloc_power ti ! s),
                            st1\<lparr>i_budget := i2,
                               prev_err := fsub (hot_thresholds sensor_info ! s) (temp_value temp)\<rparr>) \<and>
            \<not> (max_throttling \<and> fle (fsub (hot_thresholds sensor_info ! s) (temp_value temp)) (Fin 0))"
    then obtain raw i2 where
      xr: "x = Inr (fclamp raw (min_alloc_power ti ! s) (max_alloc_power ti ! s),
                            st1\<lparr>i_budget := i2,
                               prev_err := fsub (hot_thresholds sensor_info ! s) (temp_value temp)\<rparr>)"
      by blast
    let ?c = "fclamp raw (min_alloc_power ti ! s) (max_alloc_power ti ! s)"
    from B xr obtain final added st3 where
      bl: "blend_transient ti changed ?c
             (st1\<lparr>i_budget := i2,
                  prev_err := fsub (hot_thresholds sensor_info ! s) (temp_value temp)\<rparr>)
           = Some (final, added, st3)"
      and r: "r = \<lparr>power_budget = final, logged_transient = added,
                  after = set_status tt (temp_name temp) st3\<rparr>"
      by blast
    from bl tc have "final = ?c" and "prev_power_budget st3 = ?c"
      by (auto simp: blend_transient_def Let_def split: if_splits)
    with r assms(9) fclamp_range [OF assms(8), of raw] show ?thesis
      by (simp add: status_of_def set_status_at)
  qed
qed

theorem updatePowerBudget_within_alloc_witness:
  "updatePowerBudget (pid_state (pid_status NaN NaN 0 NaN (Fin 0) 0)) skin_temp
     (ex_sensor tran_info) ex_cdevs 100 LIGHT False []
     = Some \<lparr>power_budget = Fin 1000, logged_transient = Fin 0,
              after = pid_state (pid_status (Fin (- 7)) (Fin 0) 2 (Fin 1000) (Fin 0) 0)\<rparr> \<and>
   getTargetStateOfPID (ex_sensor tran_info) LIGHT = Some 2 \<and>
   min_alloc_power tran_info ! 2 = Fin 0 \<and> max_alloc_power tran_info ! 2 = Fin 4000 \<and>
   fle (min_alloc_power tran_info ! 2) (Fin 1000) \<and> fle (Fin 1000) (max_alloc_power tran_info ! 2)"
proof -
  let ?st = "pid_status NaN NaN 0 NaN (Fin 0) 0"
  have 1: "map_at (thermal_throttling_status_map (pid_state ?st)) (temp_name skin_temp) = Some ?st"
    by (simp add: pid_state_def skin_temp_def map_at_def)
  have 2: "LIGHT \<noteq> NONE" by simp
  have 3: "throttling_info (ex_sensor tran_info) = Some tran_info"
    by (simp add: ex_sensor_def)
  have 4: "getTargetStateOfPID (ex_sensor tran_info) LIGHT = Some 2"
    by (simp add: getTargetStateOfPID_def ex_sensor_def tran_info_def ex_info_def seven_def
        enum_range_def)
  have 6: "tran_cycle ?st = 0" by (simp add: pid_status_def)
  have 7: "prev_target ?st = size_t NONE \<or> 2 = prev_target ?st \<or> cfg_tran_cycle tran_info \<le> 1"
    by (simp add: pid_status_def)
  have 8: "fle (min_alloc_power tran_info ! 2) (max_alloc_power tran_info ! 2)"
    by (simp add: tran_info_def ex_info_def seven_def)
  have 9: "\<not> isnan (power_budget \<lparr>power_budget = Fin 1000, logged_transient = Fin 0,
              after = pid_state (pid_status (Fin (- 7)) (Fin 0) 2 (Fin 1000) (Fin 0) 0)\<rparr>)"
    by simp
  have m: "min_alloc_power tran_info ! 2 = Fin 0" "max_alloc_power tran_info ! 2 = Fin 4000"
    by (simp_all add: tran_info_def ex_info_def seven_def)
  from updatePowerBudget_within_alloc [OF 1 2 3 4 tick1 6 7 8 9] tick1 4 m
  show ?thesis by simp
qed

text \<open>
  C4 as stated fails: after a first tick at LIGHT (budget 1000, target state 2), a tick at
  SEVERE has target state 4, where the maximum is 500; the budget is clamped to 500, three
  quarters of the transient of 500 are added, and the tick returns 875.
\<close>

theorem updatePowerBudget_exceeds_max_alloc:
  "registerThermalThrottling initial ''skin'' (Some tran_info) ex_cdevs
     = (True, pid_state (pid_status NaN NaN 0 NaN (Fin 0) 0)) \<and>
   map_option after
     (updatePowerBudget (pid_state (pid_status NaN NaN 0 NaN (Fin 0) 0)) skin_temp
        (ex_sensor tran_info) ex_cdevs 100 LIGHT False [])
     = Some (pid_state (pid_status (Fin (- 7)) (Fin 0) 2 (Fin 1000) (Fin 0) 0)) \<and>
   getTargetStateOfPID (ex_sensor tran_info) SEVERE = Some 4 \<and>
   max_alloc_power tran_info ! 4 = Fin 500 \<and>
   map_option power_budget
     (updatePowerBudget (pid_state (pid_status (Fin (- 7)) (Fin 0) 2 (Fin 1000) (Fin 0) 0)) skin_temp
        (ex_sensor tran_info) ex_cdevs 100 SEVERE False [])
     = Some (Fin 875) \<and>
   \<not> fle (Fin 875) (max_alloc_power tran_info ! 4)"
proof -
  have 4: "getTargetStateOfPID (ex_sensor tran_info) SEVERE = Some 4"
    by (simp add: getTargetStateOfPID_def ex_sensor_def tran_info_def ex_info_def seven_def
        enum_range_def)
  have m: "max_alloc_power tran_info ! 4 = Fin 500"
    by (simp add: tran_info_def ex_info_def seven_def)
  show ?thesis
    by (simp add: tran_registered tick1 tick2 4 m)
qed

lemma fdiv_of_int:
  "fdiv (of_int_f k) (of_int_f n) = Some f \<Longrightarrow> n \<noteq> 0 \<and> f = Fin (real_of_int k / real_of_int n)"
  by (auto simp: of_int_f_def split: if_splits)

text \<open>
  C5 (as amended). On a tick at a severity other than NONE, a change of the target state
  (from a previous target other than NONE, with a configured \<open>tran_cycle\<close> of \<open>n > 0\<close>)
  sets the countdown \<open>tran_cycle\<close> to \<open>n - 1\<close>. If the tick returns early under
  \<open>max_throttling\<close> (the error is at most 0), it returns \<open>min_alloc_power\<close> with nothing
  added, and \<open>budget_transient\<close>, the countdown and \<open>prev_power_budget\<close> stay as they are
  (the countdown at \<open>n - 1\<close> after a change). Otherwise a change sets \<open>budget_transient\<close> to
  \<open>prev_power_budget\<close> minus the clamped budget; with the countdown at \<open>k\<close>, the tick adds
  \<open>budget_transient * k / n\<close> and leaves \<open>tran_cycle\<close> at \<open>k - 1\<close> when \<open>k\<close> is not 0, and
  adds nothing when it is; the returned budget is stored as \<open>prev_power_budget\<close>. With
  \<open>n = 4\<close> and no early return, the tick of the change adds 3/4 of the delta, the next two
  ticks 2/4 and 1/4, and the fourth tick 0.
\<close>

theorem transient_blending:
  assumes "map_at (thermal_throttling_status_map tt) (temp_name temp) = Some st"
    and "curr_severity \<noteq> NONE"
    and "throttling_info sensor_info = Some ti"
    and "getTargetStateOfPID sensor_info curr_severity = Some s"
    and "updatePowerBudget tt temp sensor_info cooling_device_info_map time_elapsed_ms
           curr_severity max_throttling sensor_predictions = Some r"
    and "changed = (prev_target st \<noteq> size_t NONE \<and> s \<noteq> prev_target st \<and> cfg_tran_cycle ti > 0)"
    and "k = (if changed then cfg_tran_cycle ti - 1 else tran_cycle st)"
    and "early = (max_throttling \<and>
                  fle (fsub (hot_thresholds sensor_info ! s) (temp_value temp)) (Fin 0))"
  shows "\<exists>st'. map_at (thermal_throttling_status_map (after r)) (temp_name temp) = Some st' \<and>
           (if early
            then power_budget r = min_alloc_power ti ! s \<and> logged_transient r = Fin 0 \<and>
                 budget_transient st' = budget_transient st \<and> tran_cycle st' = k \<and>
                 prev_power_budget st' = prev_power_budget st
            else \<exists>raw clamped.
                 clamped = fclamp raw (min_alloc_power ti ! s) (max_alloc_power ti ! s) \<and>
                 budget_transient st' =
                   (if changed then fsub (prev_power_budget st) clamped else budget_transient st) \<and>
                 (if k \<noteq> 0
                  then cfg_tran_cycle ti \<noteq> 0 \<and>
                       logged_transient r =
                         fmul (budget_transient st')
                           (Fin (real_of_int k / real_of_int (cfg_tran_cycle ti))) \<and>
                       power_budget r = fadd clamped (logged_transient r) \<and>
                       tran_cycle st' = k - 1
                  else logged_transient r = Fin 0 \<and> power_budget r = clamped \<and>
                       tran_cycle st' = 0) \<and>
                 prev_power_budget st' = power_budget r)"
proof -
  define st1 where
    "st1 = (if changed then st\<lparr>tran_cycle := cfg_tran_cycle ti - 1\<rparr> else st)\<lparr>prev_target := s\<rparr>"
  have tc: "tran_cycle st1 = k"
    and bt: "budget_transient st1 = budget_transient st"
    and pb: "prev_power_budget st1 = prev_power_budget st"
    using assms(7) by (auto simp: st1_def)
  from updatePowerBudget_Some [OF assms(1-5) assms(6) st1_def]
  obtain rel thr x where
    x: "pid_budget tt st1 temp sensor_info ti cooling_device_info_map time_elapsed_ms
          max_throttling sensor_predictions rel thr s = Some x"
    and A: "\<forall>e. x = Inl e \<longrightarrow>
           r = \<lparr>power_budget = e, logged_transient = Fin 0,
                after = set_status tt (temp_name temp) st1\<rparr>"
    and B: "\<forall>clamped st2. x = Inr (clamped, st2) \<longrightarrow>
           (\<exists>final added st3.
             blend_transient ti changed clamped st2 = Some (final, added, st3) \<and>
             r = \<lparr>power_budget = final, logged_transient = added,
                  after = set_status tt (temp_name temp) st3\<rparr>)"
    by blast
  show ?thesis
  proof (cases early)
    case True
    with pid_budget_cases [OF x] assms(8) have "x = Inl (min_alloc_power ti ! s)" by blast
    with A have r: "r = \<lparr>power_budget = min_alloc_power ti ! s, logged_transient = Fin 0,
                after = set_status tt (temp_name temp) st1\<rparr>"
      by simp
    have "map_at (thermal_throttling_status_map (after r)) (temp_name temp) = Some st1"
      by (simp add: r set_status_at)
    with True tc bt pb r show ?thesis
      by (intro exI [of _ st1]) simp
  next
    case False
    with pid_budget_cases [OF x] assms(8) obtain raw i2 where
      xr: "x = Inr (fclamp raw (min_alloc_power ti ! s) (max_alloc_power ti ! s),
                    st1\<lparr>i_budget := i2,
                        prev_err := fsub (hot_thresholds sensor_info ! s) (temp_value temp)\<rparr>)"
      by blast
    let ?c = "fclamp raw (min_alloc_power ti ! s) (max_alloc_power ti ! s)"
    let ?st2 = "st1\<lparr>i_budget := i2,
                    prev_err := fsub (hot_thresholds sensor_info ! s) (temp_value temp)\<rparr>"
    from B xr obtain final added st3 where
      bl: "blend_transient ti changed ?c ?st2 = Some (final, added, st3)"
      and r: "r = \<lparr>power_budget = final, logged_transient = added,
                  after = set_status tt (temp_name temp) st3\<rparr>"
      by blast
    have st3: "map_at (thermal_throttling_status_map (after r)) (temp_name temp) = Some st3"
      by (simp add: r set_status_at)
    have b3: "budget_transient st3 =
               (if changed then fsub (prev_power_budget st) ?c else budget_transient st)"
      using bl bt pb
      by (auto simp: blend_transient_def Let_def bind_eq_Some_conv split: if_splits)
    have p3: "prev_power_budget st3 = final"
      using bl
      by (auto simp: blend_transient_def Let_def bind_eq_Some_conv split: if_splits)
    have rest: "(if k \<noteq> 0
              then cfg_tran_cycle ti \<noteq> 0 \<and>
                   added = fmul (budget_transient st3)
                       (Fin (real_of_int k / real_of_int (cfg_tran_cycle ti))) \<and>
                   final = fadd ?c added \<and> tran_cycle st3 = k - 1
              else added = Fin 0 \<and> final = ?c \<and> tran_cycle st3 = 0)"
    proof (cases "k = 0")
      case True
      with bl tc show ?thesis
        by (auto simp: blend_transient_def Let_def split: if_splits)
    next
      case False
      with bl tc obtain fraction where
        f: "fdiv (of_int_f k) (of_int_f (cfg_tran_cycle ti)) = Some fraction"
        and e: "final = fadd ?c (fmul (budget_transient st3) fraction)"
           "added = fmul (budget_transient st3) fraction" "tran_cycle st3 = k - 1"
        by (auto simp: blend_transient_def Let_def bind_eq_Some_conv split: if_splits)
      from fdiv_of_int [OF f] e False show ?thesis by simp
    qed
    have "\<exists>raw clamped.
                 clamped = fclamp raw (min_alloc_power ti ! s) (max_alloc_power ti ! s) \<and>
                 budget_transient st3 =
                   (if changed then fsub (prev_power_budget st) clamped else budget_transient st) \<and>
                 (if k \<noteq> 0
                  then cfg_tran_cycle ti \<noteq> 0 \<and>
                       logged_transient r =
                         fmul (budget_transient st3)
                           (Fin (real_of_int k / real_of_int (cfg_tran_cycle ti))) \<and>
                       power_budget r = fadd clamped (logged_transient r) \<and>
                       tran_cycle st3 = k - 1
                  else logged_transient r = Fin 0 \<and> power_budget r = clamped \<and>
                       tran_cycle st3 = 0) \<and>
                 prev_power_budget st3 = power_budget r"
      using b3 rest p3 r by (intro exI [of _ raw] exI [of _ ?c]) simp
    with st3 False show ?thesis
      by (intro exI [of _ st3]) simp
  qed
qed

lemma tick_max_throttling:
  "updatePowerBudget (pid_state (pid_status (Fin (- 7)) (Fin 0) 2 (Fin 1000) (Fin 0) 0)) hot_temp
     (ex_sensor tran_info) ex_cdevs 100 SEVERE True []
   = Some \<lparr>power_budget = Fin 0, logged_transient = Fin 0,
            after = pid_state (pid_status (Fin (- 7)) (Fin 0) 4 (Fin 1000) (Fin 0) 3)\<rparr>"
  by (simp add: pid_eval_defs hot_temp_def)

theorem transient_blending_witness:
  "updatePowerBudget (pid_state (pid_status (Fin (- 7)) (Fin 0) 2 (Fin 1000) (Fin 0) 0)) skin_temp
     (ex_sensor tran_info) ex_cdevs 100 SEVERE False []
     = Some \<lparr>power_budget = Fin 875, logged_transient = Fin 375,
              after = pid_state (pid_status (Fin 3) (Fin 0) 4 (Fin 875) (Fin 500) 2)\<rparr> \<and>
   cfg_tran_cycle tran_info = 4 \<and>
   (\<exists>st'. map_at (thermal_throttling_status_map
                (pid_state (pid_status (Fin 3) (Fin 0) 4 (Fin 875) (Fin 500) 2))) ''skin''
        = Some st' \<and>
      (\<exists>raw clamped.
         clamped = fclamp raw (min_alloc_power tran_info ! 4) (max_alloc_power tran_info ! 4) \<and>
         budget_transient st' = fsub (Fin 1000) clamped \<and>
         Fin 375 = fmul (budget_transient st') (Fin (3 / 4)) \<and>
         Fin 875 = fadd clamped (Fin 375) \<and>
         tran_cycle st' = 2 \<and> prev_power_budget st' = Fin 875)) \<and>
   updatePowerBudget (pid_state (pid_status (Fin (- 7)) (Fin 0) 2 (Fin 1000) (Fin 0) 0)) hot_temp
     (ex_sensor tran_info) ex_cdevs 100 SEVERE True []
     = Some \<lparr>power_budget = Fin 0, logged_transient = Fin 0,
              after = pid_state (pid_status (Fin (- 7)) (Fin 0) 4 (Fin 1000) (Fin 0) 3)\<rparr> \<and>
   (\<exists>st'. map_at (thermal_throttling_status_map
                (pid_state (pid_status (Fin (- 7)) (Fin 0) 4 (Fin 1000) (Fin 0) 3))) ''skin''
        = Some st' \<and>
      Fin 0 = min_alloc_power tran_info ! 4 \<and>
      budget_transient st' = Fin 0 \<and> tran_cycle st' = 3 \<and> prev_power_budget st' = Fin 1000)"
proof -
  let ?st = "pid_status (Fin (- 7)) (Fin 0) 2 (Fin 1000) (Fin 0) 0"
  have 1: "map_at (thermal_throttling_status_map (pid_state ?st)) (temp_name skin_temp) = Some ?st"
    by (simp add: pid_state_def skin_temp_def map_at_def)
  have h1: "map_at (thermal_throttling_status_map (pid_state ?st)) (temp_name hot_temp) = Some ?st"
    by (simp add: pid_state_def hot_temp_def map_at_def)
  have 2: "SEVERE \<noteq> NONE" by simp
  have 3: "throttling_info (ex_sensor tran_info) = Some tran_info"
    by (simp add: ex_sensor_def)
  have 4: "getTargetStateOfPID (ex_sensor tran_info) SEVERE = Some 4"
    by (simp add: getTargetStateOfPID_def ex_sensor_def tran_info_def ex_info_def seven_def
        enum_range_def)
  have 6: "True = (prev_target ?st \<noteq> size_t NONE \<and> 4 \<noteq> prev_target ?st \<and>
                   cfg_tran_cycle tran_info > 0)"
    by (simp add: pid_status_def tran_info_def)
  have 7: "3 = (if True then cfg_tran_cycle tran_info - 1 else tran_cycle ?st)"
    by (simp add: tran_info_def)
  have 8: "False = (False \<and>
             fle (fsub (hot_thresholds (ex_sensor tran_info) ! 4) (temp_value skin_temp)) (Fin 0))"
    by simp
  have h8: "True = (True \<and>
             fle (fsub (hot_thresholds (ex_sensor tran_info) ! 4) (temp_value hot_temp)) (Fin 0))"
    by (simp add: ex_sensor_def hot_temp_def)
  have n: "cfg_tran_cycle tran_info = 4" by (simp add: tran_info_def)
  have p: "prev_power_budget ?st = Fin 1000" "budget_transient ?st = Fin 0"
    by (simp_all add: pid_status_def)
  note a = transient_blending [OF 1 2 3 4 tick2 6 7 8]
  note b = transient_blending [OF h1 2 3 4 tick_max_throttling 6 7 h8]
  from a b tick2 tick_max_throttling n p
  show ?thesis by (simp add: skin_temp_def hot_temp_def)
qed

text \<open>
  C5 as stated fails: with \<open>n = 4\<close> and a delta of 500, the tick on which the target
  changes adds 375 (3/4, not 4/4), the next ticks add 250 and 125, and the fourth tick
  already adds 0.
\<close>

theorem transient_fractions_start_below_one:
  "cfg_tran_cycle tran_info = 4 \<and>
   prev_target (pid_status (Fin (- 7)) (Fin 0) 2 (Fin 1000) (Fin 0) 0) = 2 \<and>
   getTargetStateOfPID (ex_sensor tran_info) SEVERE = Some 4 \<and>
   updatePowerBudget (pid_state (pid_status (Fin (- 7)) (Fin 0) 2 (Fin 1000) (Fin 0) 0)) skin_temp
     (ex_sensor tran_info) ex_cdevs 100 SEVERE False []
     = Some \<lparr>power_budget = Fin 875, logged_transient = Fin 375,
              after = pid_state (pid_status (Fin 3) (Fin 0) 4 (Fin 875) (Fin 500) 2)\<rparr> \<and>
   updatePowerBudget (pid_state (pid_status (Fin 3) (Fin 0) 4 (Fin 875) (Fin 500) 2)) skin_temp
     (ex_sensor tran_info) ex_cdevs 100 SEVERE False []
     = Some \<lparr>power_budget = Fin 750, logged_transient = Fin 250,
              after = pid_state (pid_status (Fin 3) (Fin 0) 4 (Fin 750) (Fin 500) 1)\<rparr> \<and>
   updatePowerBudget (pid_state (pid_status (Fin 3) (Fin 0) 4 (Fin 750) (Fin 500) 1)) skin_temp
     (ex_sensor tran_info) ex_cdevs 100 SEVERE False []
     = Some \<lparr>power_budget = Fin 625, logged_transient = Fin 125,
              after = pid_state (pid_status (Fin 3) (Fin 0) 4 (Fin 625) (Fin 500) 0)\<rparr> \<and>
   updatePowerBudget (pid_state (pid_status (Fin 3) (Fin 0) 4 (Fin 625) (Fin 500) 0)) skin_temp
     (ex_sensor tran_info) ex_cdevs 100 SEVERE False []
     = Some \<lparr>power_budget = Fin 500, logged_transient = Fin 0,
              after = pid_state (pid_status (Fin 3) (Fin 0) 4 (Fin 500) (Fin 500) 0)\<rparr> \<and>
   fsub (Fin 1000) (Fin 500) = Fin 500 \<and>
   Fin 375 \<noteq> fmul (Fin 500) (Fin (4 / 4))"
proof -
  have 4: "getTargetStateOfPID (ex_sensor tran_info) SEVERE = Some 4"
    by (simp add: getTargetStateOfPID_def ex_sensor_def tran_info_def ex_info_def seven_def
        enum_range_def)
  have n: "cfg_tran_cycle tran_info = 4" by (simp add: tran_info_def)
  have p: "prev_target (pid_status (Fin (- 7)) (Fin 0) 2 (Fin 1000) (Fin 0) 0) = 2"
    by (simp add: pid_status_def)
  show ?thesis
    by (simp add: 4 n p tick2 tick3 tick4 tick5)
qed

lemma two_sensors_reached:
  "registerThermalThrottling limit_voted ''soc'' (Some pct_info) ex_cdevs = (True, two_sensors)"
  by (simp add: pct_info_def registerThermalThrottling_def limit_voted_def two_sensors_def
      count_key_def ex_cdevs_def pid_status_def
      ex_info_def pid_binding_def ex_binding_def seven_def register_cdev_def
      new_status_def registry_insert0_def)

text \<open>
  C6. The code at an input where the claim asks for another value: the maximum vote for
  \<open>cpu\<close> is 3 and \<open>state2power[3]\<close> is 500, \<open>i_default_pct\<close> is 100, and the first tick of
  \<open>soc\<close> sets \<open>i_budget\<close> to \<open>state2power[1] = 1500\<close>.
\<close>

theorem i_budget_initialised_from_state_1:
  "getCdevMaxRequest two_sensors ''cpu'' = Some (Some 3) \<and>
   vec_at (state2power ex_cdev) 3 = Some (Fin 500) \<and>
   vec_at (state2power ex_cdev) 1 = Some (Fin 1500) \<and>
   i_default_pct pct_info = Fin 100 \<and>
   init_i_budget two_sensors pct_info ex_cdevs NaN = Some (Fin 1500) \<and>
   map_option (\<lambda>r. i_budget (status_of (after r) ''soc''))
     (updatePowerBudget two_sensors soc_temp (ex_sensor pct_info) ex_cdevs 100 LIGHT False [])
     = Some (Fin 1500)"
  by (simp add: getCdevMaxRequest_def two_sensors_def multiset_begin_def vec_at_def ex_cdev_def
      pct_info_def init_i_budget_def ex_cdevs_def ex_info_def seven_def pid_binding_def
      ex_binding_def updatePowerBudget_def pid_status_def limit_status_def ex_sensor_def
      soc_temp_def map_at_def count_key_def getTargetStateOfPID_def enum_range_def
      pid_budget_def blend_transient_def fclamp_def fgt_def set_status_def of_int_f_def Let_def
      status_of_def)

section \<open>allocatePowerToCdev: properties\<close>

lemma link_registered:
  "registerThermalThrottling initial ''skin'' (Some link_info) ex_cdevs
     = (True, pid_state (pid_status NaN NaN 0 NaN (Fin 0) 0))"
  by (simp add: link_info_def link_binding_def registerThermalThrottling_def
      initial_def count_key_def ex_cdevs_def pid_state_def pid_status_def
      ex_info_def pid_binding_def ex_binding_def seven_def register_cdev_def
      new_status_def registry_insert0_def)

lemma link_budget:
  "updatePowerBudget (pid_state (pid_status NaN NaN 0 NaN (Fin 0) 0)) skin_temp (ex_sensor link_info)
     ex_cdevs 100 LIGHT False []
   = Some \<lparr>power_budget = Fin 1000, logged_transient = Fin 0,
            after = pid_state (pid_status (Fin (- 7)) (Fin 0) 2 (Fin 1000) (Fin 0) 0)\<rparr>"
  by (simp add: updatePowerBudget_def pid_state_def pid_status_def link_info_def link_binding_def ex_sensor_def
  skin_temp_def map_at_def count_key_def ex_info_def pid_binding_def ex_binding_def seven_def
  getTargetStateOfPID_def enum_range_def pid_budget_def init_i_budget_def blend_transient_def
  fclamp_def fgt_def set_status_def of_int_f_def Let_def)

lemma link_allocate_nan:
  "allocatePowerToCdev (pid_state (pid_status NaN NaN 0 NaN (Fin 0) 0)) skin_temp
     (ex_sensor link_info) LIGHT 100 (rail_status NaN) ex_cdevs False []
   = Some (True, pid_state (link_status 1000 0))"
  by (simp add: allocatePowerToCdev_def link_budget)
     (simp add: pid_state_def pid_status_def link_info_def link_binding_def ex_sensor_def
        skin_temp_def map_at_def count_key_def ex_info_def pid_binding_def ex_binding_def seven_def
        status_of_def active_bindings_def allocate_while_def allocate_body_def get_power_data_def
        rail_status_def end_of_pass_def allocation_pass_def ex_cdevs_def ex_cdev_def vec_at_def
        getCdevMaxRequest_def multiset_begin_def INT_MAX_def INT_MIN_def fgt_def
        set_status_def link_status_def slew_limits_def Let_def)

lemma status_of_pid_state: "status_of (pid_state st) (temp_name skin_temp) = st"
  by (simp add: status_of_def pid_state_def skin_temp_def map_at_def)

lemma count_key_pid_state:
  "count_key (thermal_throttling_status_map (pid_state st)) (temp_name skin_temp)"
  by (simp add: count_key_def pid_state_def skin_temp_def)

lemma link_request_by_power:
  "updateCdevRequestByPower (pid_state (link_status 1000 0)) (temp_name skin_temp) ex_cdevs
     = Some (pid_state (link_status 1000 2))"
  by (simp add: updateCdevRequestByPower_def status_of_pid_state)
     (simp add: pid_state_def pid_status_def map_at_def link_status_def
        ex_cdevs_def ex_cdev_def fge_def of_int_f_def set_status_def skin_temp_def)

lemma link_tick_nan:
  "thermalThrottlingUpdate (pid_state (pid_status NaN NaN 0 NaN (Fin 0) 0)) [] skin_temp
     (ex_sensor link_info) LIGHT 100 (rail_status NaN) ex_cdevs False []
   = Some (pid_state (link_status 1000 2))"
proof -
  have ti: "throttling_info (ex_sensor link_info) = Some link_info"
    by (simp add: ex_sensor_def)
  have pm: "profile_map link_info = []"
    by (simp add: link_info_def ex_info_def)
  have m: "pid_power_budget_map (pid_status NaN NaN 0 NaN (Fin 0) 0) \<noteq> []"
    "hardlimit_cdev_request_map (link_status 1000 2) = []"
    "throttling_release_map (link_status 1000 2) = []"
    by (simp_all add: pid_status_def link_status_def)
  show ?thesis
    by (simp add: thermalThrottlingUpdate_def count_key_pid_state ti pm status_of_pid_state m
        link_allocate_nan link_request_by_power)
qed

lemma link_allocate_valid:
  "allocatePowerToCdev (pid_state (pid_status NaN NaN 0 NaN (Fin 0) 0)) skin_temp
     (ex_sensor link_info) LIGHT 100 (rail_status (Fin 800)) ex_cdevs False []
   = Some (False, pid_state (link_status INT_MAX 0))"
  by (simp add: allocatePowerToCdev_def link_budget)
     (simp add: pid_state_def pid_status_def link_info_def link_binding_def ex_sensor_def
        skin_temp_def map_at_def count_key_def ex_info_def pid_binding_def ex_binding_def seven_def
        status_of_def active_bindings_def allocate_while_def allocate_body_def get_power_data_def
        rail_status_def set_status_def link_status_def Let_def)

lemma link_budget_second:
  "updatePowerBudget (pid_state (link_status 1000 2)) skin_temp (ex_sensor link_info)
     ex_cdevs 100 LIGHT False []
   = Some \<lparr>power_budget = Fin 1000, logged_transient = Fin 0,
            after = pid_state (link_status 1000 2)\<rparr>"
  by (simp add: updatePowerBudget_def pid_state_def pid_status_def link_status_def link_info_def
      link_binding_def ex_sensor_def
  skin_temp_def map_at_def count_key_def ex_info_def pid_binding_def ex_binding_def seven_def
  getTargetStateOfPID_def enum_range_def pid_budget_def init_i_budget_def blend_transient_def
  fclamp_def fgt_def set_status_def of_int_f_def Let_def)

lemma link_allocate_second:
  "allocatePowerToCdev (pid_state (link_status 1000 2)) skin_temp
     (ex_sensor link_info) LIGHT 100 (rail_status (Fin 800)) ex_cdevs False []
   = Some (False, pid_state (link_status 1000 2))"
  by (simp add: allocatePowerToCdev_def link_budget_second)
     (simp add: pid_state_def pid_status_def link_info_def link_binding_def ex_sensor_def
        skin_temp_def map_at_def count_key_def ex_info_def pid_binding_def ex_binding_def seven_def
        status_of_def active_bindings_def allocate_while_def allocate_body_def get_power_data_def
        rail_status_def set_status_def link_status_def Let_def)

lemma link_tick_second:
  "thermalThrottlingUpdate (pid_state (link_status 1000 2)) [] skin_temp
     (ex_sensor link_info) LIGHT 100 (rail_status (Fin 800)) ex_cdevs False []
   = Some (pid_state (link_status 1000 2))"
proof -
  have ti: "throttling_info (ex_sensor link_info) = Some link_info"
    by (simp add: ex_sensor_def)
  have pm: "profile_map link_info = []"
    by (simp add: link_info_def ex_info_def)
  have m: "pid_power_budget_map (link_status 1000 2) \<noteq> []"
    "hardlimit_cdev_request_map (link_status 1000 2) = []"
    "throttling_release_map (link_status 1000 2) = []"
    by (simp_all add: pid_status_def link_status_def)
  have z: "set_status (pid_state (link_status 1000 2)) (temp_name skin_temp)
             (link_status 1000 2
               \<lparr>pid_cdev_request_map :=
                  map (\<lambda>(cdev, _). (cdev, 0)) (pid_cdev_request_map (link_status 1000 2))\<rparr>)
           = pid_state (link_status 1000 0)"
    by (simp add: set_status_def pid_state_def link_status_def skin_temp_def pid_status_def)
  show ?thesis
    by (simp add: thermalThrottlingUpdate_def count_key_pid_state ti pm status_of_pid_state m
        link_allocate_second z link_request_by_power)
qed

text \<open>
  C7 as stated fails: the CDEV has \<open>throttling_with_power_link\<close> and the average of its
  rail is NaN; \<open>allocatePowerToCdev\<close> returns true and the tick leaves the PID request at 2.
  On the next tick the average is 800: \<open>allocatePowerToCdev\<close> returns false, and after
  \<open>thermalThrottlingUpdate\<close> the PID request is 2 again, computed from the budget of the
  tick before.
\<close>

theorem power_link_without_rail_data_allocates:
  "throttling_with_power_link link_binding \<and>
   map_option last_updated_avg_power (rail_status NaN (power_rail link_binding)) = Some NaN \<and>
   registerThermalThrottling initial ''skin'' (Some link_info) ex_cdevs
     = (True, pid_state (pid_status NaN NaN 0 NaN (Fin 0) 0)) \<and>
   map_option fst
     (allocatePowerToCdev (pid_state (pid_status NaN NaN 0 NaN (Fin 0) 0)) skin_temp
        (ex_sensor link_info) LIGHT 100 (rail_status NaN) ex_cdevs False [])
     = Some True \<and>
   map_option (\<lambda>tt. pid_cdev_request_map (status_of tt ''skin''))
     (thermalThrottlingUpdate (pid_state (pid_status NaN NaN 0 NaN (Fin 0) 0)) [] skin_temp
        (ex_sensor link_info) LIGHT 100 (rail_status NaN) ex_cdevs False [])
     = Some [(''cpu'', 2)] \<and>
   map_option fst
     (allocatePowerToCdev (pid_state (link_status 1000 2)) skin_temp
        (ex_sensor link_info) LIGHT 100 (rail_status (Fin 800)) ex_cdevs False [])
     = Some False \<and>
   map_option (\<lambda>tt. pid_cdev_request_map (status_of tt ''skin''))
     (thermalThrottlingUpdate (pid_state (link_status 1000 2)) [] skin_temp
        (ex_sensor link_info) LIGHT 100 (rail_status (Fin 800)) ex_cdevs False [])
     = Some [(''cpu'', 2)]"
proof -
  have 1: "throttling_with_power_link link_binding"
    "map_option last_updated_avg_power (rail_status NaN (power_rail link_binding)) = Some NaN"
    by (simp_all add: link_binding_def rail_status_def)
  have 2: "pid_cdev_request_map (status_of (pid_state (link_status 1000 2)) ''skin'') = [(''cpu'', 2)]"
    by (simp add: pid_state_def status_of_def map_at_def link_status_def)
  show ?thesis
    by (simp add: 1 2 link_registered link_allocate_nan link_tick_nan link_allocate_second
        link_tick_second)
qed

lemma total_weight_loop_allocated:
  "snd (total_weight_loop sev bs (tw, A)) =
     A \<union> {c. \<exists>i. (c, i) \<in> set bs \<and> enabled i \<and>
                 (isnan (cdev_weight_for_pid i ! sev) \<or> feq (cdev_weight_for_pid i ! sev) (Fin 0))}"
proof (induction bs arbitrary: tw A)
  case Nil
  then show ?case by simp
next
  case (Cons b bs)
  obtain c i where b: "b = (c, i)" by (cases b)
  show ?case
    unfolding b by (simp add: Let_def Cons.IH) blast
qed

lemma allocate_body_link:
  assumes "cdev \<notin> allocated_cdev v" "\<not> power_data_invalid v" "power_rail info \<noteq> []"
    "psm (power_rail info) = Some status" "\<not> isnan (last_updated_avg_power status)"
    "throttling_with_power_link info"
  shows "allocate_body tt req psm cm sev mt lp tpb tw (cdev, info) v
       = Some (ReturnFalse (v\<lparr>avg_power := last_updated_avg_power status\<rparr>))"
  using assms by (simp add: allocate_body_def get_power_data_def)

lemma updatePowerBudget_keeps_entry:
  assumes "updatePowerBudget tt temp si cm time curr_severity mt preds = Some b"
  shows "\<exists>st. map_at (thermal_throttling_status_map (after b)) (temp_name temp) = Some st"
proof -
  from assms obtain st where st: "map_at (thermal_throttling_status_map tt) (temp_name temp) = Some st"
    by (auto simp: updatePowerBudget_def bind_eq_Some_conv)
  show ?thesis
  proof (cases "curr_severity = NONE")
    case True
    with assms st show ?thesis by (auto simp: updatePowerBudget_def)
  next
    case False
    from assms st False obtain ti s where ti: "throttling_info si = Some ti"
      and s: "getTargetStateOfPID si curr_severity = Some s"
      by (auto simp: updatePowerBudget_def bind_eq_Some_conv split: prod.splits)
    define changed where
      "changed = (prev_target st \<noteq> size_t NONE \<and> s \<noteq> prev_target st \<and> cfg_tran_cycle ti > 0)"
    define st1 where
      "st1 = (if changed then st\<lparr>tran_cycle := cfg_tran_cycle ti - 1\<rparr> else st)\<lparr>prev_target := s\<rparr>"
    from updatePowerBudget_Some [OF st False ti s assms changed_def st1_def]
    obtain x where
      A: "\<forall>early. x = Inl early \<longrightarrow>
           b = \<lparr>power_budget = early, logged_transient = Fin 0,
                after = set_status tt (temp_name temp) st1\<rparr>"
      and B: "\<forall>clamped st2. x = Inr (clamped, st2) \<longrightarrow>
           (\<exists>final added st3.
             blend_transient ti changed clamped st2 = Some (final, added, st3) \<and>
             b = \<lparr>power_budget = final, logged_transient = added,
                  after = set_status tt (temp_name temp) st3\<rparr>)"
      by blast
    have "\<exists>st'. after b = set_status tt (temp_name temp) st'"
    proof (cases x)
      case (Inl early)
      with A show ?thesis by auto
    next
      case (Inr p)
      obtain clamped st2 where "p = (clamped, st2)" by (cases p)
      with B Inr show ?thesis by auto
    qed
    then show ?thesis by (auto simp: set_status_at)
  qed
qed

lemma fdiv_defined: "b \<noteq> Fin 0 \<or> isnan a \<Longrightarrow> \<exists>q. fdiv a b = Some q \<and> (isnan a \<longrightarrow> isnan q)"
  by (cases a; cases b) auto

lemma fgt_nan: "isnan a \<Longrightarrow> \<not> fgt (fsub (fmul t a) p) (Fin 0)"
  by (cases a; cases t; cases p) (auto simp: fgt_def)

lemma allocate_body_first_pass:
  assumes "c \<notin> allocated_cdev v" and "\<not> power_data_invalid v"
    and "rail_available psm i" and "\<not> throttling_with_power_link i"
    and "tw \<noteq> Fin 0 \<or> isnan (cdev_weight_for_pid i ! sev)"
    and "count_key req c \<or> isnan (cdev_weight_for_pid i ! sev)"
  shows "\<exists>v'. allocate_body tt req psm cm sev mt True tpb tw (c, i) v = Some (Continue v') \<and>
           \<not> power_data_invalid v' \<and> budgets v' = budgets v \<and>
           allocated_cdev v \<subseteq> allocated_cdev v' \<and>
           allocated_cdev v' \<subseteq> insert c (allocated_cdev v)"
proof -
  from assms(3) obtain status where r: "power_rail i \<noteq> []"
    and s: "psm (power_rail i) = Some status" and n: "\<not> isnan (last_updated_avg_power status)"
    by (auto simp: rail_available_def split: option.splits)
  let ?v1 = "v\<lparr>avg_power := last_updated_avg_power status\<rparr>"
  let ?w = "cdev_weight_for_pid i ! sev"
  have g: "get_power_data psm i v = Some (Continue ?v1)"
    using assms(2,4) r s n by (simp add: get_power_data_def)
  from fdiv_defined [OF assms(5)] obtain q where q: "fdiv ?w tw = Some q"
    and qn: "isnan ?w \<longrightarrow> isnan q"
    by blast
  let ?adj = "fsub (fmul tpb q) (avg_power ?v1)"
  have "\<exists>v'. low_power_pass req c ?w ?adj ?v1 = Some v' \<and>
           \<not> power_data_invalid v' \<and> budgets v' = budgets v \<and>
           allocated_cdev v \<subseteq> allocated_cdev v' \<and>
           allocated_cdev v' \<subseteq> insert c (allocated_cdev v)"
  proof (cases "fgt ?adj (Fin 0)")
    case False
    with assms(2) show ?thesis by (auto simp: low_power_pass_def)
  next
    case True
    with fgt_nan [of q tpb "avg_power ?v1"] qn have "\<not> isnan ?w" by blast
    with assms(6) have "count_key req c" by simp
    then obtain request where "map_at req c = Some request"
      by (auto simp: count_key_def map_at_def dest!: weak_map_of_SomeI)
    with True assms(2) show ?thesis
      by (cases "request = 0") (auto simp: low_power_pass_def)
  qed
  then obtain v' where l: "low_power_pass req c ?w ?adj ?v1 = Some v'"
    and p: "\<not> power_data_invalid v'" "budgets v' = budgets v"
      "allocated_cdev v \<subseteq> allocated_cdev v'" "allocated_cdev v' \<subseteq> insert c (allocated_cdev v)"
    by blast
  have "allocate_body tt req psm cm sev mt True tpb tw (c, i) v = Some (Continue v')"
    using assms(1) g q l by (simp add: allocate_body_def)
  with p show ?thesis by blast
qed

lemma first_pass_prefix:
  assumes "\<forall>(c, i) \<in> set before. c \<in> allocated_cdev v \<or>
             (rail_available psm i \<and> \<not> throttling_with_power_link i \<and>
              (tw \<noteq> Fin 0 \<or> isnan (cdev_weight_for_pid i ! sev)) \<and>
              (count_key req c \<or> isnan (cdev_weight_for_pid i ! sev)))"
    and "\<not> power_data_invalid v"
  shows "\<exists>v'. allocate_for (allocate_body tt req psm cm sev mt True tpb tw) (before @ rest) v
              = allocate_for (allocate_body tt req psm cm sev mt True tpb tw) rest v' \<and>
           \<not> power_data_invalid v' \<and> budgets v' = budgets v \<and>
           allocated_cdev v \<subseteq> allocated_cdev v' \<and>
           allocated_cdev v' \<subseteq> allocated_cdev v \<union> fst ` set before"
  using assms
proof (induction before arbitrary: v)
  case Nil
  then show ?case by auto
next
  case (Cons b bs)
  obtain c i where b: "b = (c, i)" by (cases b)
  let ?body = "allocate_body tt req psm cm sev mt True tpb tw"
  have "\<exists>v1. ?body (c, i) v = Some (Continue v1) \<and>
           \<not> power_data_invalid v1 \<and> budgets v1 = budgets v \<and>
           allocated_cdev v \<subseteq> allocated_cdev v1 \<and>
           allocated_cdev v1 \<subseteq> insert c (allocated_cdev v)"
  proof (cases "c \<in> allocated_cdev v")
    case True
    then have "?body (c, i) v = Some (Continue v)" by (simp add: allocate_body_def)
    with Cons.prems(2) show ?thesis by auto
  next
    case False
    with Cons.prems(1) b have "rail_available psm i" "\<not> throttling_with_power_link i"
      "tw \<noteq> Fin 0 \<or> isnan (cdev_weight_for_pid i ! sev)"
      "count_key req c \<or> isnan (cdev_weight_for_pid i ! sev)"
      by auto
    from allocate_body_first_pass [OF False Cons.prems(2) this] show ?thesis .
  qed
  then obtain v1 where s: "?body (c, i) v = Some (Continue v1)"
    and p: "\<not> power_data_invalid v1" "budgets v1 = budgets v"
      "allocated_cdev v \<subseteq> allocated_cdev v1" "allocated_cdev v1 \<subseteq> insert c (allocated_cdev v)"
    by blast
  have "\<forall>(c, i) \<in> set bs. c \<in> allocated_cdev v1 \<or>
             (rail_available psm i \<and> \<not> throttling_with_power_link i \<and>
              (tw \<noteq> Fin 0 \<or> isnan (cdev_weight_for_pid i ! sev)) \<and>
              (count_key req c \<or> isnan (cdev_weight_for_pid i ! sev)))"
    using Cons.prems(1) p(3) by fastforce
  from Cons.IH [OF this p(1)] obtain v' where
    r: "allocate_for ?body (bs @ rest) v1 = allocate_for ?body rest v'"
    and q: "\<not> power_data_invalid v'" "budgets v' = budgets v1"
      "allocated_cdev v1 \<subseteq> allocated_cdev v'"
      "allocated_cdev v' \<subseteq> allocated_cdev v1 \<union> fst ` set bs"
    by blast
  have "allocate_for ?body ((b # bs) @ rest) v = allocate_for ?body rest v'"
    using s r by (simp add: b)
  moreover have "allocated_cdev v \<subseteq> allocated_cdev v'" using p(3) q(3) by blast
  moreover have "allocated_cdev v' \<subseteq> allocated_cdev v \<union> fst ` set (b # bs)"
    using p(4) q(4) b by auto
  ultimately show ?case using q(1,2) p(2) by (intro exI [of _ v']) simp
qed


lemma bind_SomeE:
  assumes "(m \<bind> f) = Some r"
  obtains x where "m = Some x" and "f x = Some r"
  using assms by (auto simp: bind_eq_Some_conv)

lemma allocation_pass_exit:
  assumes "allocation_pass tt req cm sev mt tpb tw cdev info w adj v = Some r"
  shows "(\<exists>v'. r = Continue v' \<and> power_data_invalid v' = power_data_invalid v) \<or>
         (r = ReturnFalse v \<and> getCdevMaxRequest tt cdev = Some None)"
  apply (insert assms [unfolded allocation_pass_def])
  apply (erule bind_SomeE)
  apply (erule bind_SomeE)
  subgoal for cdev_info at_max
    apply (cases at_max)
     apply (simp only: if_True option.inject)
     apply blast
    apply (simp only: if_False Let_def)
    apply (erule bind_SomeE)
    apply (erule bind_SomeE)
    apply (erule bind_SomeE)
    subgoal for budget power0 found
      apply (cases found)
       apply (simp only: option.case option.inject)
       apply blast
      apply (simp only: option.case)
      apply (erule bind_SomeE)
      apply (erule bind_SomeE)
      apply (erule bind_SomeE)
      apply (erule bind_SomeE)
      apply (simp only: option.inject)
      apply (rule disjI1)
      apply (rule exI)
      apply (rule conjI)
       apply (erule sym)
      apply simp
      done
    done
  done


lemma allocate_body_invalid:
  assumes "power_data_invalid v"
    and "allocate_body tt req psm cm sev mt False tpb tw (c, i) v = Some r"
  shows "(\<exists>v'. r = Continue v' \<and> power_data_invalid v') \<or>
         (\<exists>v'. r = ReturnFalse v' \<and> getCdevMaxRequest tt c = Some None)"
proof (cases "c \<in> allocated_cdev v")
  case True
  with assms show ?thesis by (auto simp: allocate_body_def)
next
  case False
  have g: "get_power_data psm i v = Some (Continue v)"
    using assms(1) by (simp add: get_power_data_def)
  from assms(2) False g obtain share where
    "allocation_pass tt req cm sev mt tpb tw c i (cdev_weight_for_pid i ! sev)
       (fsub (fmul tpb share) (avg_power v)) v = Some r"
    by (auto simp: allocate_body_def Let_def bind_eq_Some_conv)
  from allocation_pass_exit [OF this] assms(1) show ?thesis by auto
qed

lemma second_pass_invalid:
  assumes "power_data_invalid v"
    and "allocate_for (allocate_body tt req psm cm sev mt False tpb tw) bs v = Some (False, v')"
  shows "\<exists>(c, i) \<in> set bs. getCdevMaxRequest tt c = Some None"
  using assms
proof (induction bs arbitrary: v)
  case Nil
  then show ?case by simp
next
  case (Cons b bs)
  obtain c i where b: "b = (c, i)" by (cases b)
  let ?body = "allocate_body tt req psm cm sev mt False tpb tw"
  from Cons.prems(2) obtain r where r: "?body (c, i) v = Some r"
    and k: "(case r of Continue v \<Rightarrow> allocate_for ?body bs v
             | Break v \<Rightarrow> Some (True, v) | ReturnFalse v \<Rightarrow> Some (False, v)) = Some (False, v')"
    by (auto simp: b bind_eq_Some_conv)
  from allocate_body_invalid [OF Cons.prems(1) r] show ?case
  proof
    assume "\<exists>v1. r = Continue v1 \<and> power_data_invalid v1"
    then obtain v1 where "r = Continue v1" "power_data_invalid v1" by blast
    with k Cons.IH [of v1] show ?thesis by auto
  next
    assume "\<exists>v1. r = ReturnFalse v1 \<and> getCdevMaxRequest tt c = Some None"
    with b show ?thesis by auto
  qed
qed

lemma allocate_body_break:
  assumes "c \<notin> allocated_cdev v" and "\<not> power_data_invalid v" and "rail_unavailable psm i"
  shows "\<exists>v'. allocate_body tt req psm cm sev mt lp tpb tw (c, i) v = Some (Break v') \<and>
           power_data_invalid v' \<and> budgets v' = budgets v"
proof (cases "power_rail i = []")
  case True
  with assms(1,2) show ?thesis by (simp add: allocate_body_def get_power_data_def)
next
  case False
  with assms(3) obtain status where "psm (power_rail i) = Some status"
    "isnan (last_updated_avg_power status)"
    by (auto simp: rail_unavailable_def split: option.splits)
  with False assms(1,2) show ?thesis by (simp add: allocate_body_def get_power_data_def)
qed

lemma allocate_while_invalid:
  assumes "allocate_for (allocate_body tt req psm cm sev mt True tpb tw) bs v0 = Some (True, vb)"
    and "power_data_invalid vb"
    and "allocate_while tt req psm cm sev mt bs tpb tw v0 = Some (False, b)"
  shows "\<exists>(c, i) \<in> set bs. getCdevMaxRequest tt c = Some None"
proof -
  let ?vb = "vb\<lparr>allocated_power := Fin 0, allocated_weight := Fin 0\<rparr>"
  from assms obtain v' where
    "allocate_for (allocate_body tt req psm cm sev mt False tpb tw) bs ?vb = Some (False, v')"
    by (auto simp: allocate_while_def end_of_pass_def bind_eq_Some_conv)
  moreover from assms(2) have "power_data_invalid ?vb" by simp
  ultimately show ?thesis by (rule second_pass_invalid [rotated])
qed

text \<open>
  C7 (as amended). Let \<open>updatePowerBudget\<close> and the excluded-power step succeed, let the
  bound CDEVs have distinct names, and let \<open>(cdev, info)\<close> be a bound CDEV that is not skipped
  and before which the first pass goes on at every CDEV (each is skipped, or has available rail
  data and no \<open>throttling_with_power_link\<close>). If the rail data of \<open>cdev\<close> is available and it
  has \<open>throttling_with_power_link\<close>, then \<open>allocatePowerToCdev\<close> returns false, with no budget
  written. If the rail data of \<open>cdev\<close> is not available, the call does not return false,
  whatever \<open>throttling_with_power_link\<close> is, as long as every bound CDEV has a vote in the
  registry.
\<close>

theorem allocatePowerToCdev_power_link:
  assumes "updatePowerBudget tt temp sensor_info cooling_device_info_map time_elapsed_ms
             curr_severity max_throttling sensor_predictions = Some budget"
    and "throttling_info sensor_info = Some ti"
    and "excluded_power_info_map ti \<noteq> [] \<longrightarrow>
           computeExcludedPower sensor_info curr_severity power_status_map \<noteq> None"
    and "st = status_of (after budget) (temp_name temp)"
    and "active_bindings ti (profile st) = before @ (cdev, info) # rest"
    and "distinct (map fst (before @ (cdev, info) # rest))"
    and "total_weight =
           fst (total_weight_loop (size_t curr_severity) (before @ (cdev, info) # rest) (Fin 0, {}))"
    and "\<forall>binding \<in> set before.
           first_pass_continues (pid_cdev_request_map st) power_status_map (size_t curr_severity)
             total_weight binding"
    and "\<not> no_pid_weight (size_t curr_severity) info"
  shows "(rail_available power_status_map info \<and> throttling_with_power_link info \<longrightarrow>
            allocatePowerToCdev tt temp sensor_info curr_severity time_elapsed_ms power_status_map
              cooling_device_info_map max_throttling sensor_predictions
            = Some (False, after budget)) \<and>
         (rail_unavailable power_status_map info \<and>
          (\<forall>(c, i) \<in> set (before @ (cdev, info) # rest).
             getCdevMaxRequest (after budget) c \<noteq> Some None) \<longrightarrow>
            map_option fst
              (allocatePowerToCdev tt temp sensor_info curr_severity time_elapsed_ms
                 power_status_map cooling_device_info_map max_throttling sensor_predictions)
            \<noteq> Some False)"
proof -
  let ?tt = "after budget"
  let ?bs = "before @ (cdev, info) # rest"
  let ?sev = "size_t curr_severity"
  let ?req = "pid_cdev_request_map st"
  obtain A where tw: "total_weight_loop ?sev ?bs (Fin 0, {}) = (total_weight, A)"
    using assms(7) by (cases "total_weight_loop ?sev ?bs (Fin 0, {})") simp
  from total_weight_loop_allocated [of ?sev ?bs "Fin 0" "{}"] tw
  have A: "A = {c. \<exists>i. (c, i) \<in> set ?bs \<and> no_pid_weight ?sev i}"
    by (simp add: no_pid_weight_def)
  have notin: "cdev \<notin> A"
  proof
    assume "cdev \<in> A"
    then obtain i where i: "(cdev, i) \<in> set ?bs" "no_pid_weight ?sev i"
      unfolding A by blast
    from assms(6) i(1) have "i = info"
      by (metis eq_key_imp_eq_value in_set_conv_decomp)
    with i(2) assms(9) show False by simp
  qed
  obtain total where total:
    "(if excluded_power_info_map ti \<noteq> [] then
        computeExcludedPower sensor_info curr_severity power_status_map \<bind>
          (\<lambda>excluded. Some (fmax (fsub (power_budget budget) excluded) (Fin 0)))
      else Some (power_budget budget)) = Some total"
    using assms(3) by (cases "excluded_power_info_map ti = []") auto
  let ?v = "\<lparr>avg_power = NaN, allocated_power = Fin 0, allocated_weight = Fin 0,
            allocated_cdev = A, power_data_invalid = False,
            budgets = pid_power_budget_map st\<rparr>"
  let ?body = "allocate_body ?tt ?req power_status_map cooling_device_info_map
              ?sev max_throttling True total total_weight"
  have eq: "allocatePowerToCdev tt temp sensor_info curr_severity time_elapsed_ms power_status_map
              cooling_device_info_map max_throttling sensor_predictions
          = allocate_while ?tt ?req power_status_map cooling_device_info_map ?sev max_throttling
              ?bs total total_weight ?v \<bind>
            (\<lambda>(ok, budgets').
               Some (ok, set_status ?tt (temp_name temp) (st\<lparr>pid_power_budget_map := budgets'\<rparr>)))"
    using assms(1,2) total tw
    by (simp add: allocatePowerToCdev_def assms(4) [symmetric] assms(5) Let_def)
  have pre: "\<forall>(c, i) \<in> set before. c \<in> allocated_cdev ?v \<or>
             (rail_available power_status_map i \<and> \<not> throttling_with_power_link i \<and>
              (total_weight \<noteq> Fin 0 \<or> isnan (cdev_weight_for_pid i ! ?sev)) \<and>
              (count_key ?req c \<or> isnan (cdev_weight_for_pid i ! ?sev)))"
  proof -
    have "rail_available power_status_map i \<and> \<not> throttling_with_power_link i \<and>
              (total_weight \<noteq> Fin 0 \<or> isnan (cdev_weight_for_pid i ! ?sev)) \<and>
              (count_key ?req c \<or> isnan (cdev_weight_for_pid i ! ?sev))"
      if m: "(c, i) \<in> set before" and n: "c \<notin> A" for c i
    proof -
      from m n have "\<not> no_pid_weight ?sev i" unfolding A by auto
      with assms(8) m show ?thesis
        by (auto simp: first_pass_continues_def)
    qed
    then show ?thesis by auto
  qed
  have "\<not> power_data_invalid ?v" by simp
  from first_pass_prefix [OF pre this, of ?tt cooling_device_info_map max_throttling total
      "(cdev, info) # rest"]
  obtain v' where
    p: "allocate_for ?body ?bs ?v = allocate_for ?body ((cdev, info) # rest) v'"
    and q: "\<not> power_data_invalid v'" "budgets v' = pid_power_budget_map st"
      "allocated_cdev v' \<subseteq> A \<union> fst ` set before"
    by auto
  from assms(6) have "cdev \<notin> fst ` set before" by auto
  with notin q(3) have fresh: "cdev \<notin> allocated_cdev v'" by blast
  from updatePowerBudget_keeps_entry [OF assms(1)] obtain st0 where
    st0: "map_at (thermal_throttling_status_map ?tt) (temp_name temp) = Some st0"
    by blast
  then have same: "set_status ?tt (temp_name temp) st = ?tt"
    by (simp add: assms(4) set_status_def status_of_def map_at_def update_triv)
  have one: "allocatePowerToCdev tt temp sensor_info curr_severity time_elapsed_ms power_status_map
              cooling_device_info_map max_throttling sensor_predictions
            = Some (False, after budget)"
    if av: "rail_available power_status_map info" and ln: "throttling_with_power_link info"
  proof -
    from av obtain status where r: "power_rail info \<noteq> []"
      and s: "power_status_map (power_rail info) = Some status"
      and n: "\<not> isnan (last_updated_avg_power status)"
      by (auto simp: rail_available_def split: option.splits)
    have "?body (cdev, info) v' = Some (ReturnFalse (v'\<lparr>avg_power := last_updated_avg_power status\<rparr>))"
      using fresh q(1) r s n ln by (rule allocate_body_link)
    then have "allocate_for ?body ?bs ?v
             = Some (False, v'\<lparr>avg_power := last_updated_avg_power status\<rparr>)"
      unfolding p by simp
    then have "allocate_while ?tt ?req power_status_map cooling_device_info_map ?sev
                 max_throttling ?bs total total_weight ?v
               = Some (False, pid_power_budget_map st)"
      using q(2) by (simp add: allocate_while_def)
    then show ?thesis unfolding eq by (simp add: same)
  qed
  have two: "map_option fst
              (allocatePowerToCdev tt temp sensor_info curr_severity time_elapsed_ms
                 power_status_map cooling_device_info_map max_throttling sensor_predictions)
            \<noteq> Some False"
    if un: "rail_unavailable power_status_map info"
      and reg: "\<forall>(c, i) \<in> set ?bs. getCdevMaxRequest ?tt c \<noteq> Some None"
  proof
    assume "map_option fst
              (allocatePowerToCdev tt temp sensor_info curr_severity time_elapsed_ms
                 power_status_map cooling_device_info_map max_throttling sensor_predictions)
            = Some False"
    then obtain b where w: "allocate_while ?tt ?req power_status_map cooling_device_info_map ?sev
                 max_throttling ?bs total total_weight ?v = Some (False, b)"
      unfolding eq by (auto simp: bind_eq_Some_conv)
    from allocate_body_break [OF fresh q(1) un]
    obtain vb where "?body (cdev, info) v' = Some (Break vb)" and inv: "power_data_invalid vb"
      by blast
    then have "allocate_for ?body ?bs ?v = Some (True, vb)"
      unfolding p by simp
    from allocate_while_invalid [OF this inv w] reg show False by blast
  qed
  from one two show ?thesis by blast
qed

lemma two_link_registered:
  "registerThermalThrottling initial ''skin'' (Some two_link_info) two_cdevs
     = (True, two_cdev_state (pid_status NaN NaN 0 NaN (Fin 0) 0))"
  by (simp add: two_link_info_def link_binding_def registerThermalThrottling_def
      initial_def count_key_def two_cdevs_def two_cdev_state_def pid_status_def
      ex_info_def pid_binding_def ex_binding_def seven_def register_cdev_def
      new_status_def registry_insert0_def fun_upd_twist)

lemma two_link_budget:
  "updatePowerBudget (two_cdev_state (pid_status NaN NaN 0 NaN (Fin 0) 0)) skin_temp
     (ex_sensor two_link_info) two_cdevs 100 LIGHT False []
   = Some \<lparr>power_budget = Fin 1000, logged_transient = Fin 0,
            after = two_cdev_state (pid_status (Fin (- 7)) (Fin 0) 2 (Fin 1000) (Fin 0) 0)\<rparr>"
  by (simp add: updatePowerBudget_def two_cdev_state_def pid_status_def two_link_info_def
      link_binding_def ex_sensor_def
      skin_temp_def map_at_def count_key_def ex_info_def pid_binding_def ex_binding_def seven_def
      getTargetStateOfPID_def enum_range_def pid_budget_def init_i_budget_def blend_transient_def
      fclamp_def fgt_def set_status_def of_int_f_def Let_def)

theorem allocatePowerToCdev_power_link_witness:
  "registerThermalThrottling initial ''skin'' (Some two_link_info) two_cdevs
     = (True, two_cdev_state (pid_status NaN NaN 0 NaN (Fin 0) 0)) \<and>
   map fst (binded_cdev_info_map two_link_info) = [''cpu'', ''gpu''] \<and>
   map (throttling_with_power_link \<circ> snd) (binded_cdev_info_map two_link_info) = [False, True] \<and>
   map (rail_available (rail_status (Fin 800)) \<circ> snd) (binded_cdev_info_map two_link_info)
     = [True, True] \<and>
   allocatePowerToCdev (two_cdev_state (pid_status NaN NaN 0 NaN (Fin 0) 0)) skin_temp
     (ex_sensor two_link_info) LIGHT 100 (rail_status (Fin 800)) two_cdevs False []
   = Some (False, two_cdev_state (pid_status (Fin (- 7)) (Fin 0) 2 (Fin 1000) (Fin 0) 0)) \<and>
   rail_unavailable (rail_status NaN) link_binding \<and>
   throttling_with_power_link link_binding \<and>
   allocatePowerToCdev (pid_state (pid_status NaN NaN 0 NaN (Fin 0) 0)) skin_temp
     (ex_sensor link_info) LIGHT 100 (rail_status NaN) ex_cdevs False []
   = Some (True, pid_state (link_status 1000 0)) \<and>
   map_option fst
     (allocatePowerToCdev (pid_state (pid_status NaN NaN 0 NaN (Fin 0) 0)) skin_temp
        (ex_sensor link_info) LIGHT 100 (rail_status NaN) ex_cdevs False [])
   \<noteq> Some False"
proof -
  let ?after = "two_cdev_state (pid_status (Fin (- 7)) (Fin 0) 2 (Fin 1000) (Fin 0) 0)"
  let ?b = "\<lparr>power_budget = Fin 1000, logged_transient = Fin 0, after = ?after\<rparr>"
  let ?st = "status_of (after ?b) (temp_name skin_temp)"
  let ?cpu = "pid_binding\<lparr>power_rail := ''rail''\<rparr>"
  have 2: "throttling_info (ex_sensor two_link_info) = Some two_link_info"
    by (simp add: ex_sensor_def)
  have 3: "excluded_power_info_map two_link_info \<noteq> [] \<longrightarrow>
           computeExcludedPower (ex_sensor two_link_info) LIGHT (rail_status (Fin 800)) \<noteq> None"
    by (simp add: two_link_info_def ex_info_def)
  have 5: "active_bindings two_link_info (profile ?st) = [(''cpu'', ?cpu)] @ (''gpu'', link_binding) # []"
    by (simp add: active_bindings_def two_link_info_def ex_info_def map_at_def)
  have 6: "distinct (map fst ([(''cpu'', ?cpu)] @ (''gpu'', link_binding) # []))" by simp
  have 7: "Fin 2 = fst (total_weight_loop (size_t LIGHT)
                     ([(''cpu'', ?cpu)] @ (''gpu'', link_binding) # []) (Fin 0, {}))"
    by (simp add: link_binding_def pid_binding_def ex_binding_def seven_def)
  have av: "rail_available (rail_status (Fin 800)) ?cpu"
    "rail_available (rail_status (Fin 800)) link_binding"
    by (simp_all add: rail_available_def rail_status_def link_binding_def)
  have ln: "\<not> throttling_with_power_link ?cpu" "throttling_with_power_link link_binding"
    by (simp_all add: link_binding_def pid_binding_def ex_binding_def)
  have rq: "count_key (pid_cdev_request_map ?st) ''cpu''"
    by (simp add: status_of_def two_cdev_state_def skin_temp_def map_at_def count_key_def)
  have 8: "\<forall>binding \<in> set [(''cpu'', ?cpu)].
           first_pass_continues (pid_cdev_request_map ?st) (rail_status (Fin 800)) (size_t LIGHT)
             (Fin 2) binding"
    using av(1) ln(1) rq by (simp add: first_pass_continues_def)
  have 9: "\<not> no_pid_weight (size_t LIGHT) link_binding"
    by (simp add: no_pid_weight_def link_binding_def pid_binding_def ex_binding_def seven_def)
  note a = allocatePowerToCdev_power_link [OF two_link_budget 2 3 refl 5 6 7 8 9]
  let ?after1 = "pid_state (pid_status (Fin (- 7)) (Fin 0) 2 (Fin 1000) (Fin 0) 0)"
  let ?b1 = "\<lparr>power_budget = Fin 1000, logged_transient = Fin 0, after = ?after1\<rparr>"
  let ?st1 = "status_of (after ?b1) (temp_name skin_temp)"
  have b2: "throttling_info (ex_sensor link_info) = Some link_info"
    by (simp add: ex_sensor_def)
  have b3: "excluded_power_info_map link_info \<noteq> [] \<longrightarrow>
           computeExcludedPower (ex_sensor link_info) LIGHT (rail_status NaN) \<noteq> None"
    by (simp add: link_info_def ex_info_def)
  have b5: "active_bindings link_info (profile ?st1) = [] @ (''cpu'', link_binding) # []"
    by (simp add: active_bindings_def link_info_def ex_info_def map_at_def)
  have b6: "distinct (map fst ([] @ (''cpu'', link_binding) # []))" by simp
  have b7: "Fin 1 = fst (total_weight_loop (size_t LIGHT)
                     ([] @ (''cpu'', link_binding) # []) (Fin 0, {}))"
    by (simp add: link_binding_def pid_binding_def ex_binding_def seven_def)
  have b8: "\<forall>binding \<in> set [].
           first_pass_continues (pid_cdev_request_map ?st1) (rail_status NaN) (size_t LIGHT)
             (Fin 1) binding"
    by simp
  have un: "rail_unavailable (rail_status NaN) link_binding"
    by (simp add: rail_unavailable_def rail_status_def link_binding_def)
  have rg: "\<forall>(c, i) \<in> set ([] @ (''cpu'', link_binding) # []).
              getCdevMaxRequest (after ?b1) c \<noteq> Some None"
    by (simp add: getCdevMaxRequest_def pid_state_def multiset_begin_def)
  note b = allocatePowerToCdev_power_link [OF link_budget b2 b3 refl b5 b6 b7 b8 9]
  have m: "map fst (binded_cdev_info_map two_link_info) = [''cpu'', ''gpu'']"
    "map (throttling_with_power_link \<circ> snd) (binded_cdev_info_map two_link_info) = [False, True]"
    "map (rail_available (rail_status (Fin 800)) \<circ> snd) (binded_cdev_info_map two_link_info)
     = [True, True]"
    using av ln by (simp_all add: two_link_info_def)
  from a b av ln un rg m two_link_registered link_allocate_nan
  show ?thesis by simp
qed

section \<open>The vote registry: properties\<close>

lemma mset_multiset_insert: "mset (multiset_insert x xs) = add_mset x (mset xs)"
  by (induction xs) auto

lemma set_multiset_insert: "set (multiset_insert x xs) = insert x (set xs)"
  by (induction xs) auto

lemma sorted_multiset_insert: "sorted (rev xs) \<Longrightarrow> sorted (rev (multiset_insert x xs))"
  by (induction xs) (auto simp: sorted_append set_multiset_insert)

lemma sorted_rev_remove1: "sorted (rev xs) \<Longrightarrow> sorted (rev (remove1 x xs))"
proof (induction xs)
  case Nil
  then show ?case by simp
next
  case (Cons a xs)
  then show ?case
    by (auto simp: sorted_append dest: notin_set_remove1)
qed

lemma sorted_rev_hd_Max: "sorted (rev xs) \<Longrightarrow> xs \<noteq> [] \<Longrightarrow> hd xs = Max (set xs)"
proof (induction xs)
  case Nil
  then show ?case by simp
next
  case (Cons a xs)
  then have "\<forall>x \<in> set xs. x \<le> a" by (auto simp: sorted_append)
  then show ?case
    by (cases "xs = []") (auto simp: max_def intro!: Max_eqI [symmetric] antisym)
qed

lemma request_list_insert0:
  "request_list (registry_insert0 cdev reg) c =
     (if c = cdev then multiset_insert 0 (request_list reg cdev) else request_list reg c)"
  by (simp add: request_list_def registry_insert0_def)

lemma update_absent: "k \<notin> fst ` set al \<Longrightarrow> AList.update k v al = al @ [(k, v)]"
  by (induction al) auto

lemma set_update_cases:
  "(k', v') \<in> set (AList.update k v al) \<Longrightarrow> (k', v') \<in> set al \<or> (k' = k \<and> v' = v)"
  by (induction al) (auto split: if_splits)

lemma zero_status_update:
  assumes "zero_status st" and "cdev_status_map st' = AList.update cdev 0 (cdev_status_map st)"
  shows "zero_status st'"
proof -
  have "v = 0" if "(c, v) \<in> set (cdev_status_map st')" for c v
    using that assms set_update_cases [of c v cdev 0 "cdev_status_map st"]
    by (auto simp: zero_status_def)
  with assms show ?thesis
    by (auto simp: zero_status_def distinct_update)
qed

lemma zero_status_same:
  "zero_status st \<Longrightarrow> cdev_status_map st' = cdev_status_map st \<Longrightarrow> zero_status st'"
  by (simp add: zero_status_def)

lemma replicate_mset_sum:
  "replicate_mset (j + k) (x::int) = replicate_mset j x + replicate_mset k x"
  by (induction j) auto

lemma grows_refl: "grows reg reg c 0"
  by (simp add: grows_def)

lemma grows_insert0_same: "grows reg (registry_insert0 cdev reg) cdev 1"
  by (simp add: grows_def request_list_insert0 mset_multiset_insert sorted_multiset_insert)

lemma grows_insert0_other: "c \<noteq> cdev \<Longrightarrow> grows reg (registry_insert0 cdev reg) c 0"
  by (simp add: grows_def request_list_insert0)

lemma grows_trans: "grows r1 r2 c j \<Longrightarrow> grows r2 r3 c k \<Longrightarrow> grows r1 r3 c (j + k)"
  by (auto simp: grows_def replicate_mset_sum)

lemma grows_insert0: "\<exists>j. grows reg (registry_insert0 cdev reg) c j \<and> (c = cdev \<longrightarrow> 1 \<le> j)"
proof (cases "c = cdev")
  case True
  then show ?thesis using grows_insert0_same [of reg cdev] by (intro exI [of _ 1]) simp
next
  case False
  then show ?thesis using grows_insert0_other [of c cdev reg] by (intro exI [of _ 0]) simp
qed

lemma register_cdev_grows:
  assumes "register_cdev cdev info (st, reg) = (st', reg')" and "zero_status st"
  shows "zero_status st' \<and>
         (\<forall>c. count_key (cdev_status_map st') c \<longrightarrow> count_key (cdev_status_map st) c \<or> c = cdev) \<and>
         (\<forall>c. count_key (cdev_status_map st) c \<longrightarrow> count_key (cdev_status_map st') c) \<and>
         (\<forall>c. \<exists>j. grows reg reg' c j \<and>
                 (count_key (cdev_status_map st') c \<and> \<not> count_key (cdev_status_map st) c \<longrightarrow> 1 \<le> j))"
proof -
  let ?pid = "list_ex (\<lambda>cdev_weight. \<not> isnan cdev_weight) (cdev_weight_for_pid info)"
  let ?lim = "list_ex (\<lambda>limit. limit > 0) (limit_info info)"
  let ?st1 = "if ?pid then st\<lparr>pid_power_budget_map := AList.update cdev INT_MAX (pid_power_budget_map st),
                      pid_cdev_request_map := AList.update cdev 0 (pid_cdev_request_map st),
                      cdev_status_map := AList.update cdev 0 (cdev_status_map st)\<rparr> else st"
  let ?reg1 = "if ?pid then registry_insert0 cdev reg else reg"
  let ?st2 = "if ?lim then ?st1\<lparr>hardlimit_cdev_request_map :=
                        AList.update cdev 0 (hardlimit_cdev_request_map ?st1),
                      cdev_status_map := AList.update cdev 0 (cdev_status_map ?st1)\<rparr> else ?st1"
  let ?reg2 = "if ?lim then registry_insert0 cdev ?reg1 else ?reg1"
  from assms(1) have reg': "reg' = ?reg2" and cs: "cdev_status_map st' = cdev_status_map ?st2"
    by (auto simp: register_cdev_def Let_def split: if_splits)
  have z1: "zero_status ?st1"
    using assms(2) zero_status_update [OF assms(2), of ?st1 cdev] by (cases ?pid) simp_all
  have z2: "zero_status ?st2"
    using z1 zero_status_update [OF z1, of ?st2 cdev] by (cases ?lim) simp_all
  have z: "zero_status st'"
    using z2 cs by (simp add: zero_status_def)
  have keys: "\<And>c. count_key (cdev_status_map st') c \<longleftrightarrow>
        count_key (cdev_status_map st) c \<or> (c = cdev \<and> (?pid \<or> ?lim))"
    unfolding cs by (auto simp: count_key_update)
  have g: "\<exists>j. grows reg reg' c j \<and> (c = cdev \<and> (?pid \<or> ?lim) \<longrightarrow> 1 \<le> j)" for c
  proof -
    obtain j1 where j1: "grows reg ?reg1 c j1" "c = cdev \<and> ?pid \<longrightarrow> 1 \<le> j1"
      using grows_insert0 [of reg cdev c] grows_refl [of reg c] by (cases ?pid) auto
    obtain j2 where j2: "grows ?reg1 ?reg2 c j2" "c = cdev \<and> ?lim \<longrightarrow> 1 \<le> j2"
      using grows_insert0 [of ?reg1 cdev c] grows_refl [of ?reg1 c] by (cases ?lim) auto
    from grows_trans [OF j1(1) j2(1)] j1(2) j2(2) show ?thesis
      unfolding reg' by (intro exI [of _ "j1 + j2"]) auto
  qed
  from z keys g show ?thesis by blast
qed

lemma register_loop_grows:
  assumes "register_loop cm bs (st, reg) = (ok, st', reg')" and "zero_status st"
  shows "zero_status st' \<and>
         (\<forall>c. count_key (cdev_status_map st) c \<longrightarrow> count_key (cdev_status_map st') c) \<and>
         (\<forall>c. \<exists>j. grows reg reg' c j \<and>
                 (count_key (cdev_status_map st') c \<and> \<not> count_key (cdev_status_map st) c \<longrightarrow> 1 \<le> j))"
  using assms
proof (induction bs arbitrary: st reg)
  case Nil
  then show ?case using grows_refl by auto
next
  case (Cons b bs)
  obtain cdev info where b: "b = (cdev, info)" by (cases b)
  show ?case
  proof (cases "cm cdev = None")
    case True
    with Cons.prems b show ?thesis using grows_refl by auto
  next
    case False
    obtain st1 reg1 where r: "register_cdev cdev info (st, reg) = (st1, reg1)"
      by (cases "register_cdev cdev info (st, reg)")
    from Cons.prems(1) b False r have loop: "register_loop cm bs (st1, reg1) = (ok, st', reg')"
      by simp
    note one = register_cdev_grows [OF r Cons.prems(2)]
    then have z1: "zero_status st1" by blast
    note more = Cons.IH [OF loop z1]
    have "\<exists>j. grows reg reg' c j \<and>
                 (count_key (cdev_status_map st') c \<and> \<not> count_key (cdev_status_map st) c \<longrightarrow> 1 \<le> j)"
      for c
    proof -
      from one obtain j1 where j1: "grows reg reg1 c j1"
        "count_key (cdev_status_map st1) c \<and> \<not> count_key (cdev_status_map st) c \<longrightarrow> 1 \<le> j1"
        by blast
      from more obtain j2 where j2: "grows reg1 reg' c j2"
        "count_key (cdev_status_map st') c \<and> \<not> count_key (cdev_status_map st1) c \<longrightarrow> 1 \<le> j2"
        by blast
      from grows_trans [OF j1(1) j2(1)] j1(2) j2(2) show ?thesis
        by (intro exI [of _ "j1 + j2"]) auto
    qed
    with one more show ?thesis by blast
  qed
qed

lemma vals_of_distinct:
  "distinct (map fst al) \<Longrightarrow>
   vals_of c al = (case map_of al c of None \<Rightarrow> [] | Some v \<Rightarrow> [v])"
proof (induction al)
  case Nil
  then show ?case by (simp add: vals_of_def)
next
  case (Cons a al)
  obtain k v where a: "a = (k, v)" by (cases a)
  from Cons.prems a have k: "k \<notin> fst ` set al" by simp
  show ?case
  proof (cases "k = c")
    case True
    with k have "map_of al c = None" by (simp add: map_of_eq_None_iff)
    with Cons a True show ?thesis by (simp add: vals_of_def)
  next
    case False
    with Cons a show ?thesis by (simp add: vals_of_def)
  qed
qed

lemma vals_of_zero_status:
  assumes "zero_status st"
  shows "vals_of c (cdev_status_map st) = (if count_key (cdev_status_map st) c then [0] else [])"
proof (cases "map_of (cdev_status_map st) c")
  case None
  then have "\<not> count_key (cdev_status_map st) c"
    by (simp add: count_key_def map_of_eq_None_iff)
  with None assms show ?thesis by (simp add: vals_of_distinct zero_status_def)
next
  case (Some v)
  then have in_set: "(c, v) \<in> set (cdev_status_map st)" by (rule map_of_SomeD)
  with assms have "v = 0" by (auto simp: zero_status_def)
  moreover from in_set have "count_key (cdev_status_map st) c"
    by (force simp: count_key_def)
  ultimately show ?thesis using Some assms by (simp add: vals_of_distinct zero_status_def)
qed

lemma votes_append:
  "votes (tt\<lparr>thermal_throttling_status_map := thermal_throttling_status_map tt @ [(n, st)]\<rparr>) c
     = votes tt c @ vals_of c (cdev_status_map st)"
  by (simp add: votes_def)

lemma consistent_register:
  assumes "consistent tt"
  shows "consistent (snd (registerThermalThrottling tt sensor_name info_ptr cm))"
proof (cases "count_key (thermal_throttling_status_map tt) sensor_name \<or> info_ptr = None")
  case True
  with assms show ?thesis by (auto simp: registerThermalThrottling_def)
next
  case False
  then obtain ti where ti: "info_ptr = Some ti"
    and absent: "sensor_name \<notin> fst ` set (thermal_throttling_status_map tt)"
    by (auto simp: count_key_def)
  let ?st0 = "new_status\<lparr>prev_err := NaN, i_budget := NaN, prev_target := size_t NONE,
                                prev_power_budget := NaN, tran_cycle := 0, profile := []\<rparr>"
  obtain ok st reg where loop:
    "register_loop cm (binded_cdev_info_map ti) (?st0, cdev_all_request_map tt) = (ok, st, reg)"
    using prod_cases3 by blast
  have z0: "zero_status ?st0" by (simp add: zero_status_def new_status_def)
  have nokey: "\<And>c. \<not> count_key (cdev_status_map ?st0) c"
    by (simp add: count_key_def new_status_def)
  note g = register_loop_grows [OF loop z0]
  let ?tt' = "\<lparr>thermal_throttling_status_map = thermal_throttling_status_map tt @ [(sensor_name, st)],
              cdev_all_request_map = reg\<rparr>"
  have res: "snd (registerThermalThrottling tt sensor_name info_ptr cm) = ?tt'"
    using False ti loop absent by (simp add: registerThermalThrottling_def Let_def update_absent)
  have v: "votes ?tt' c = votes tt c @ vals_of c (cdev_status_map st)" for c
    by (simp add: votes_def)
  have "consistent ?tt'"
    unfolding consistent_def
  proof (intro conjI allI)
    show "distinct (map fst (thermal_throttling_status_map ?tt'))"
      using assms absent by (simp add: consistent_def)
    show "\<forall>(sensor, st) \<in> set (thermal_throttling_status_map ?tt').
        distinct (map fst (cdev_status_map st))"
      using assms g by (auto simp: consistent_def zero_status_def)
  next
    fix c
    from g obtain j where j: "grows (cdev_all_request_map tt) reg c j"
      "count_key (cdev_status_map st) c \<longrightarrow> 1 \<le> j"
      using nokey by blast
    from assms obtain k where k: "sorted (rev (request_list (cdev_all_request_map tt) c))"
      "mset (request_list (cdev_all_request_map tt) c) = mset (votes tt c) + replicate_mset k 0"
      by (auto simp: consistent_def)
    from j k show "sorted (rev (request_list (cdev_all_request_map ?tt') c))"
      by (simp add: grows_def)
    from g have z: "zero_status st" by blast
    show "\<exists>k. mset (request_list (cdev_all_request_map ?tt') c)
               = mset (votes ?tt' c) + replicate_mset k 0"
    proof (cases "count_key (cdev_status_map st) c")
      case True
      with j obtain j' where "j = Suc j'" by (cases j) auto
      with j k True show ?thesis
        by (intro exI [of _ "k + j'"]) (simp add: grows_def v vals_of_zero_status [OF z] replicate_mset_sum)
    next
      case False
      with j k show ?thesis
        by (intro exI [of _ "k + j"]) (simp add: grows_def v vals_of_zero_status [OF z] replicate_mset_sum)
    qed
  qed
  with res show ?thesis by simp
qed

lemma same_votes_refl: "same_votes tt tt"
  by (simp add: same_votes_def)

lemma same_votes_trans: "same_votes a b \<Longrightarrow> same_votes b c \<Longrightarrow> same_votes a c"
  by (simp add: same_votes_def)

lemma votes_recorded: "votes tt c = concat (map (\<lambda>(sensor, m). vals_of c m) (recorded tt))"
  by (simp add: votes_def recorded_def comp_def split_def)

lemma names_recorded: "map fst (thermal_throttling_status_map tt) = map fst (recorded tt)"
  by (simp add: recorded_def comp_def split_def)

lemma maps_recorded:
  "(\<forall>(sensor, st) \<in> set (thermal_throttling_status_map tt). distinct (map fst (cdev_status_map st)))
     \<longleftrightarrow> (\<forall>(sensor, m) \<in> set (recorded tt). distinct (map fst m))"
  by (auto simp: recorded_def)

lemma consistent_same_votes:
  assumes "same_votes tt tt'" and "consistent tt"
  shows "consistent tt'"
proof -
  from assms(1) have r: "recorded tt' = recorded tt"
    and g: "cdev_all_request_map tt' = cdev_all_request_map tt"
    by (simp_all add: same_votes_def)
  from assms(2) show ?thesis
    unfolding consistent_def maps_recorded names_recorded votes_recorded r g .
qed

lemma count_key_same_votes:
  assumes "same_votes tt tt'"
  shows "count_key (thermal_throttling_status_map tt') n = count_key (thermal_throttling_status_map tt) n"
proof -
  have "\<And>t. count_key (thermal_throttling_status_map t) n \<longleftrightarrow> n \<in> set (map fst (recorded t))"
    by (simp add: count_key_def names_recorded [symmetric])
  with assms show ?thesis by (simp add: same_votes_def)
qed

lemma recorded_update:
  assumes "map_of al n = Some st" and "cdev_status_map st' = cdev_status_map st"
  shows "map (\<lambda>(sensor, st). (sensor, cdev_status_map st)) (AList.update n st' al)
       = map (\<lambda>(sensor, st). (sensor, cdev_status_map st)) al"
  using assms by (induction al) (auto split: if_splits)

lemma same_votes_set_status:
  assumes "map_at (thermal_throttling_status_map tt) n = Some st"
    and "cdev_status_map st' = cdev_status_map st"
  shows "same_votes tt (set_status tt n st')"
  using assms recorded_update [of "thermal_throttling_status_map tt" n st st']
  by (simp add: same_votes_def recorded_def set_status_def map_at_def)

lemma present_status:
  assumes "count_key (thermal_throttling_status_map tt) n"
  shows "map_at (thermal_throttling_status_map tt) n = Some (status_of tt n)"
proof -
  from assms obtain st where "map_of (thermal_throttling_status_map tt) n = Some st"
    by (auto simp: count_key_def dest: weak_map_of_SomeI)
  then show ?thesis by (simp add: status_of_def map_at_def)
qed

lemma same_votes_modify:
  assumes "count_key (thermal_throttling_status_map tt) n"
    and "cdev_status_map st' = cdev_status_map (status_of tt n)"
  shows "same_votes tt (set_status tt n st')"
  using same_votes_set_status [OF present_status [OF assms(1)] assms(2)] .

lemma same_votes_clear: "same_votes tt (clearThrottlingData tt n)"
proof (cases "map_at (thermal_throttling_status_map tt) n")
  case None
  then show ?thesis by (simp add: clearThrottlingData_def same_votes_refl)
next
  case (Some st)
  then show ?thesis
    by (simp add: clearThrottlingData_def) (rule same_votes_set_status [OF Some], simp)
qed

lemma same_votes_parse:
  assumes "count_key (thermal_throttling_status_map tt) n"
  shows "same_votes tt (parseProfileProperty tt n si prop)"
proof (cases "throttling_info si")
  case None
  then show ?thesis by (simp add: parseProfileProperty_def same_votes_refl)
next
  case (Some ti)
  then show ?thesis
    by (auto simp: parseProfileProperty_def intro!: same_votes_modify [OF assms])
qed

lemma blend_transient_cdev_status:
  "blend_transient ti changed clamped st = Some (final, added, st') \<Longrightarrow>
   cdev_status_map st' = cdev_status_map st"
  by (auto simp: blend_transient_def Let_def bind_eq_Some_conv split: if_splits)

lemma same_votes_updatePowerBudget:
  assumes "updatePowerBudget tt temp si cm time curr_severity mt preds = Some b"
  shows "same_votes tt (after b)"
proof -
  from assms obtain st where st: "map_at (thermal_throttling_status_map tt) (temp_name temp) = Some st"
    by (auto simp: updatePowerBudget_def bind_eq_Some_conv)
  show ?thesis
  proof (cases "curr_severity = NONE")
    case True
    with assms st show ?thesis by (auto simp: updatePowerBudget_def same_votes_refl)
  next
    case False
    from assms st False obtain ti s where ti: "throttling_info si = Some ti"
      and s: "getTargetStateOfPID si curr_severity = Some s"
      by (auto simp: updatePowerBudget_def bind_eq_Some_conv split: prod.splits)
    define changed where
      "changed = (prev_target st \<noteq> size_t NONE \<and> s \<noteq> prev_target st \<and> cfg_tran_cycle ti > 0)"
    define st1 where
      "st1 = (if changed then st\<lparr>tran_cycle := cfg_tran_cycle ti - 1\<rparr> else st)\<lparr>prev_target := s\<rparr>"
    have c1: "cdev_status_map st1 = cdev_status_map st" by (simp add: st1_def)
    from updatePowerBudget_Some [OF st False ti s assms changed_def st1_def]
    obtain rel thr x where
      x: "pid_budget tt st1 temp si ti cm time mt preds rel thr s = Some x"
      and A: "\<forall>early. x = Inl early \<longrightarrow>
           b = \<lparr>power_budget = early, logged_transient = Fin 0,
                after = set_status tt (temp_name temp) st1\<rparr>"
      and B: "\<forall>clamped st2. x = Inr (clamped, st2) \<longrightarrow>
           (\<exists>final added st3.
             blend_transient ti changed clamped st2 = Some (final, added, st3) \<and>
             b = \<lparr>power_budget = final, logged_transient = added,
                  after = set_status tt (temp_name temp) st3\<rparr>)"
      by blast
    have "\<exists>st'. after b = set_status tt (temp_name temp) st' \<and>
                cdev_status_map st' = cdev_status_map st"
    proof (cases x)
      case (Inl early)
      with A c1 show ?thesis by auto
    next
      case (Inr p)
      obtain clamped st2 where p: "p = (clamped, st2)" by (cases p)
      from pid_budget_cases [OF x] Inr p obtain i2 e where
        "st2 = st1\<lparr>i_budget := i2, prev_err := e\<rparr>" by auto
      with c1 have c2: "cdev_status_map st2 = cdev_status_map st" by simp
      from B Inr p obtain final added st3 where
        "blend_transient ti changed clamped st2 = Some (final, added, st3)"
        "b = \<lparr>power_budget = final, logged_transient = added,
                  after = set_status tt (temp_name temp) st3\<rparr>"
        by blast
      with blend_transient_cdev_status [of ti changed clamped st2 final added st3] c2
      show ?thesis by auto
    qed
    then show ?thesis using same_votes_set_status [OF st] by auto
  qed
qed

lemma same_votes_allocate:
  assumes "allocatePowerToCdev tt temp si curr_severity time psm cm mt preds = Some (ok, tt')"
  shows "same_votes tt tt'"
proof -
  from assms obtain b budgets' where
    b: "updatePowerBudget tt temp si cm time curr_severity mt preds = Some b"
    and tt': "tt' = set_status (after b) (temp_name temp)
                 ((status_of (after b) (temp_name temp))\<lparr>pid_power_budget_map := budgets'\<rparr>)"
    by (auto simp: allocatePowerToCdev_def bind_eq_Some_conv Let_def split_beta)
  note 1 = same_votes_updatePowerBudget [OF b]
  from b have "count_key (thermal_throttling_status_map tt) (temp_name temp)"
    by (auto simp: updatePowerBudget_def bind_eq_Some_conv count_key_def map_at_def
        dest!: map_of_SomeD intro: rev_image_eqI)
  with 1 have "count_key (thermal_throttling_status_map (after b)) (temp_name temp)"
    by (simp add: count_key_same_votes)
  from same_votes_modify [OF this, of "(status_of (after b) (temp_name temp))\<lparr>pid_power_budget_map := budgets'\<rparr>"]
  have "same_votes (after b) tt'" by (simp add: tt')
  with 1 show ?thesis by (rule same_votes_trans)
qed

lemma same_votes_by_power:
  assumes "count_key (thermal_throttling_status_map tt) n"
    and "updateCdevRequestByPower tt n cm = Some tt'"
  shows "same_votes tt tt'"
  using assms(2)
  by (auto simp: updateCdevRequestByPower_def bind_eq_Some_conv Let_def
      intro!: same_votes_modify [OF assms(1)])

lemma same_votes_by_severity:
  assumes "count_key (thermal_throttling_status_map tt) n"
    and "updateCdevRequestBySeverity tt n si curr_severity = Some tt'"
  shows "same_votes tt tt'"
  using assms(2)
  by (auto simp: updateCdevRequestBySeverity_def bind_eq_Some_conv Let_def
      intro!: same_votes_modify [OF assms(1)])

lemma same_votes_release:
  assumes "throttlingReleaseUpdate tt n cm psm severity si = Some (ok, tt')"
  shows "same_votes tt tt'"
proof (cases "map_at (thermal_throttling_status_map tt) n")
  case None
  with assms show ?thesis by (simp add: throttlingReleaseUpdate_def same_votes_refl)
next
  case (Some st)
  with assms show ?thesis
    by (auto simp: throttlingReleaseUpdate_def bind_eq_Some_conv
        intro!: same_votes_set_status [OF Some])
qed

lemma same_votes_tick:
  assumes "thermalThrottlingUpdate tt prop temp si curr_severity time psm cm mt preds = Some tt'"
  shows "same_votes tt tt'"
proof (cases "count_key (thermal_throttling_status_map tt) (temp_name temp)")
  case False
  with assms show ?thesis by (simp add: thermalThrottlingUpdate_def same_votes_refl)
next
  case present: True
  let ?n = "temp_name temp"
  from assms present obtain ti where ti: "throttling_info si = Some ti"
    by (auto simp: thermalThrottlingUpdate_def bind_eq_Some_conv)
  define tt1 where "tt1 = (if profile_map ti \<noteq> [] then parseProfileProperty tt ?n si prop else tt)"
  have s1: "same_votes tt tt1"
    using same_votes_parse [OF present] by (simp add: tt1_def same_votes_refl)
  then have p1: "count_key (thermal_throttling_status_map tt1) ?n"
    using present by (simp add: count_key_same_votes)
  let ?E2 = "if pid_power_budget_map (status_of tt1 ?n) \<noteq> [] then
            allocatePowerToCdev tt1 temp si curr_severity time psm cm mt preds \<bind>
            (\<lambda>(ok, tt).
               updateCdevRequestByPower
                 (if \<not> ok
                  then set_status tt ?n
                         ((status_of tt ?n)
                            \<lparr>pid_cdev_request_map :=
                               map (\<lambda>(cdev, _). (cdev, 0)) (pid_cdev_request_map (status_of tt ?n))\<rparr>)
                  else tt)
                 ?n cm)
          else Some tt1"
  let ?E3 = "\<lambda>tt2. if hardlimit_cdev_request_map (status_of tt2 ?n) \<noteq> []
              then updateCdevRequestBySeverity tt2 ?n si curr_severity else Some tt2"
  let ?E4 = "\<lambda>tt3. if throttling_release_map (status_of tt3 ?n) \<noteq> []
              then map_option snd (throttlingReleaseUpdate tt3 ?n cm psm curr_severity si)
              else Some tt3"
  have eq: "thermalThrottlingUpdate tt prop temp si curr_severity time psm cm mt preds
              = ?E2 \<bind> (\<lambda>tt2. ?E3 tt2 \<bind> ?E4)"
    unfolding tt1_def using present ti
    by (simp add: thermalThrottlingUpdate_def Let_def)
  from assms [unfolded eq] obtain tt2 tt3 where
    e2: "?E2 = Some tt2" and e3: "?E3 tt2 = Some tt3" and e4: "?E4 tt3 = Some tt'"
    unfolding bind_eq_Some_conv by blast
  have s2: "same_votes tt1 tt2"
  proof (cases "pid_power_budget_map (status_of tt1 ?n) \<noteq> []")
    case False
    with e2 show ?thesis by (simp add: same_votes_refl)
  next
    case True
    with e2 obtain ok ta where
      a: "allocatePowerToCdev tt1 temp si curr_severity time psm cm mt preds = Some (ok, ta)"
      and u: "updateCdevRequestByPower
                 (if \<not> ok
                  then set_status ta ?n
                         ((status_of ta ?n)
                            \<lparr>pid_cdev_request_map :=
                               map (\<lambda>(cdev, _). (cdev, 0)) (pid_cdev_request_map (status_of ta ?n))\<rparr>)
                  else ta)
                 ?n cm = Some tt2"
      by (auto simp: bind_eq_Some_conv)
    note sa = same_votes_allocate [OF a]
    with p1 have pa: "count_key (thermal_throttling_status_map ta) ?n"
      by (simp add: count_key_same_votes)
    let ?tz = "if \<not> ok
                  then set_status ta ?n
                         ((status_of ta ?n)
                            \<lparr>pid_cdev_request_map :=
                               map (\<lambda>(cdev, _). (cdev, 0)) (pid_cdev_request_map (status_of ta ?n))\<rparr>)
                  else ta"
    have sz: "same_votes ta ?tz"
      using same_votes_modify [OF pa] by (simp add: same_votes_refl)
    with pa have pz: "count_key (thermal_throttling_status_map ?tz) ?n"
      by (simp only: count_key_same_votes)
    from same_votes_by_power [OF pz u] sz sa show ?thesis
      by (blast intro: same_votes_trans)
  qed
  with p1 have p2: "count_key (thermal_throttling_status_map tt2) ?n"
    by (simp add: count_key_same_votes)
  have s3: "same_votes tt2 tt3"
    using e3 same_votes_by_severity [OF p2] by (auto simp: same_votes_refl split: if_splits)
  have s4: "same_votes tt3 tt'"
    using e4 same_votes_release by (auto simp: same_votes_refl split: if_splits)
  from s1 s2 s3 s4 show ?thesis by (blast intro: same_votes_trans)
qed

lemma getCdevMaxRequest_registry_max:
  "getCdevMaxRequest tt cdev = registry_max (cdev_all_request_map tt) cdev"
  by (simp add: getCdevMaxRequest_def registry_max_def)

lemma update_max_request:
  assumes "updateCdevMaxRequestAndNotifyIfChange reg c cur new = Some (reg', changed)"
  shows "mset (request_list reg' c) + {#cur#} = mset (request_list reg c) + {#new#}"
    and "sorted (rev (request_list reg c)) \<Longrightarrow> sorted (rev (request_list reg' c))"
    and "c' \<noteq> c \<Longrightarrow> reg' c' = reg c'"
    and "changed \<longleftrightarrow> registry_max reg' c \<noteq> registry_max reg c"
proof -
  from assms obtain xs cur_max new_max where
    xs: "reg c = Some xs" and cm: "multiset_begin xs = Some cur_max"
    and mem: "cur \<in> set xs"
    and nm: "multiset_begin (multiset_insert new (remove1 cur xs)) = Some new_max"
    and reg': "reg' = reg(c \<mapsto> multiset_insert new (remove1 cur xs))"
    and ch: "changed = (new_max \<noteq> cur_max)"
    by (auto simp: updateCdevMaxRequestAndNotifyIfChange_def bind_eq_Some_conv Let_def
        multiset_erase_find_def split: if_splits)
  show "mset (request_list reg' c) + {#cur#} = mset (request_list reg c) + {#new#}"
    using xs mem by (simp add: reg' request_list_def mset_multiset_insert)
  show "sorted (rev (request_list reg c)) \<Longrightarrow> sorted (rev (request_list reg' c))"
    using xs by (simp add: reg' request_list_def sorted_multiset_insert sorted_rev_remove1)
  show "c' \<noteq> c \<Longrightarrow> reg' c' = reg c'"
    by (simp add: reg')
  show "changed \<longleftrightarrow> registry_max reg' c \<noteq> registry_max reg c"
    using xs cm nm by (simp add: reg' ch registry_max_def)
qed


lemma vals_of_Cons:
  "vals_of c ((k, v) # es) = (if k = c then v # vals_of c es else vals_of c es)"
  by (simp add: vals_of_def)

text \<open>One run of the body of the loop of \<open>computeCoolingDevicesRequest\<close>.\<close>

lemma compute_loop_step:
  assumes "compute_loop st bs sev ((c, cur) # rest) (done, reg, out) = Some r"
  shows "\<exists>req reg1 out1.
           compute_loop st bs sev rest ((c, req) # done, reg1, out1) = Some r \<and>
           mset (request_list reg1 c) + {#cur#} = mset (request_list reg c) + {#req#} \<and>
           (sorted (rev (request_list reg c)) \<longrightarrow> sorted (rev (request_list reg1 c))) \<and>
           (\<forall>c'. c' \<noteq> c \<longrightarrow> reg1 c' = reg c') \<and>
           out1 = (if registry_max reg1 c \<noteq> registry_max reg c then out @ [c] else out)"
proof -
  from assms obtain info where info: "map_at bs c = Some info"
    by (auto simp: bind_eq_Some_conv)
  define req where "req = final_request
      (case map_at (pid_cdev_request_map st) c of None \<Rightarrow> 0 | Some r \<Rightarrow> r)
      (case map_at (hardlimit_cdev_request_map st) c of None \<Rightarrow> 0 | Some r \<Rightarrow> r)
      (case map_at (throttling_release_map st) c of None \<Rightarrow> 0 | Some r \<Rightarrow> r)
      (cdev_floor_with_power_link info ! sev) (cdev_ceiling info ! sev)"
  show ?thesis
  proof (cases "cur = req")
    case True
    with assms info have "compute_loop st bs sev rest ((c, req) # done, reg, out) = Some r"
      by (simp add: req_def Let_def)
    then show ?thesis
      by (intro exI [of _ req] exI [of _ reg] exI [of _ out]) (simp add: True)
  next
    case False
    with assms info obtain reg1 changed where
      u: "updateCdevMaxRequestAndNotifyIfChange reg c cur req = Some (reg1, changed)"
      and l: "compute_loop st bs sev rest
                ((c, req) # done, reg1, if changed then out @ [c] else out) = Some r"
      by (auto simp: req_def Let_def bind_eq_Some_conv)
    from update_max_request [OF u] l show ?thesis
      by (intro exI [of _ req] exI [of _ reg1] exI [of _ "if changed then out @ [c] else out"])
        auto
  qed
qed


lemma mset_exchange:
  fixes X E R1 N R :: "int multiset"
  assumes "X + E = R1 + N" and "R1 + {#cur#} = R + {#req#}"
  shows "X + add_mset cur E = R + add_mset req N"
proof -
  have "X + add_mset cur E = add_mset cur (X + E)" by simp
  also have "\<dots> = add_mset cur (R1 + N)" by (simp only: assms(1))
  also have "\<dots> = (R1 + {#cur#}) + N" by simp
  also have "\<dots> = (R + {#req#}) + N" by (simp only: assms(2))
  also have "\<dots> = R + add_mset req N" by simp
  finally show ?thesis .
qed

lemma compute_loop_votes:
  assumes "compute_loop st bs sev entries (done, reg, out) = Some (done', reg', out')"
  shows "\<exists>new. done' = rev new @ done \<and> map fst new = map fst entries \<and>
           (\<forall>c. mset (request_list reg' c) + mset (vals_of c entries)
                  = mset (request_list reg c) + mset (vals_of c new)) \<and>
           (\<forall>c. sorted (rev (request_list reg c)) \<longrightarrow> sorted (rev (request_list reg' c)))"
  using assms
proof (induction entries arbitrary: "done" reg out)
  case Nil
  then show ?case by (simp add: vals_of_def)
next
  case (Cons e entries)
  obtain c cur where e: "e = (c, cur)" by (cases e)
  from compute_loop_step [OF Cons.prems [unfolded e]]
  obtain req reg1 out1 where
    l: "compute_loop st bs sev entries ((c, req) # done, reg1, out1) = Some (done', reg', out')"
    and m: "mset (request_list reg1 c) + {#cur#} = mset (request_list reg c) + {#req#}"
    and s: "sorted (rev (request_list reg c)) \<longrightarrow> sorted (rev (request_list reg1 c))"
    and o: "\<forall>c'. c' \<noteq> c \<longrightarrow> reg1 c' = reg c'"
    by blast
  from Cons.IH [OF l] obtain new where
    n: "done' = rev new @ (c, req) # done" "map fst new = map fst entries"
    and nm: "\<forall>c'. mset (request_list reg' c') + mset (vals_of c' entries)
                  = mset (request_list reg1 c') + mset (vals_of c' new)"
    and ns: "\<forall>c'. sorted (rev (request_list reg1 c')) \<longrightarrow> sorted (rev (request_list reg' c'))"
    by blast
  let ?new = "(c, req) # new"
  have 1: "done' = rev ?new @ done" using n by simp
  have 2: "map fst ?new = map fst (e # entries)" using n e by simp
  have 3: "mset (request_list reg' c') + mset (vals_of c' (e # entries))
                  = mset (request_list reg c') + mset (vals_of c' ?new)" for c'
  proof (cases "c' = c")
    case True
    from nm have a: "mset (request_list reg' c) + mset (vals_of c entries)
                  = mset (request_list reg1 c) + mset (vals_of c new)"
      by (rule spec)
    from mset_exchange [OF a m] show ?thesis
      by (simp add: True e vals_of_Cons)
  next
    case False
    with o have "request_list reg1 c' = request_list reg c'"
      by (simp add: request_list_def)
    with nm [rule_format, of c'] False show ?thesis by (simp add: e vals_of_Cons)
  qed
  have 4: "sorted (rev (request_list reg c')) \<longrightarrow> sorted (rev (request_list reg' c'))" for c'
  proof (cases "c' = c")
    case True
    with s ns show ?thesis by blast
  next
    case False
    with o have "request_list reg1 c' = request_list reg c'"
      by (simp add: request_list_def)
    with ns show ?thesis by simp
  qed
  show ?case
    by (rule exI [of _ ?new]) (intro conjI allI, rule 1, rule 2, rule 3, rule 4)
qed


lemma compute_loop_notifies:
  assumes "compute_loop st bs sev entries (done, reg, out) = Some (done', reg', out')"
    and "distinct (map fst entries)"
  shows "out' = out @ filter (\<lambda>c. registry_max reg' c \<noteq> registry_max reg c) (map fst entries) \<and>
         (\<forall>c. c \<notin> fst ` set entries \<longrightarrow> reg' c = reg c)"
  using assms
proof (induction entries arbitrary: "done" reg out)
  case Nil
  then show ?case by simp
next
  case (Cons e entries)
  obtain c cur where e: "e = (c, cur)" by (cases e)
  from Cons.prems(2) e have c: "c \<notin> fst ` set entries" and d: "distinct (map fst entries)"
    by auto
  from compute_loop_step [OF Cons.prems(1) [unfolded e]]
  obtain req reg1 out1 where
    l: "compute_loop st bs sev entries ((c, req) # done, reg1, out1) = Some (done', reg', out')"
    and o: "\<forall>c'. c' \<noteq> c \<longrightarrow> reg1 c' = reg c'"
    and out1: "out1 = (if registry_max reg1 c \<noteq> registry_max reg c then out @ [c] else out)"
    by blast
  from Cons.IH [OF l d] have
    r: "out' = out1 @ filter (\<lambda>c'. registry_max reg' c' \<noteq> registry_max reg1 c') (map fst entries)"
    and u: "\<forall>c'. c' \<notin> fst ` set entries \<longrightarrow> reg' c' = reg1 c'"
    by blast+
  from u c have same: "registry_max reg' c = registry_max reg1 c"
    by (simp add: registry_max_def)
  have f: "filter (\<lambda>c'. registry_max reg' c' \<noteq> registry_max reg1 c') (map fst entries)
         = filter (\<lambda>c'. registry_max reg' c' \<noteq> registry_max reg c') (map fst entries)"
  proof (rule filter_cong [OF refl])
    fix c' assume "c' \<in> set (map fst entries)"
    with c have "c' \<noteq> c" by auto
    with o have "registry_max reg1 c' = registry_max reg c'"
      by (simp add: registry_max_def)
    then show "(registry_max reg' c' \<noteq> registry_max reg1 c') = (registry_max reg' c' \<noteq> registry_max reg c')"
      by simp
  qed
  have "out' = out @ filter (\<lambda>c'. registry_max reg' c' \<noteq> registry_max reg c') (map fst (e # entries))"
    using r out1 same f by (simp add: e)
  moreover have "\<forall>c'. c' \<notin> fst ` set (e # entries) \<longrightarrow> reg' c' = reg c'"
    using u o e by auto
  ultimately show ?case by blast
qed

lemma votes_update:
  assumes "map_of al n = Some st"
  shows "mset (concat (map (\<lambda>(s, x). vals_of c (cdev_status_map x)) (AList.update n st' al)))
           + mset (vals_of c (cdev_status_map st))
       = mset (concat (map (\<lambda>(s, x). vals_of c (cdev_status_map x)) al))
           + mset (vals_of c (cdev_status_map st'))"
  using assms
proof (induction al)
  case Nil
  then show ?case by simp
next
  case (Cons a al)
  obtain k v where a: "a = (k, v)" by (cases a)
  show ?case
  proof (cases "k = n")
    case True
    with Cons.prems a have "v = st" by simp
    with True a show ?thesis by simp
  next
    case False
    with Cons.prems a have "map_of al n = Some st" by simp
    from Cons.IH [OF this] False a show ?thesis by simp
  qed
qed

lemma keys_update: "map_of al n = Some st \<Longrightarrow> map fst (AList.update n v al) = map fst al"
  by (induction al) (auto split: if_splits)

text \<open>\<open>computeCoolingDevicesRequest\<close> keeps the registry in step with the recorded
  requests.\<close>

lemma consistent_compute:
  assumes "consistent tt"
    and "computeCoolingDevicesRequest tt n si sev out = Some (tt', out')"
  shows "consistent tt'"
proof (cases "map_at (thermal_throttling_status_map tt) n")
  case None
  with assms show ?thesis by (simp add: computeCoolingDevicesRequest_def)
next
  case (Some st)
  let ?al = "thermal_throttling_status_map tt"
  from assms(2) Some obtain ti dn reg where
    loop: "compute_loop st (active_bindings ti (profile st)) (size_t sev) (cdev_status_map st)
             ([], cdev_all_request_map tt, out) = Some (dn, reg, out')"
    and tt': "tt' = \<lparr>thermal_throttling_status_map =
                      AList.update n (st\<lparr>cdev_status_map := rev dn\<rparr>) ?al,
                    cdev_all_request_map = reg\<rparr>"
    by (auto simp: computeCoolingDevicesRequest_def bind_eq_Some_conv)
  from compute_loop_votes [OF loop] obtain new where
    dn: "dn = rev new @ []" and keys: "map fst new = map fst (cdev_status_map st)"
    and m: "\<forall>c. mset (request_list reg c) + mset (vals_of c (cdev_status_map st))
                 = mset (request_list (cdev_all_request_map tt) c) + mset (vals_of c new)"
    and s: "\<forall>c. sorted (rev (request_list (cdev_all_request_map tt) c))
                 \<longrightarrow> sorted (rev (request_list reg c))"
    by blast
  from dn have new: "rev dn = new" by simp
  let ?st' = "st\<lparr>cdev_status_map := new\<rparr>"
  from Some have mo: "map_of ?al n = Some st" by (simp add: map_at_def)
  from assms(1) have d1: "distinct (map fst ?al)"
    and d2: "\<forall>(sensor, x) \<in> set ?al. distinct (map fst (cdev_status_map x))"
    and inv: "\<forall>c. sorted (rev (request_list (cdev_all_request_map tt) c)) \<and>
        (\<exists>k. mset (request_list (cdev_all_request_map tt) c)
               = mset (votes tt c) + replicate_mset k 0)"
    by (simp_all add: consistent_def)
  from mo have "(n, st) \<in> set ?al" by (rule map_of_SomeD)
  with d2 have dst: "distinct (map fst (cdev_status_map st))" by auto
  have a: "distinct (map fst (thermal_throttling_status_map tt'))"
    using d1 by (simp add: tt' keys_update [OF mo])
  have b: "\<forall>(sensor, x) \<in> set (thermal_throttling_status_map tt').
             distinct (map fst (cdev_status_map x))"
  proof (clarify)
    fix sensor x assume "(sensor, x) \<in> set (thermal_throttling_status_map tt')"
    then have "(sensor, x) \<in> set (AList.update n ?st' ?al)" by (simp add: tt' new)
    then have "(sensor, x) \<in> set ?al \<or> (sensor = n \<and> x = ?st')" by (rule set_update_cases)
    then show "distinct (map fst (cdev_status_map x))"
    proof
      assume "(sensor, x) \<in> set ?al"
      with d2 show ?thesis by auto
    next
      assume "sensor = n \<and> x = ?st'"
      with dst keys show ?thesis by simp
    qed
  qed
  have c: "sorted (rev (request_list (cdev_all_request_map tt') c)) \<and>
        (\<exists>k. mset (request_list (cdev_all_request_map tt') c)
               = mset (votes tt' c) + replicate_mset k 0)" for c
  proof -
    from inv obtain k where
      k: "mset (request_list (cdev_all_request_map tt) c) = mset (votes tt c) + replicate_mset k 0"
      and so: "sorted (rev (request_list (cdev_all_request_map tt) c))"
      by blast
    have v: "mset (votes tt' c) + mset (vals_of c (cdev_status_map st))
           = mset (votes tt c) + mset (vals_of c new)"
      using votes_update [OF mo, of c ?st'] by (simp add: votes_def tt' new)
    from m have "mset (request_list reg c) + mset (vals_of c (cdev_status_map st))
                 = mset (request_list (cdev_all_request_map tt) c) + mset (vals_of c new)"
      by (rule spec)
    also have "\<dots> = (mset (votes tt c) + mset (vals_of c new)) + replicate_mset k 0"
      by (simp only: k ac_simps)
    also have "\<dots> = (mset (votes tt' c) + mset (vals_of c (cdev_status_map st)))
                     + replicate_mset k 0"
      by (simp only: v)
    also have "\<dots> = (mset (votes tt' c) + replicate_mset k 0)
                     + mset (vals_of c (cdev_status_map st))"
      by (simp only: ac_simps)
    finally have "mset (request_list reg c) = mset (votes tt' c) + replicate_mset k 0"
      by (rule add_right_imp_eq)
    moreover from s so have "sorted (rev (request_list reg c))" by blast
    ultimately show ?thesis by (auto simp: tt')
  qed
  from a b c show ?thesis unfolding consistent_def by blast
qed

lemma consistent_initial: "consistent initial"
  by (simp add: consistent_def initial_def votes_def request_list_def)

lemma reachable_consistent: "reachable tt \<Longrightarrow> consistent tt"
proof (induction rule: reachable.induct)
  case init
  show ?case by (rule consistent_initial)
next
  case (register tt sensor_name info_ptr cooling_device_info_map)
  then show ?case by (simp add: consistent_register)
next
  case (clear tt sensor_name)
  then show ?case by (blast intro: consistent_same_votes same_votes_clear)
next
  case (tick tt pr temp sensor_info curr_severity time_elapsed_ms power_status_map
      cooling_device_info_map max_throttling sensor_predictions tt')
  from same_votes_tick [OF tick.hyps(2)] tick.IH show ?case
    by (rule consistent_same_votes)
next
  case (compute tt sensor_name sensor_info curr_severity to_update tt' to_update')
  from compute.IH compute.hyps(2) show ?case by (rule consistent_compute)
qed

lemma consistent_max:
  assumes "consistent tt" and "votes tt cdev \<noteq> []"
  shows "\<exists>m. getCdevMaxRequest tt cdev = Some (Some m) \<and>
           (\<forall>v \<in> set (votes tt cdev). v \<le> m) \<and>
           (m \<in> set (votes tt cdev) \<or> m = 0) \<and>
           ((\<exists>v \<in> set (votes tt cdev). 0 \<le> v) \<longrightarrow> m = Max (set (votes tt cdev)))"
proof -
  let ?xs = "request_list (cdev_all_request_map tt) cdev"
  let ?vs = "votes tt cdev"
  from assms(1) obtain k where so: "sorted (rev ?xs)"
    and k: "mset ?xs = mset ?vs + replicate_mset k 0"
    unfolding consistent_def by blast
  from k have "set_mset (mset ?xs) = set_mset (mset ?vs + replicate_mset k 0)" by simp
  then have sx: "set ?xs = set ?vs \<union> (if k = 0 then {} else {0})"
    by (simp split: if_splits)
  with assms(2) have ne: "?xs \<noteq> []" by auto
  then obtain m rest where xs: "?xs = m # rest" by (cases ?xs) auto
  with ne have reg: "cdev_all_request_map tt cdev = Some (m # rest)"
    by (auto simp: request_list_def split: option.splits)
  from sorted_rev_hd_Max [OF so ne] xs have mx: "m = Max (set ?xs)" by simp
  have fin: "finite (set ?xs)" by simp
  from mx ne have m_in: "m \<in> set ?xs" by (metis List.finite_set Max_in set_empty)
  have up: "\<forall>v \<in> set ?xs. v \<le> m" using mx by simp
  have 1: "getCdevMaxRequest tt cdev = Some (Some m)"
    by (simp add: getCdevMaxRequest_def reg multiset_begin_def)
  have 2: "\<forall>v \<in> set ?vs. v \<le> m" using up sx by auto
  have 3: "m \<in> set ?vs \<or> m = 0" using m_in sx by (auto split: if_splits)
  have 4: "m = Max (set ?vs)" if "\<exists>v \<in> set ?vs. 0 \<le> v"
  proof (cases "m \<in> set ?vs")
    case True
    with 2 show ?thesis by (intro Max_eqI [symmetric]) auto
  next
    case False
    with 3 have z: "m = 0" by simp
    from that obtain v where v: "v \<in> set ?vs" "0 \<le> v" by blast
    with 2 z have "v = 0" by force
    with v z False show ?thesis by simp
  qed
  from 1 2 3 4 show ?thesis by blast
qed

lemma compute_notifies:
  assumes "consistent tt"
    and "computeCoolingDevicesRequest tt n si sev out = Some (tt', out')"
    and "map_at (thermal_throttling_status_map tt) n = Some st"
  shows "out' = out @ filter (\<lambda>c. getCdevMaxRequest tt' c \<noteq> getCdevMaxRequest tt c)
                        (map fst (cdev_status_map st))"
proof -
  from assms(2,3) obtain ti dn reg where
    loop: "compute_loop st (active_bindings ti (profile st)) (size_t sev) (cdev_status_map st)
             ([], cdev_all_request_map tt, out) = Some (dn, reg, out')"
    and tt': "cdev_all_request_map tt' = reg"
    by (auto simp: computeCoolingDevicesRequest_def bind_eq_Some_conv)
  from assms(3) have "(n, st) \<in> set (thermal_throttling_status_map tt)"
    by (simp add: map_at_def map_of_SomeD)
  with assms(1) have "distinct (map fst (cdev_status_map st))"
    by (auto simp: consistent_def)
  from compute_loop_notifies [OF loop this] show ?thesis
    by (simp add: getCdevMaxRequest_registry_max tt')
qed

text \<open>
  C2 (as amended). In every state the class can reach, for a CDEV with a recorded request:
  \<open>getCdevMaxRequest\<close> succeeds, its value is at least every recorded request of every sensor
  for the CDEV, and it is one of them or 0; when some recorded request is not negative, it is
  their maximum. In \<open>computeCoolingDevicesRequest\<close> for a registered sensor, the names appended
  to \<open>cooling_devices_to_update\<close> are, in the order of the sensor's \<open>cdev_status_map\<close>, the
  CDEVs for which \<open>getCdevMaxRequest\<close> differs before and after the call.
\<close>

theorem getCdevMaxRequest_of_votes:
  assumes "reachable tt"
  shows "(votes tt cdev \<noteq> [] \<longrightarrow>
            (\<exists>m. getCdevMaxRequest tt cdev = Some (Some m) \<and>
                 (\<forall>v \<in> set (votes tt cdev). v \<le> m) \<and>
                 (m \<in> set (votes tt cdev) \<or> m = 0) \<and>
                 ((\<exists>v \<in> set (votes tt cdev). 0 \<le> v) \<longrightarrow> m = Max (set (votes tt cdev))))) \<and>
         (computeCoolingDevicesRequest tt sensor_name sensor_info curr_severity to_update
            = Some (tt', to_update') \<and>
          map_at (thermal_throttling_status_map tt) sensor_name = Some st \<longrightarrow>
            to_update' =
              to_update @ filter (\<lambda>c. getCdevMaxRequest tt' c \<noteq> getCdevMaxRequest tt c)
                            (map fst (cdev_status_map st)))"
proof -
  from assms have c: "consistent tt" by (rule reachable_consistent)
  from consistent_max [OF c] compute_notifies [OF c] show ?thesis by blast
qed

lemma limit_ticked_reachable: "reachable limit_ticked"
proof -
  have "reachable (snd (registerThermalThrottling initial ''skin'' (throttling_info limit_sensor)
                          ex_cdevs))"
    by (rule reachable.register) (rule reachable.init)
  then have "reachable \<lparr>thermal_throttling_status_map = [(''skin'', limit_status 0 0)],
       cdev_all_request_map = [''cpu'' \<mapsto> [0]]\<rparr>"
    using registered_limit_eval by (simp add: registered_limit_def)
  from reachable.tick [OF this tick_limit] show ?thesis by (simp add: limit_ticked_def)
qed

theorem getCdevMaxRequest_of_votes_witness:
  "reachable limit_ticked \<and> reachable limit_voted \<and>
   votes limit_voted ''cpu'' = [3] \<and>
   getCdevMaxRequest limit_voted ''cpu'' = Some (Some 3) \<and>
   computeCoolingDevicesRequest limit_ticked ''skin'' limit_sensor SEVERE []
     = Some (limit_voted, [''cpu'']) \<and>
   map_at (thermal_throttling_status_map limit_ticked) ''skin'' = Some (limit_status 3 0) \<and>
   map fst (cdev_status_map (limit_status 3 0)) = [''cpu''] \<and>
   getCdevMaxRequest limit_voted ''cpu'' \<noteq> getCdevMaxRequest limit_ticked ''cpu''"
proof -
  have cmp: "computeCoolingDevicesRequest limit_ticked ''skin'' limit_sensor SEVERE []
     = Some (limit_voted, [''cpu''])"
    using compute_limit by (simp add: limit_ticked_def limit_voted_def)
  have r1: "reachable limit_ticked" by (rule limit_ticked_reachable)
  from reachable.compute [OF r1 cmp] have r2: "reachable limit_voted" .
  have v: "votes limit_voted ''cpu'' = [3]"
    by (simp add: votes_def limit_voted_def limit_status_def vals_of_def)
  have st: "map_at (thermal_throttling_status_map limit_ticked) ''skin'' = Some (limit_status 3 0)"
    by (simp add: limit_ticked_def map_at_def)
  have k: "map fst (cdev_status_map (limit_status 3 0)) = [''cpu'']"
    by (simp add: limit_status_def)
  note a = getCdevMaxRequest_of_votes [OF r2, of "''cpu''" "''skin''" limit_sensor SEVERE "[]"
      limit_voted "[]" "limit_status 3 3"]
  note b = getCdevMaxRequest_of_votes [OF r1, of "''cpu''" "''skin''" limit_sensor SEVERE "[]"
      limit_voted "[''cpu'']" "limit_status 3 0"]
  have ne: "votes limit_voted ''cpu'' \<noteq> []" by (simp add: v)
  from a [THEN conjunct1, rule_format, OF ne] obtain m where
    g: "getCdevMaxRequest limit_voted ''cpu'' = Some (Some m)"
    and mx: "(\<exists>v \<in> set (votes limit_voted ''cpu''). 0 \<le> v) \<longrightarrow>
               m = Max (set (votes limit_voted ''cpu''))"
    by blast
  from mx have "m = 3" by (simp add: v)
  with g have m: "getCdevMaxRequest limit_voted ''cpu'' = Some (Some 3)" by simp
  from b [THEN conjunct2, rule_format, OF conjI [OF cmp st]]
  have "[''cpu''] = [] @ filter (\<lambda>c. getCdevMaxRequest limit_voted c
                                       \<noteq> getCdevMaxRequest limit_ticked c)
                         (map fst (cdev_status_map (limit_status 3 0)))" .
  then have d: "getCdevMaxRequest limit_voted ''cpu'' \<noteq> getCdevMaxRequest limit_ticked ''cpu''"
    unfolding k by (simp split: if_splits)
  from r1 r2 v m cmp st k d show ?thesis by simp
qed

lemma both_registered:
  "registerThermalThrottling initial ''skin'' (Some both_info) ex_cdevs
     = (True, both_state 0 [0, 0])"
  by (simp add: both_info_def both_state_def registerThermalThrottling_def
      initial_def count_key_def ex_cdevs_def pid_status_def limit_binding_def
      ex_info_def ex_binding_def seven_def register_cdev_def
      new_status_def registry_insert0_def)

text \<open>
  C2 as stated fails: \<open>cpu\<close> has a PID weight and a hard limit, so registration inserts 0
  twice for the one recorded request; with a ceiling of -1 the sensor's request becomes -1,
  the registry holds 0 and -1, and its maximum is 0 while the only recorded request is -1.
\<close>

theorem getCdevMaxRequest_above_negative_vote:
  "registerThermalThrottling initial ''skin'' (Some both_info) ex_cdevs
     = (True, both_state 0 [0, 0]) \<and>
   computeCoolingDevicesRequest (both_state 0 [0, 0]) ''skin'' (ex_sensor both_info) SEVERE []
     = Some (both_state (- 1) [0, - 1], []) \<and>
   votes (both_state (- 1) [0, - 1]) ''cpu'' = [- 1] \<and>
   getCdevMaxRequest (both_state (- 1) [0, - 1]) ''cpu'' = Some (Some 0)"
  by (simp add: both_registered)
     (simp add: computeCoolingDevicesRequest_def both_state_def both_info_def ex_sensor_def
      ex_info_def pid_status_def map_at_def limit_binding_def
      updateCdevMaxRequestAndNotifyIfChange_def
      active_bindings_def ex_binding_def seven_def final_request_def Let_def
      multiset_begin_def multiset_erase_find_def votes_def vals_of_def getCdevMaxRequest_def)

end
